(* ===== verification/NLM_Prelude.thy ===== *)
theory NLM_Prelude
  imports
    Complex_Main
    "HOL-Library.Word"
    "HOL-Library.Sublist"
    "HOL-Library.List_Lexorder"
    "HOL-Library.Char_ord"
    "HOL-Library.Multiset"
begin

text \<open>
  The vocabulary the components share: Go's 64-bit integers, its \<open>time\<close> arithmetic, the
  string functions of package \<open>strings\<close> the code uses (on bytes; upper and lower case and
  white space are those of ASCII), and the external world (database faults, clock, file
  sizes, cancellation) that every operation that leaves the process consults.
  Generic lemmas about them are collected in \<open>go_simps\<close>.
\<close>

named_theorems go_simps \<open>rewrite rules of the Go vocabulary\<close>

section \<open>Machine integers\<close>

text \<open>A Go \<open>int\<close>, \<open>int64\<close> or \<open>time.Duration\<close> is an \<open>int\<close>; where the code computes with
  it and the result may leave the range, the wrap-around is written out with \<open>wrap64\<close>.\<close>

type_synonym go_int = int
type_synonym duration = int
type_synonym gotime = int

definition wrap64 :: "int \<Rightarrow> int" where
  "wrap64 x = signed_take_bit 63 x"

definition int64 :: "int \<Rightarrow> bool" where
  "int64 x \<longleftrightarrow> - (2 ^ 63) \<le> x \<and> x < 2 ^ 63"

lemma wrap64_word: "wrap64 x = sint (word_of_int x :: 64 word)"
  unfolding wrap64_def by transfer simp

lemma wrap64_id [go_simps, simp]: "int64 x \<Longrightarrow> wrap64 x = x"
  by (simp add: wrap64_def int64_def signed_take_bit_int_eq_self)

lemma int64_wrap64 [go_simps, simp]: "int64 (wrap64 x)"
  unfolding int64_def wrap64_def
  using signed_take_bit_int_greater_eq_minus_exp [of 63 x] signed_take_bit_int_less_exp [of 63 x]
  by simp

text \<open>Doubling a positive value that fits: the result is exact, or it is negative.\<close>

lemma wrap64_double_overflow:
  assumes "0 < x" "x < 2 ^ 63" "2 ^ 63 \<le> x * 2"
  shows "wrap64 (x * 2) < 0"
proof -
  have "wrap64 (x * 2) = wrap64 (x * 2 - 2 ^ 64)"
    unfolding wrap64_def by (simp add: signed_take_bit_eq_iff_take_bit_eq take_bit_eq_mod)
  also have "\<dots> = x * 2 - 2 ^ 64"
    using assms by (intro wrap64_id) (simp add: int64_def)
  finally show ?thesis using assms by simp
qed

section \<open>Time\<close>

text \<open>
  A \<open>time.Time\<close> is its distance in nanoseconds from Go's zero time, so that \<open>IsZero\<close> is
  \<open>t = 0\<close>. \<open>Time.Sub\<close> saturates at the largest and the smallest \<open>Duration\<close>.
\<close>

definition nanosecond :: duration where "nanosecond = 1"
definition millisecond :: duration where "millisecond = 1000000"
definition second :: duration where "second = 1000000000"
definition minute :: duration where "minute = 60 * second"
definition hour :: duration where "hour = 60 * minute"

definition min_duration :: duration where "min_duration = - (2 ^ 63)"
definition max_duration :: duration where "max_duration = 2 ^ 63 - 1"

definition time_is_zero :: "gotime \<Rightarrow> bool" where
  "time_is_zero t \<longleftrightarrow> t = 0"

definition time_add :: "gotime \<Rightarrow> duration \<Rightarrow> gotime" where
  "time_add t d = t + d"

definition time_sub :: "gotime \<Rightarrow> gotime \<Rightarrow> duration" where
  "time_sub t u = (if t - u < min_duration then min_duration
                   else if max_duration < t - u then max_duration else t - u)"

definition time_after :: "gotime \<Rightarrow> gotime \<Rightarrow> bool" where
  "time_after t u \<longleftrightarrow> u < t"

definition time_before :: "gotime \<Rightarrow> gotime \<Rightarrow> bool" where
  "time_before t u \<longleftrightarrow> t < u"

lemmas time_defs = time_is_zero_def time_add_def time_sub_def time_after_def time_before_def
lemmas unit_defs = nanosecond_def millisecond_def second_def minute_def hour_def
  min_duration_def max_duration_def

lemma time_sub_exact [go_simps]: "int64 (t - u) \<Longrightarrow> time_sub t u = t - u"
  by (simp add: time_sub_def int64_def unit_defs)

lemma int64_time_sub [go_simps, simp]: "int64 (time_sub t u)"
  by (simp add: time_sub_def int64_def unit_defs)

lemma time_sub_mono: "t \<le> t' \<Longrightarrow> time_sub t u \<le> time_sub t' u"
  by (simp add: time_sub_def unit_defs)

section \<open>Strings\<close>

definition go_space :: "char \<Rightarrow> bool" where
  "go_space c \<longleftrightarrow> (of_char c :: nat) \<in> {9, 10, 11, 12, 13, 32}"

definition trim_space :: "string \<Rightarrow> string" where
  "trim_space s = rev (dropWhile go_space (rev (dropWhile go_space s)))"

definition to_lower_char :: "char \<Rightarrow> char" where
  "to_lower_char c =
     (let n = (of_char c :: nat) in if 65 \<le> n \<and> n \<le> 90 then char_of (n + 32) else c)"

definition to_lower :: "string \<Rightarrow> string" where
  "to_lower s = map to_lower_char s"

definition equal_fold :: "string \<Rightarrow> string \<Rightarrow> bool" where
  "equal_fold a b \<longleftrightarrow> to_lower a = to_lower b"

definition has_prefix :: "string \<Rightarrow> string \<Rightarrow> bool" where
  "has_prefix s p \<longleftrightarrow> take (length p) s = p"

fun str_contains :: "string \<Rightarrow> string \<Rightarrow> bool" where
  "str_contains [] p = (p = [])"
| "str_contains (c # s) p = (has_prefix (c # s) p \<or> str_contains s p)"

fun index_byte :: "string \<Rightarrow> char \<Rightarrow> int" where
  "index_byte [] c = -1"
| "index_byte (x # s) c =
     (if x = c then 0 else let i = index_byte s c in if i < 0 then -1 else i + 1)"

fun split_on :: "char \<Rightarrow> string \<Rightarrow> string list" where
  "split_on c [] = [[]]"
| "split_on c (x # s) =
     (if x = c then [] # split_on c s
      else case split_on c s of [] \<Rightarrow> [[x]] | p # ps \<Rightarrow> (x # p) # ps)"

lemma has_prefix_iff: "has_prefix s p \<longleftrightarrow> prefix p s"
  unfolding has_prefix_def by (metis append_eq_conv_conj append_take_drop_id prefix_def)

lemma str_contains_iff: "str_contains s p \<longleftrightarrow> sublist p s"
  by (induction s) (auto simp: has_prefix_iff sublist_Cons_right)

lemma equal_fold_refl [simp]: "equal_fold a a"
  by (simp add: equal_fold_def)

lemma equal_fold_sym: "equal_fold a b = equal_fold b a"
  by (auto simp: equal_fold_def)

lemma equal_fold_length: "equal_fold a b \<Longrightarrow> length a = length b"
  unfolding equal_fold_def to_lower_def by (drule map_eq_imp_length_eq)

lemma trim_space_Nil [simp]: "trim_space [] = []"
  by (simp add: trim_space_def)

text \<open>\<open>TrimSpace\<close> changes nothing on a string whose two ends are not white space, and always
  returns such a string.\<close>

lemma trim_space_id:
  assumes "s \<noteq> []" "\<not> go_space (hd s)" "\<not> go_space (last s)"
  shows "trim_space s = s"
proof -
  have "dropWhile go_space s = s" using assms dropWhile_eq_self_iff by blast
  moreover have "dropWhile go_space (rev s) = rev s"
    using assms dropWhile_eq_self_iff [of go_space "rev s"] by (simp add: hd_rev)
  ultimately show ?thesis by (simp add: trim_space_def)
qed

lemma trim_space_prefix: "prefix (trim_space s) (dropWhile go_space s)"
  unfolding trim_space_def by (metis rev_rev_ident suffix_dropWhile suffix_to_prefix)

lemma trim_space_ends:
  assumes "trim_space s \<noteq> []"
  shows "\<not> go_space (hd (trim_space s)) \<and> \<not> go_space (last (trim_space s))"
proof
  obtain z where z: "dropWhile go_space s = trim_space s @ z"
    using trim_space_prefix [of s] by (auto simp: prefix_def)
  then have "dropWhile go_space s \<noteq> []" using assms by (metis append_is_Nil_conv)
  from hd_dropWhile [OF this] show "\<not> go_space (hd (trim_space s))"
    using z assms by simp
  have "dropWhile go_space (rev (dropWhile go_space s)) \<noteq> []"
    using assms by (metis rev.simps(1) trim_space_def)
  from hd_dropWhile [OF this] show "\<not> go_space (last (trim_space s))"
    unfolding trim_space_def last_rev .
qed

lemma trim_space_idem [simp]: "trim_space (trim_space s) = trim_space s"
  by (cases "trim_space s = []") (auto intro: trim_space_id simp: trim_space_ends)

lemma index_byte_range: "-1 \<le> index_byte s c \<and> index_byte s c < int (length s)"
  by (induction s) (auto simp: Let_def)

lemma index_byte_neg [simp]: "index_byte s c < 0 \<longleftrightarrow> c \<notin> set s"
  by (induction s) (auto simp: Let_def)

lemma index_byte_append: "c \<notin> set p \<Longrightarrow> index_byte (p @ c # s) c = int (length p)"
  by (induction p) (auto simp: Let_def)

section \<open>Tables\<close>

text \<open>Deleting by key from a list whose keys are distinct.\<close>

lemma filter_neq_absent [simp]: "y \<notin> f ` set xs \<Longrightarrow> filter (\<lambda>x. f x \<noteq> y) xs = xs"
  by (auto simp: filter_id_conv)

lemma length_filter_one:
  "distinct (map f xs) \<Longrightarrow> y \<in> f ` set xs \<Longrightarrow> Suc (length (filter (\<lambda>x. f x \<noteq> y) xs)) = length xs"
  by (induction xs) auto

lemma distinct_map_filter_neq: "distinct (map f xs) \<Longrightarrow> distinct (map f (filter P xs))"
  by (simp add: distinct_map inj_on_def)

section \<open>The external world\<close>

text \<open>
  Everything an operation learns from outside the process is a function of the number of
  external calls made so far, which the components' states count: whether the call fails and
  with which driver error, the reading of the clock, the size of a file, whether the context
  has been cancelled (by the rows a loop still has before it as well, since it may look twice
  between two calls). A theorem that quantifies over the world holds for every behaviour of the
  database, the clock and the disk. The remaining fields are what third-party code computes:
  the text of SQLite's \<open>CURRENT_TIMESTAMP\<close> for a clock reading, \<open>time.ParseInLocation\<close> on a
  layout and a text, the driver's error text for a violated UNIQUE, FOREIGN KEY or CHECK
  constraint, and the rounding of a rational to the nearest \<open>float64\<close> (a finite \<open>float64\<close> is
  the rational it denotes; overflow to infinity is not modelled), and whether a commit that reports
  an error has taken effect all the same.
\<close>

datatype stat_result = StatSize int | StatNotExist | StatFails string

record world =
  fault :: "nat \<Rightarrow> string option"
  clk :: "nat \<Rightarrow> gotime"
  file_stat :: "nat \<Rightarrow> string \<Rightarrow> stat_result"
  ctx_err :: "nat \<Rightarrow> nat \<Rightarrow> string option"
  current_timestamp :: "gotime \<Rightarrow> string"
  parse_in_location :: "string \<Rightarrow> string \<Rightarrow> string + gotime"
  unique_err :: string
  foreign_key_err :: string
  check_err :: string
  round64 :: "rat \<Rightarrow> rat"
  commit_lands :: "nat \<Rightarrow> bool"

definition faultless :: "world \<Rightarrow> bool" where
  "faultless w \<longleftrightarrow> (\<forall>n. fault w n = None)"

lemma faultlessD [simp]: "faultless w \<Longrightarrow> fault w n = None"
  by (simp add: faultless_def)

text \<open>
  \<open>rows.Next\<close>/\<open>rows.Scan\<close> over the result of a query, then \<open>rows.Err\<close>. Each call of \<open>Next\<close>
  and of \<open>Scan\<close> may fail: a failing \<open>Next\<close> ends the loop and surfaces at \<open>rows.Err\<close> (stage
  \<open>QRows\<close>) with the rows delivered until then, a failing \<open>Scan\<close> returns at once (\<open>QScan\<close>).
\<close>

datatype query_stage = QSelect | QScan | QRows

type_synonym 'a query_result = "query_stage \<times> string \<times> 'a list + 'a list"

fun scan_rows :: "world \<Rightarrow> 'a list \<Rightarrow> 'a list \<Rightarrow> nat \<Rightarrow> 'a query_result \<times> nat" where
  "scan_rows w got [] n =
     (case fault w n of Some e \<Rightarrow> (Inl (QRows, e, got), Suc n) | None \<Rightarrow> (Inr got, Suc n))"
| "scan_rows w got (x # xs) n =
     (case fault w n of
        Some e \<Rightarrow> (Inl (QRows, e, got), Suc n)
      | None \<Rightarrow> (case fault w (Suc n) of
                   Some e \<Rightarrow> (Inl (QScan, e, got), Suc (Suc n))
                 | None \<Rightarrow> scan_rows w (got @ [x]) xs (Suc (Suc n))))"

definition sql_query :: "world \<Rightarrow> 'a list \<Rightarrow> nat \<Rightarrow> 'a query_result \<times> nat" where
  "sql_query w xs n =
     (case fault w n of
        Some e \<Rightarrow> (Inl (QSelect, e, []), Suc n)
      | None \<Rightarrow> scan_rows w [] xs (Suc n))"

lemma scan_rows_Inr: "scan_rows w got xs n = (Inr ys, n') \<Longrightarrow> ys = got @ xs"
  by (induction w got xs n rule: scan_rows.induct) (auto split: option.splits)

lemma sql_query_Inr [go_simps]: "sql_query w xs n = (Inr ys, n') \<Longrightarrow> ys = xs"
  by (auto simp: sql_query_def dest: scan_rows_Inr split: option.splits)

lemma scan_rows_faultless:
  "faultless w \<Longrightarrow> scan_rows w got xs n = (Inr (got @ xs), Suc n + 2 * length xs)"
  by (induction xs arbitrary: got n) auto

lemma sql_query_faultless [simp]:
  "faultless w \<Longrightarrow> sql_query w xs n = (Inr xs, Suc (Suc n) + 2 * length xs)"
  by (simp add: sql_query_def scan_rows_faultless)

text \<open>\<open>LIMIT ?\<close>: a negative limit is no limit.\<close>

definition sql_limit :: "int \<Rightarrow> 'a list \<Rightarrow> 'a list" where
  "sql_limit n xs = (if n < 0 then xs else take (nat n) xs)"

lemma set_sql_limit: "set (sql_limit n xs) \<subseteq> set xs"
  by (auto simp: sql_limit_def dest: in_set_takeD)

lemma distinct_sql_limit: "distinct xs \<Longrightarrow> distinct (sql_limit n xs)"
  by (simp add: sql_limit_def)

text \<open>The driver reports a violated UNIQUE constraint only in the text of its error, and both
  components recognise it there.\<close>

definition isUniqueViolation :: "string \<Rightarrow> bool" where
  "isUniqueViolation e \<longleftrightarrow> str_contains (to_lower e) ''unique constraint failed''"

section \<open>A sample world\<close>

text \<open>The world the concrete instances of the theorems run in: nothing fails, the clock stands
  still, every file has 100 bytes.\<close>

definition sample_world :: world where
  "sample_world = \<lparr>fault = (\<lambda>_. None), clk = (\<lambda>_. 5000), file_stat = (\<lambda>_ _. StatSize 100),
     ctx_err = (\<lambda>_ _. None), current_timestamp = (\<lambda>_. ''9''),
     parse_in_location = (\<lambda>l s. if s = ''1'' then Inr 4000 else Inr 4990),
     unique_err = ''UNIQUE constraint failed'', foreign_key_err = ''FOREIGN KEY constraint failed'',
     check_err = ''CHECK constraint failed'', round64 = (\<lambda>x. x), commit_lands = (\<lambda>_. False)\<rparr>"

lemma sample_world_sel [simp]:
  "fault sample_world n = None" "clk sample_world n = 5000" "file_stat sample_world n f = StatSize 100"
  "ctx_err sample_world n k = None" "current_timestamp sample_world t = ''9''"
  "parse_in_location sample_world l s = (if s = ''1'' then Inr 4000 else Inr 4990)"
  "unique_err sample_world = ''UNIQUE constraint failed''"
  "foreign_key_err sample_world = ''FOREIGN KEY constraint failed''"
  "check_err sample_world = ''CHECK constraint failed''" "round64 sample_world x = x"
  by (simp_all add: sample_world_def)

lemma sample_world_faultless [simp]: "faultless sample_world"
  by (simp add: faultless_def)

lemma to_lower_simps [simp]: "to_lower [] = []" "to_lower (c # s) = to_lower_char c # to_lower s"
  by (simp_all add: to_lower_def)

lemma sample_unique_err [simp]: "isUniqueViolation ''UNIQUE constraint failed''"
  by code_simp

end
