(* ===== verification/Spool.thy ===== *)
theory Spool
  imports NLM_Prelude
begin

text \<open>
  The agent's write-ahead spool (\<open>internal/spool/spool.go\<close>, \<open>internal/spool/backoff.go\<close> and the
  tables of \<open>internal/spool/migrations\<close>): one row per probe cycle, drained oldest first with an
  exponential backoff per row, bounded by age and by the size of the database files, with a
  persisted count of the dropped rows. A table is the list of its rows in rowid order;
  \<open>ORDER BY enqueued_at\<close> is the stable sort on the column's text, so equal texts keep rowid
  order, which is the order of the index \<open>idx_spool_enqueued\<close>. Timestamps are kept as the
  texts SQLite stores and are read back with \<open>parseSQLiteTime\<close>, as the code does.
\<close>

section \<open>Backoff\<close>

fun backoff_loop :: "nat \<Rightarrow> duration \<Rightarrow> duration \<Rightarrow> duration" where
  "backoff_loop 0 w mx = (if w > mx then mx else w)"
| "backoff_loop (Suc n) w mx =
     (let w' = wrap64 (w * 2) in if w' \<ge> mx \<or> w' \<le> 0 then mx else backoff_loop n w' mx)"

definition Backoff :: "go_int \<Rightarrow> duration \<Rightarrow> duration \<Rightarrow> duration" where
  "Backoff attempts base mx = backoff_loop (nat (if attempts < 0 then 0 else attempts)) base mx"

section \<open>Data\<close>

text \<open>\<open>SendOutcome\<close> is an integer type with three named values.\<close>

type_synonym send_outcome = go_int

definition OutcomeAccepted :: send_outcome where "OutcomeAccepted = 0"
definition OutcomePermanentFail :: send_outcome where "OutcomePermanentFail = 1"
definition OutcomeTransientFail :: send_outcome where "OutcomeTransientFail = 2"

lemmas outcome_defs = OutcomeAccepted_def OutcomePermanentFail_def OutcomeTransientFail_def

text \<open>The \<open>Sender\<close> interface: a call on the network state \<open>'n\<close> with a run id and a payload.\<close>

type_synonym 'n sender = "'n \<Rightarrow> string \<Rightarrow> string \<Rightarrow> (send_outcome \<times> string option) \<times> 'n"

record spool_config =
  DrainRows :: go_int
  MaxAge :: duration
  MaxSize :: go_int
  BackoffBase :: duration
  BackoffMax :: duration

record spool_row =
  row_id :: go_int
  enqueued_at :: string
  probe_run_id :: string
  payload :: string
  attempts :: go_int
  last_attempt_at :: "string option"
  last_error :: "string option"

text \<open>The database: the tables \<open>spool\<close> and \<open>spool_meta\<close>, the next AUTOINCREMENT value, and the
  number of external calls made so far.\<close>

record spool_db =
  sp_rows :: "spool_row list"
  sp_next_id :: go_int
  sp_meta :: "string \<rightharpoonup> go_int"
  sp_calls :: nat

record spool =
  sp_path :: string
  sp_cfg :: spool_config

record drain_snapshot =
  Depth :: go_int
  OldestAgeSecs :: go_int
  DropsTotal :: go_int

record drain_stats =
  Considered :: go_int
  Skipped :: go_int
  Accepted :: go_int
  Permanent :: go_int
  Transient :: go_int
  Dropped :: go_int

datatype spool_error =
    PathRequired
  | ProbeRunIDRequired
  | PayloadRequired
  | ErrDuplicate
  | SpoolErr string string
  | UnknownOutcome go_int
  | PlainErr string

section \<open>External calls\<close>

definition sp_call :: "world \<Rightarrow> spool_db \<Rightarrow> string option \<times> spool_db" where
  "sp_call w db = (fault w (sp_calls db), db\<lparr>sp_calls := Suc (sp_calls db)\<rparr>)"

definition sp_now :: "world \<Rightarrow> spool_db \<Rightarrow> gotime \<times> spool_db" where
  "sp_now w db = (clk w (sp_calls db), db\<lparr>sp_calls := Suc (sp_calls db)\<rparr>)"

definition sp_query :: "world \<Rightarrow> 'a list \<Rightarrow> spool_db \<Rightarrow> 'a query_result \<times> spool_db" where
  "sp_query w xs db =
     (case sql_query w xs (sp_calls db) of (r, n) \<Rightarrow> (r, db\<lparr>sp_calls := n\<rparr>))"

fun parse_layouts :: "world \<Rightarrow> string list \<Rightarrow> string \<Rightarrow> string \<Rightarrow> string + gotime" where
  "parse_layouts w [] s lastErr = Inl lastErr"
| "parse_layouts w (l # ls) s lastErr =
     (case parse_in_location w l s of Inr t \<Rightarrow> Inr t | Inl e \<Rightarrow> parse_layouts w ls s e)"

definition parseSQLiteTime :: "world \<Rightarrow> string \<Rightarrow> string + gotime" where
  "parseSQLiteTime w s =
     parse_layouts w
       [''2006-01-02 15:04:05'',
        ''2006-01-02 15:04:05.999999999'',
        ''2006-01-02T15:04:05.999999999Z07:00'',
        ''2006-01-02T15:04:05Z07:00''] s []"

section \<open>Open and migrations\<close>

text \<open>The tables after \<open>0001_init.up.sql\<close> and \<open>0002_drain_snapshot.up.sql\<close> on an empty file.\<close>

definition spool_init :: spool_db where
  "spool_init = \<lparr>sp_rows = [], sp_next_id = 1,
     sp_meta = [''drops_total'' \<mapsto> 0, ''last_depth'' \<mapsto> 0,
                ''last_oldest_age_secs'' \<mapsto> 0, ''last_drops_total'' \<mapsto> 0],
     sp_calls = 0\<rparr>"

text \<open>\<open>up\<close> stands for \<open>dbmigrate.Up\<close>, which runs the third-party migrator.\<close>

definition Open :: "world \<Rightarrow> (spool_db \<Rightarrow> string option \<times> spool_db) \<Rightarrow> string \<Rightarrow> spool_config \<Rightarrow>
    spool_db \<Rightarrow> (spool_error + spool) \<times> spool_db" where
  "Open w up path cfg db =
     (if path = [] then (Inl PathRequired, db)
      else case sp_call w db of
        (Some e, db1) \<Rightarrow> (Inl (SpoolErr ''spool: open db'' e), db1)
      | (None, db1) \<Rightarrow>
          (case sp_call w db1 of
             (Some e, db2) \<Rightarrow> (Inl (SpoolErr ''spool: ping'' e), db2)
           | (None, db2) \<Rightarrow>
               (case up db2 of
                  (Some e, db3) \<Rightarrow> (Inl (PlainErr e), db3)
                | (None, db3) \<Rightarrow> (Inr \<lparr>sp_path = path, sp_cfg = cfg\<rparr>, db3))))"

section \<open>Queries and updates\<close>

definition new_row :: "go_int \<Rightarrow> string \<Rightarrow> string \<Rightarrow> string \<Rightarrow> spool_row" where
  "new_row i ts run pl =
     \<lparr>row_id = i, enqueued_at = ts, probe_run_id = run, payload = pl, attempts = 0,
      last_attempt_at = None, last_error = None\<rparr>"

definition Enqueue :: "world \<Rightarrow> string \<Rightarrow> string \<Rightarrow> spool_db \<Rightarrow> spool_error option \<times> spool_db" where
  "Enqueue w run pl db =
     (if run = [] then (Some ProbeRunIDRequired, db)
      else if pl = [] then (Some PayloadRequired, db)
      else
        (let (f, db1) = sp_call w db;
             res = (case f of
                      Some e \<Rightarrow> Inl e
                    | None \<Rightarrow> if run \<in> probe_run_id ` set (sp_rows db1) then Inl (unique_err w)
                              else Inr (db1\<lparr>sp_rows := sp_rows db1 @
                                               [new_row (sp_next_id db1)
                                                  (current_timestamp w (clk w (sp_calls db))) run pl],
                                            sp_next_id := sp_next_id db1 + 1\<rparr>))
         in case res of
              Inl e \<Rightarrow> (if isUniqueViolation e then (Some ErrDuplicate, db1)
                        else (Some (SpoolErr ''spool: enqueue'' e), db1))
            | Inr db2 \<Rightarrow> (None, db2)))"

definition spool_Depth :: "world \<Rightarrow> spool_db \<Rightarrow> (spool_error + go_int) \<times> spool_db" where
  "spool_Depth w db =
     (case sp_call w db of
        (Some e, db1) \<Rightarrow> (Inl (SpoolErr ''spool: depth'' e), db1)
      | (None, db1) \<Rightarrow> (Inr (int (length (sp_rows db1))), db1))"

text \<open>\<open>SELECT MIN(enqueued_at)\<close>: NULL on the empty table.\<close>

definition min_enqueued :: "spool_row list \<Rightarrow> string option" where
  "min_enqueued rs = (case sort_key enqueued_at rs of [] \<Rightarrow> None | r # _ \<Rightarrow> Some (enqueued_at r))"

definition OldestAge :: "world \<Rightarrow> spool_db \<Rightarrow> (spool_error + duration) \<times> spool_db" where
  "OldestAge w db =
     (case sp_call w db of
        (Some e, db1) \<Rightarrow> (Inl (SpoolErr ''spool: oldest age'' e), db1)
      | (None, db1) \<Rightarrow>
          (case min_enqueued (sp_rows db1) of
             None \<Rightarrow> (Inr 0, db1)
           | Some ts \<Rightarrow>
               (case parseSQLiteTime w ts of
                  Inl e \<Rightarrow> (Inl (SpoolErr ''spool: parse oldest'' e), db1)
                | Inr t \<Rightarrow> (case sp_now w db1 of (now, db2) \<Rightarrow> (Inr (time_sub now t), db2)))))"

fun snap_field :: "string \<times> go_int \<Rightarrow> drain_snapshot \<Rightarrow> drain_snapshot" where
  "snap_field (k, v) snap =
     (if k = ''last_depth'' then snap\<lparr>Depth := v\<rparr>
      else if k = ''last_oldest_age_secs'' then snap\<lparr>OldestAgeSecs := v\<rparr>
      else if k = ''last_drops_total'' then snap\<lparr>DropsTotal := v\<rparr>
      else snap)"

definition snap_rows :: "spool_db \<Rightarrow> (string \<times> go_int) list" where
  "snap_rows db =
     List.map_filter (\<lambda>k. map_option (Pair k) (sp_meta db k))
       [''last_depth'', ''last_drops_total'', ''last_oldest_age_secs'']"

definition zero_snapshot :: drain_snapshot where
  "zero_snapshot = \<lparr>Depth = 0, OldestAgeSecs = 0, DropsTotal = 0\<rparr>"

definition LastDrainSnapshot :: "world \<Rightarrow> spool_db \<Rightarrow> (drain_snapshot \<times> spool_error option) \<times> spool_db" where
  "LastDrainSnapshot w db =
     (case sp_query w (snap_rows db) db of
        (Inl (QSelect, e, _), db1) \<Rightarrow> ((zero_snapshot, Some (SpoolErr ''spool: last drain snapshot'' e)), db1)
      | (Inl (QScan, e, _), db1) \<Rightarrow> ((zero_snapshot, Some (SpoolErr ''spool: last drain snapshot scan'' e)), db1)
      | (Inl (QRows, e, kvs), db1) \<Rightarrow> ((fold snap_field kvs zero_snapshot, Some (PlainErr e)), db1)
      | (Inr kvs, db1) \<Rightarrow> ((fold snap_field kvs zero_snapshot, None), db1))"

text \<open>\<open>UPDATE spool_meta SET value = v WHERE key = k\<close>: no row is created.\<close>

definition meta_update :: "string \<Rightarrow> (go_int \<Rightarrow> go_int) \<Rightarrow> spool_db \<Rightarrow> spool_db" where
  "meta_update k f db =
     (case sp_meta db k of None \<Rightarrow> db | Some v \<Rightarrow> db\<lparr>sp_meta := (sp_meta db)(k \<mapsto> f v)\<rparr>)"

definition SaveDrainSnapshot :: "world \<Rightarrow> go_int \<Rightarrow> go_int \<Rightarrow> go_int \<Rightarrow> spool_db \<Rightarrow>
    spool_error option \<times> spool_db" where
  "SaveDrainSnapshot w depth oldest drops db =
     (case sp_call w db of
        (Some e, db1) \<Rightarrow> (Some (SpoolErr ''spool: save snapshot depth'' e), db1)
      | (None, db1) \<Rightarrow>
          (case sp_call w (meta_update ''last_depth'' (\<lambda>_. depth) db1) of
             (Some e, db2) \<Rightarrow> (Some (SpoolErr ''spool: save snapshot oldest'' e), db2)
           | (None, db2) \<Rightarrow>
               (case sp_call w (meta_update ''last_oldest_age_secs'' (\<lambda>_. oldest) db2) of
                  (Some e, db3) \<Rightarrow> (Some (SpoolErr ''spool: save snapshot drops'' e), db3)
                | (None, db3) \<Rightarrow> (None, meta_update ''last_drops_total'' (\<lambda>_. drops) db3))))"

definition spool_DropsTotal :: "world \<Rightarrow> spool_db \<Rightarrow> (spool_error + go_int) \<times> spool_db" where
  "spool_DropsTotal w db =
     (case sp_call w db of
        (Some e, db1) \<Rightarrow> (Inl (SpoolErr ''spool: drops_total'' e), db1)
      | (None, db1) \<Rightarrow>
          (case sp_meta db1 ''drops_total'' of
             None \<Rightarrow> (Inl (SpoolErr ''spool: drops_total'' ''sql: no rows in result set''), db1)
           | Some v \<Rightarrow> (Inr v, db1)))"

fun footprint_loop :: "world \<Rightarrow> string \<Rightarrow> string list \<Rightarrow> go_int \<Rightarrow> spool_db \<Rightarrow>
    (spool_error + go_int) \<times> spool_db" where
  "footprint_loop w path [] tot db = (Inr tot, db)"
| "footprint_loop w path (suf # sufs) tot db =
     (let db1 = db\<lparr>sp_calls := Suc (sp_calls db)\<rparr> in
      case file_stat w (sp_calls db) (path @ suf) of
        StatNotExist \<Rightarrow> footprint_loop w path sufs tot db1
      | StatFails e \<Rightarrow> (Inl (SpoolErr (''spool: stat '' @ path @ suf) e), db1)
      | StatSize sz \<Rightarrow> footprint_loop w path sufs (wrap64 (tot + sz)) db1)"

definition FootprintBytes :: "world \<Rightarrow> spool \<Rightarrow> spool_db \<Rightarrow> (spool_error + go_int) \<times> spool_db" where
  "FootprintBytes w s db = footprint_loop w (sp_path s) ['''', ''-wal'', ''-shm''] 0 db"

section \<open>Drain\<close>

text \<open>\<open>SELECT ... FROM spool ORDER BY enqueued_at ASC LIMIT DrainRows\<close>.\<close>

definition drain_batch :: "spool_config \<Rightarrow> spool_row list \<Rightarrow> spool_row list" where
  "drain_batch cfg rs = sql_limit (DrainRows cfg) (sort_key enqueued_at rs)"

definition delete_row :: "go_int \<Rightarrow> spool_db \<Rightarrow> spool_db" where
  "delete_row i db = db\<lparr>sp_rows := filter (\<lambda>r. row_id r \<noteq> i) (sp_rows db)\<rparr>"

definition mark_row :: "string \<Rightarrow> string \<Rightarrow> spool_row \<Rightarrow> spool_row" where
  "mark_row ts msg r =
     r\<lparr>attempts := attempts r + 1, last_attempt_at := Some ts, last_error := Some msg\<rparr>"

definition mark_if :: "go_int \<Rightarrow> string \<Rightarrow> string \<Rightarrow> spool_row \<Rightarrow> spool_row" where
  "mark_if i ts msg r = (if row_id r = i then mark_row ts msg r else r)"

definition markFailure :: "world \<Rightarrow> go_int \<Rightarrow> string option \<Rightarrow> spool_db \<Rightarrow> spool_error option \<times> spool_db" where
  "markFailure w i sendErr db =
     (let msg = (case sendErr of None \<Rightarrow> [] | Some e \<Rightarrow> e) in
      case sp_call w db of
        (Some e, db1) \<Rightarrow> (Some (SpoolErr ''spool: mark failure'' e), db1)
      | (None, db1) \<Rightarrow>
          (None, db1\<lparr>sp_rows := map (mark_if i (current_timestamp w (clk w (sp_calls db))) msg)
                                   (sp_rows db1)\<rparr>))"

text \<open>Whether the backoff window of a fetched row is still open at \<open>now\<close>.\<close>

definition row_waiting :: "world \<Rightarrow> spool_config \<Rightarrow> gotime \<Rightarrow> spool_row \<Rightarrow> spool_error + bool" where
  "row_waiting w cfg now c =
     (case last_attempt_at c of
        None \<Rightarrow> Inr False
      | Some ts \<Rightarrow>
          (case parseSQLiteTime w ts of
             Inl e \<Rightarrow> Inl (SpoolErr ''spool: parse last_attempt_at'' e)
           | Inr lst \<Rightarrow>
               Inr (time_after
                      (time_add lst (Backoff (attempts c) (BackoffBase cfg) (BackoffMax cfg))) now)))"

text \<open>One send and what its outcome does to the spool and to the statistics.\<close>

definition drain_send :: "world \<Rightarrow> 'n sender \<Rightarrow> spool_row \<Rightarrow> drain_stats \<Rightarrow> spool_db \<Rightarrow> 'n \<Rightarrow>
    (drain_stats \<times> spool_error option) \<times> spool_db \<times> 'n" where
  "drain_send w send c stats db net =
     (case send net (probe_run_id c) (payload c) of ((outcome, sendErr), net1) \<Rightarrow>
       (let db1 = db\<lparr>sp_calls := Suc (sp_calls db)\<rparr> in
        if outcome = OutcomeAccepted then
          (case sp_call w db1 of
             (Some e, db2) \<Rightarrow> ((stats, Some (SpoolErr ''spool: drain delete'' e)), db2, net1)
           | (None, db2) \<Rightarrow> ((stats\<lparr>Accepted := Accepted stats + 1\<rparr>, None), delete_row (row_id c) db2, net1))
        else if outcome = OutcomePermanentFail then
          (case markFailure w (row_id c) sendErr db1 of
             (Some e, db2) \<Rightarrow> ((stats, Some e), db2, net1)
           | (None, db2) \<Rightarrow> ((stats\<lparr>Permanent := Permanent stats + 1\<rparr>, None), db2, net1))
        else if outcome = OutcomeTransientFail then
          (case markFailure w (row_id c) sendErr db1 of
             (Some e, db2) \<Rightarrow> ((stats, Some e), db2, net1)
           | (None, db2) \<Rightarrow> ((stats\<lparr>Transient := Transient stats + 1\<rparr>, None), db2, net1))
        else ((stats, Some (UnknownOutcome outcome)), db1, net1)))"

fun drain_loop :: "world \<Rightarrow> spool_config \<Rightarrow> 'n sender \<Rightarrow> gotime \<Rightarrow> spool_row list \<Rightarrow> drain_stats \<Rightarrow>
    spool_db \<Rightarrow> 'n \<Rightarrow> (drain_stats \<times> spool_error option) \<times> spool_db \<times> 'n" where
  "drain_loop w cfg send now [] stats db net = ((stats, None), db, net)"
| "drain_loop w cfg send now (c # cs) stats db net =
     (case ctx_err w (sp_calls db) (length cs) of
        Some e \<Rightarrow> ((stats, Some (PlainErr e)), db, net)
      | None \<Rightarrow>
          (case row_waiting w cfg now c of
             Inl e \<Rightarrow> ((stats, Some e), db, net)
           | Inr True \<Rightarrow> drain_loop w cfg send now cs (stats\<lparr>Skipped := Skipped stats + 1\<rparr>) db net
           | Inr False \<Rightarrow>
               (case drain_send w send c stats db net of
                  ((stats1, Some e), db1, net1) \<Rightarrow> ((stats1, Some e), db1, net1)
                | ((stats1, None), db1, net1) \<Rightarrow> drain_loop w cfg send now cs stats1 db1 net1)))"

section \<open>Retention\<close>

definition count_rows :: "world \<Rightarrow> spool_db \<Rightarrow> (spool_error + go_int) \<times> spool_db" where
  "count_rows w db =
     (case sp_call w db of
        (Some e, db1) \<Rightarrow> (Inl (SpoolErr ''spool: retention depth'' e), db1)
      | (None, db1) \<Rightarrow> (Inr (int (length (sp_rows db1))), db1))"

text \<open>\<open>DELETE ... WHERE id = (SELECT id FROM spool ORDER BY enqueued_at ASC LIMIT 1)\<close> and the
  number of affected rows.\<close>

definition delete_oldest :: "world \<Rightarrow> spool_db \<Rightarrow> (spool_error + go_int) \<times> spool_db" where
  "delete_oldest w db =
     (case sp_call w db of
        (Some e, db1) \<Rightarrow> (Inl (SpoolErr ''spool: retention delete'' e), db1)
      | (None, db1) \<Rightarrow>
          (let db2 = (case sort_key enqueued_at (sp_rows db1) of
                        [] \<Rightarrow> db1 | r # _ \<Rightarrow> delete_row (row_id r) db1);
               n = int (length (sp_rows db1)) - int (length (sp_rows db2))
           in case sp_call w db2 of
                (Some e, db3) \<Rightarrow> (Inl (SpoolErr ''spool: retention rows affected'' e), db3)
              | (None, db3) \<Rightarrow> (Inr n, db3)))"

definition bump_drops :: "world \<Rightarrow> spool_db \<Rightarrow> spool_error option \<times> spool_db" where
  "bump_drops w db =
     (case sp_call w db of
        (Some e, db1) \<Rightarrow> (Some (SpoolErr ''spool: retention bump drops'' e), db1)
      | (None, db1) \<Rightarrow> (None, meta_update ''drops_total'' (\<lambda>v. v + 1) db1))"

text \<open>One pass of the measurements at the head of the retention loop: footprint, age, depth.\<close>

definition measure_bounds :: "world \<Rightarrow> spool \<Rightarrow> spool_db \<Rightarrow>
    (spool_error + go_int \<times> duration \<times> go_int) \<times> spool_db" where
  "measure_bounds w s db =
     (case FootprintBytes w s db of
        (Inl e, db1) \<Rightarrow> (Inl e, db1)
      | (Inr sz, db1) \<Rightarrow>
          (case OldestAge w db1 of
             (Inl e, db2) \<Rightarrow> (Inl e, db2)
           | (Inr age, db2) \<Rightarrow>
               (case count_rows w db2 of
                  (Inl e, db3) \<Rightarrow> (Inl e, db3)
                | (Inr depth, db3) \<Rightarrow> (Inr (sz, age, depth), db3))))"

text \<open>What the measurements and the updates leave alone, and that a delete that affects a row
  shortens the table: with these the retention loop terminates.\<close>

named_theorems spool_frame \<open>which parts of the spool an operation leaves unchanged\<close>

definition same_tables :: "spool_db \<Rightarrow> spool_db \<Rightarrow> bool" where
  "same_tables db db' \<longleftrightarrow>
     sp_rows db' = sp_rows db \<and> sp_meta db' = sp_meta db \<and> sp_next_id db' = sp_next_id db"

lemma same_tables_refl [simp]: "same_tables db db"
  by (simp add: same_tables_def)

lemma same_tables_calls [simp]:
  "same_tables db (db'\<lparr>sp_calls := n\<rparr>) = same_tables db db'"
  "same_tables (db\<lparr>sp_calls := n\<rparr>) db' = same_tables db db'"
  by (simp_all add: same_tables_def)

lemma same_tables_trans: "same_tables a b \<Longrightarrow> same_tables b c \<Longrightarrow> same_tables a c"
  by (simp add: same_tables_def)

lemma sp_call_frame [spool_frame]: "sp_call w db = (f, db') \<Longrightarrow> same_tables db db'"
  by (auto simp: sp_call_def)

lemma sp_now_frame [spool_frame]: "sp_now w db = (t, db') \<Longrightarrow> same_tables db db'"
  by (auto simp: sp_now_def)

lemma sp_query_frame [spool_frame]: "sp_query w xs db = (r, db') \<Longrightarrow> same_tables db db'"
  by (auto simp: sp_query_def split: prod.splits)

lemma footprint_loop_frame:
  "footprint_loop w path sufs tot db = (r, db') \<Longrightarrow> same_tables db db'"
  by (induction w path sufs tot db rule: footprint_loop.induct)
     (auto simp: Let_def split: stat_result.splits)

lemma FootprintBytes_frame [spool_frame]: "FootprintBytes w s db = (r, db') \<Longrightarrow> same_tables db db'"
  unfolding FootprintBytes_def by (rule footprint_loop_frame)

lemma spool_Depth_frame [spool_frame]: "spool_Depth w db = (r, db') \<Longrightarrow> same_tables db db'"
  by (auto simp: spool_Depth_def sp_call_def split: option.splits)

lemma OldestAge_frame [spool_frame]: "OldestAge w db = (r, db') \<Longrightarrow> same_tables db db'"
  by (auto simp: OldestAge_def sp_call_def sp_now_def split: option.splits sum.splits)

lemma LastDrainSnapshot_frame [spool_frame]: "LastDrainSnapshot w db = (r, db') \<Longrightarrow> same_tables db db'"
  by (auto simp: LastDrainSnapshot_def dest!: sp_query_frame
           split: prod.splits sum.splits query_stage.splits)

lemma spool_DropsTotal_frame [spool_frame]: "spool_DropsTotal w db = (r, db') \<Longrightarrow> same_tables db db'"
  by (auto simp: spool_DropsTotal_def sp_call_def split: option.splits)

lemma count_rows_frame [spool_frame]: "count_rows w db = (r, db') \<Longrightarrow> same_tables db db'"
  by (auto simp: count_rows_def sp_call_def split: option.splits)

lemma measure_bounds_frame [spool_frame]: "measure_bounds w s db = (r, db') \<Longrightarrow> same_tables db db'"
  unfolding measure_bounds_def
  by (auto split: prod.splits sum.splits dest!: FootprintBytes_frame OldestAge_frame count_rows_frame
           intro: same_tables_trans)

lemma meta_update_rows [simp]: "sp_rows (meta_update k f db) = sp_rows db"
  and meta_update_next_id [simp]: "sp_next_id (meta_update k f db) = sp_next_id db"
  by (simp_all add: meta_update_def split: option.splits)

lemma bump_drops_rows [spool_frame]:
  "bump_drops w db = (r, db') \<Longrightarrow> sp_rows db' = sp_rows db \<and> sp_next_id db' = sp_next_id db"
  by (auto simp: bump_drops_def sp_call_def split: option.splits)

lemma delete_oldest_rows:
  assumes "delete_oldest w db = (Inr n, db')"
  shows "n = int (length (sp_rows db)) - int (length (sp_rows db')) \<and> 0 \<le> n"
  using assms
  by (auto simp: delete_oldest_def delete_row_def sp_call_def Let_def split: option.splits list.splits)

function enforceRetention :: "world \<Rightarrow> spool \<Rightarrow> go_int \<Rightarrow> spool_db \<Rightarrow>
    (go_int \<times> spool_error option) \<times> spool_db" where
  "enforceRetention w s dropped db =
     (case measure_bounds w s db of
        (Inl e, db1) \<Rightarrow> ((dropped, Some e), db1)
      | (Inr (sz, age, depth), db1) \<Rightarrow>
          if depth = 0 then ((dropped, None), db1)
          else if sz \<le> MaxSize (sp_cfg s) \<and> age \<le> MaxAge (sp_cfg s) then ((dropped, None), db1)
          else
            (case delete_oldest w db1 of
               (Inl e, db2) \<Rightarrow> ((dropped, Some e), db2)
             | (Inr n, db2) \<Rightarrow>
                 if n = 0 then ((dropped, None), db2)
                 else
                   (case bump_drops w db2 of
                      (Some e, db3) \<Rightarrow> ((dropped, Some e), db3)
                    | (None, db3) \<Rightarrow> enforceRetention w s (dropped + 1) db3)))"
  by pat_completeness auto
termination
proof (relation "measure (\<lambda>(w, s, d, db). length (sp_rows db))", goal_cases)
  case 1
  show ?case by simp
next
  case 2
  then show ?case
    by (auto dest!: measure_bounds_frame [OF sym] delete_oldest_rows [OF sym] bump_drops_rows [OF sym]
             simp: same_tables_def)
qed

declare enforceRetention.simps [simp del]

definition zero_stats :: drain_stats where
  "zero_stats = \<lparr>Considered = 0, Skipped = 0, Accepted = 0, Permanent = 0, Transient = 0, Dropped = 0\<rparr>"

definition Drain :: "world \<Rightarrow> spool \<Rightarrow> 'n sender \<Rightarrow> spool_db \<Rightarrow> 'n \<Rightarrow>
    (drain_stats \<times> spool_error option) \<times> spool_db \<times> 'n" where
  "Drain w s send db net =
     (case sp_query w (drain_batch (sp_cfg s) (sp_rows db)) db of
        (Inl (QSelect, e, _), db1) \<Rightarrow> ((zero_stats, Some (SpoolErr ''spool: drain select'' e)), db1, net)
      | (Inl (QScan, e, _), db1) \<Rightarrow> ((zero_stats, Some (SpoolErr ''spool: drain scan'' e)), db1, net)
      | (Inl (QRows, e, _), db1) \<Rightarrow> ((zero_stats, Some (SpoolErr ''spool: drain rows'' e)), db1, net)
      | (Inr batch, db1) \<Rightarrow>
          (let stats = zero_stats\<lparr>Considered := int (length batch)\<rparr>; (now, db2) = sp_now w db1 in
           case drain_loop w (sp_cfg s) send now batch stats db2 net of
             ((stats1, Some e), db3, net1) \<Rightarrow> ((stats1, Some e), db3, net1)
           | ((stats1, None), db3, net1) \<Rightarrow>
               (case enforceRetention w s 0 db3 of
                  ((dropped, Some e), db4) \<Rightarrow> ((stats1, Some e), db4, net1)
                | ((dropped, None), db4) \<Rightarrow> ((stats1\<lparr>Dropped := dropped\<rparr>, None), db4, net1))))"

end
