(* ===== verification/Spool_Props.thy ===== *)
theory Spool_Props
  imports Spool
begin

text \<open>
  What the spool guarantees: the backoff formula, the table invariant, that no row leaves the
  spool unless the controller accepted it or the retention counter counts it, that a drain
  sends the due rows in the order they were enqueued, and that retention removes the oldest
  rows and stops inside its bounds.
\<close>

section \<open>Backoff\<close>

lemma backoff_loop_closed:
  assumes "0 < w" "w < 2 ^ 63" "mx < 2 ^ 63"
  shows "backoff_loop n w mx = min (2 ^ n * w) mx"
  using assms
proof (induction n arbitrary: w)
  case 0
  then show ?case by simp
next
  case (Suc n)
  have ge: "w * 2 \<le> 2 ^ Suc n * w"
    using mult_right_mono [of "1::int" "2 ^ n" "w * 2"] Suc.prems by (simp add: algebra_simps)
  show ?case
  proof (cases "w * 2 < 2 ^ 63")
    case True
    then have "wrap64 (w * 2) = w * 2"
      using Suc.prems by (simp add: int64_def)
    moreover have "backoff_loop n (w * 2) mx = min (2 ^ Suc n * w) mx"
      using Suc.IH [of "w * 2"] True Suc.prems by (simp add: algebra_simps)
    moreover have "min (2 ^ Suc n * w) mx = mx" if "mx \<le> w * 2"
      using that ge by (intro min_absorb2) (rule order_trans)
    ultimately show ?thesis
      using Suc.prems by (auto simp: Let_def simp del: power_Suc)
  next
    case False
    then have "wrap64 (w * 2) < 0" by (intro wrap64_double_overflow) (use Suc.prems in auto)
    moreover have "min (2 ^ Suc n * w) mx = mx"
      using False ge Suc.prems by (intro min_absorb2) linarith
    ultimately show ?thesis using Suc.prems by (auto simp: Let_def simp del: power_Suc)
  qed
qed

text \<open>C10: for every attempt count and every positive base, \<open>Backoff\<close> is
  \<open>min (2^attempts * base) max\<close> computed without bound: the doubling loop's early exits make up
  exactly for the 64-bit overflow of the product.\<close>

theorem Backoff_formula:
  assumes "0 < base" "int64 base" "int64 mx"
  shows "Backoff a base mx = min (2 ^ nat a * base) mx"
proof -
  have "nat (if a < 0 then 0 else a) = nat a" by simp
  then show ?thesis
    using assms unfolding Backoff_def int64_def
    by (simp only: backoff_loop_closed)
qed

theorem Backoff_formula_witness:
  "0 < 30 * second \<and> Backoff 3 (30 * second) (3600 * second) = 240 * second
   \<and> Backoff 200 (30 * second) (3600 * second) = 3600 * second"
  using Backoff_formula [of "30 * second" "3600 * second" 3]
    Backoff_formula [of "30 * second" "3600 * second" 200]
  by (simp add: int64_def second_def min_def)

section \<open>The table invariant\<close>

definition spool_inv :: "spool_db \<Rightarrow> bool" where
  "spool_inv db \<longleftrightarrow>
     distinct (map row_id (sp_rows db)) \<and> distinct (map probe_run_id (sp_rows db)) \<and>
     (\<forall>r \<in> set (sp_rows db). row_id r < sp_next_id db \<and> 0 \<le> attempts r \<and>
        probe_run_id r \<noteq> [] \<and> payload r \<noteq> []) \<and>
     (\<exists>d \<ge> 0. sp_meta db ''drops_total'' = Some d) \<and>
     sp_meta db ''last_depth'' \<noteq> None \<and> sp_meta db ''last_oldest_age_secs'' \<noteq> None \<and>
     sp_meta db ''last_drops_total'' \<noteq> None"

definition drops :: "spool_db \<Rightarrow> go_int" where
  "drops db = (case sp_meta db ''drops_total'' of None \<Rightarrow> 0 | Some d \<Rightarrow> d)"

lemma spool_inv_same: "same_tables db db' \<Longrightarrow> spool_inv db' = spool_inv db"
  by (simp add: same_tables_def spool_inv_def)

lemma drops_same: "same_tables db db' \<Longrightarrow> drops db' = drops db"
  by (simp add: same_tables_def drops_def)

lemma spool_inv_calls [simp]: "spool_inv (db\<lparr>sp_calls := n\<rparr>) = spool_inv db"
  by (simp add: spool_inv_def)

lemma spool_inv_init [simp]: "spool_inv spool_init"
  by (simp add: spool_inv_def spool_init_def)

lemma spool_inv_meta_update:
  assumes "spool_inv db" "\<And>v. 0 \<le> v \<Longrightarrow> k = ''drops_total'' \<Longrightarrow> 0 \<le> f v"
  shows "spool_inv (meta_update k f db)"
  using assms by (auto simp: spool_inv_def meta_update_def split: option.splits)

lemma spool_inv_Enqueue:
  assumes "spool_inv db" "Enqueue w run pl db = (r, db')"
  shows "spool_inv db'"
  using assms
  by (fastforce simp: Enqueue_def sp_call_def spool_inv_def new_row_def Let_def
           split: if_splits option.splits)

lemma spool_inv_delete_row: "spool_inv db \<Longrightarrow> spool_inv (delete_row i db)"
  by (auto simp: spool_inv_def delete_row_def distinct_map_filter_neq)

lemma mark_row_fields [simp]:
  "row_id (mark_row ts m r) = row_id r" "probe_run_id (mark_row ts m r) = probe_run_id r"
  "payload (mark_row ts m r) = payload r" "attempts (mark_row ts m r) = attempts r + 1"
  "enqueued_at (mark_row ts m r) = enqueued_at r"
  by (simp_all add: mark_row_def)

lemma mark_if_fields [simp]:
  "row_id (mark_if i ts m r) = row_id r" "probe_run_id (mark_if i ts m r) = probe_run_id r"
  "payload (mark_if i ts m r) = payload r" "enqueued_at (mark_if i ts m r) = enqueued_at r"
  by (simp_all add: mark_if_def)

lemma attempts_mark_if [simp]:
  "attempts (mark_if i ts m r) = attempts r + (if row_id r = i then 1 else 0)"
  by (simp add: mark_if_def)

lemma map_mark_if [simp]:
  "map row_id (map (mark_if i ts m) rs) = map row_id rs"
  "map probe_run_id (map (mark_if i ts m) rs) = map probe_run_id rs"
  by (simp_all add: comp_def)

lemma markFailure_cases:
  assumes "markFailure w i e db = (r, db')"
  obtains (fails) x where "r = Some x" "same_tables db db'"
  | (marks) "r = None" "sp_meta db' = sp_meta db" "sp_next_id db' = sp_next_id db"
      "sp_rows db' = map (mark_if i (current_timestamp w (clk w (sp_calls db)))
                            (case e of None \<Rightarrow> [] | Some m \<Rightarrow> m)) (sp_rows db)"
  using assms
  by (auto simp: markFailure_def sp_call_def Let_def split: option.splits)

lemma spool_inv_marked:
  assumes "spool_inv db" "sp_rows db' = map (mark_if i ts m) (sp_rows db)"
    "sp_meta db' = sp_meta db" "sp_next_id db' = sp_next_id db"
  shows "spool_inv db'"
  using assms by (auto simp: spool_inv_def comp_def)

section \<open>One send\<close>

text \<open>The part of a row no drain changes.\<close>

definition sp_key :: "spool_row \<Rightarrow> go_int \<times> string \<times> string \<times> string" where
  "sp_key r = (row_id r, enqueued_at r, probe_run_id r, payload r)"

abbreviation sp_keys :: "spool_db \<Rightarrow> (go_int \<times> string \<times> string \<times> string) list" where
  "sp_keys db \<equiv> map sp_key (sp_rows db)"

lemma sp_key_mark_if [simp]: "sp_key (mark_if i ts m r) = sp_key r"
  by (simp add: sp_key_def)

lemma sp_keys_mark_if [simp]: "map sp_key (map (mark_if i ts m) rs) = map sp_key rs"
  by simp

lemma sp_key_eqD: "sp_key r = sp_key c \<Longrightarrow> row_id r = row_id c \<and> probe_run_id r = probe_run_id c"
  by (simp add: sp_key_def)

lemma spool_inv_id_key:
  assumes "spool_inv db" "r \<in> set (sp_rows db)" "sp_key c \<in> set (sp_keys db)"
  shows "row_id r = row_id c \<longleftrightarrow> sp_key r = sp_key c"
    and "probe_run_id r = probe_run_id c \<longleftrightarrow> sp_key r = sp_key c"
proof -
  obtain r' where r': "r' \<in> set (sp_rows db)" "sp_key c = sp_key r'" using assms(3) by auto
  have "r = r'" if "row_id r = row_id r' \<or> probe_run_id r = probe_run_id r'"
    using that assms(1,2) r'(1) by (auto simp: spool_inv_def distinct_map inj_on_def)
  then show "row_id r = row_id c \<longleftrightarrow> sp_key r = sp_key c"
    and "probe_run_id r = probe_run_id c \<longleftrightarrow> sp_key r = sp_key c"
    using r'(2) by (auto simp: sp_key_def)
qed

lemma drain_send_cases:
  assumes "drain_send w send c st db net = ((st', err), db', net')"
  obtains (fails) x out where "err = Some x" "st' = st" "same_tables db db'"
      "send net (probe_run_id c) (payload c) = (out, net')"
  | (accepted) e where "err = None" "st' = st\<lparr>Accepted := Accepted st + 1\<rparr>"
      "send net (probe_run_id c) (payload c) = ((OutcomeAccepted, e), net')"
      "sp_rows db' = filter (\<lambda>r. row_id r \<noteq> row_id c) (sp_rows db)"
      "sp_meta db' = sp_meta db" "sp_next_id db' = sp_next_id db"
  | (failed) out e ts m where "err = None"
      "st' = st\<lparr>Permanent := Permanent st + 1\<rparr> \<and> out = OutcomePermanentFail \<or>
       st' = st\<lparr>Transient := Transient st + 1\<rparr> \<and> out = OutcomeTransientFail"
      "send net (probe_run_id c) (payload c) = ((out, e), net')"
      "sp_rows db' = map (mark_if (row_id c) ts m) (sp_rows db)"
      "sp_meta db' = sp_meta db" "sp_next_id db' = sp_next_id db"
proof -
  obtain out e where snd: "send net (probe_run_id c) (payload c) = ((out, e), net')"
    using assms by (auto simp: drain_send_def Let_def split: prod.splits option.splits if_splits)
  let ?db1 = "db\<lparr>sp_calls := Suc (sp_calls db)\<rparr>"
  consider (a) "out = OutcomeAccepted"
    | (p) "out = OutcomePermanentFail" | (t) "out = OutcomeTransientFail"
    | (u) "out \<noteq> OutcomeAccepted" "out \<noteq> OutcomePermanentFail" "out \<noteq> OutcomeTransientFail" by blast
  then show thesis
  proof cases
    case a
    then show thesis
      using assms snd fails accepted
      by (auto simp: drain_send_def sp_call_def delete_row_def Let_def split: option.splits)
  next
    case p
    obtain r db2 where m: "markFailure w (row_id c) e ?db1 = (r, db2)" by fastforce
    have ne: "OutcomePermanentFail \<noteq> OutcomeAccepted" by (simp add: outcome_defs)
    from m show thesis
    proof (cases rule: markFailure_cases)
      case (fails x)
      then show thesis using assms snd p m ne by (intro that(1)) (auto simp: drain_send_def Let_def)
    next
      case marks
      then show thesis using assms snd p m ne by (intro that(3)) (auto simp: drain_send_def Let_def)
    qed
  next
    case t
    obtain r db2 where m: "markFailure w (row_id c) e ?db1 = (r, db2)" by fastforce
    have ne: "OutcomeTransientFail \<noteq> OutcomeAccepted" "OutcomeTransientFail \<noteq> OutcomePermanentFail"
      by (simp_all add: outcome_defs)
    from m show thesis
    proof (cases rule: markFailure_cases)
      case (fails x)
      then show thesis using assms snd t m ne by (intro that(1)) (auto simp: drain_send_def Let_def)
    next
      case marks
      then show thesis using assms snd t m ne by (intro that(3)) (auto simp: drain_send_def Let_def)
    qed
  next
    case u
    then show thesis using assms snd fails by (auto simp: drain_send_def Let_def)
  qed
qed

lemma spool_inv_drain_send:
  assumes "spool_inv db" "drain_send w send c st db net = ((st', err), db', net')"
  shows "spool_inv db'"
  using assms(2)
proof (cases rule: drain_send_cases)
  case fails
  then show ?thesis using assms(1) spool_inv_same by blast
next
  case accepted
  then show ?thesis using spool_inv_delete_row [OF assms(1), of "row_id c"]
    by (simp add: spool_inv_def delete_row_def)
next
  case failed
  then show ?thesis using spool_inv_marked [OF assms(1)] by blast
qed

lemma spool_inv_drain_loop:
  "spool_inv db \<Longrightarrow> drain_loop w cfg send now cs st db net = ((st', err), db', net') \<Longrightarrow> spool_inv db'"
  by (induction w cfg send now cs st db net rule: drain_loop.induct)
     (auto split: option.splits sum.splits bool.splits prod.splits dest: spool_inv_drain_send)

lemma drain_send_meta:
  assumes "drain_send w send c st db net = ((st', err), db', net')"
  shows "sp_meta db' = sp_meta db"
  using assms by (cases rule: drain_send_cases) (simp_all add: same_tables_def)

lemma drain_loop_meta:
  "drain_loop w cfg send now cs st db net = ((st', err), db', net') \<Longrightarrow> sp_meta db' = sp_meta db"
  by (induction w cfg send now cs st db net rule: drain_loop.induct)
     (auto split: option.splits sum.splits bool.splits prod.splits dest: drain_send_meta)

section \<open>The drain loop\<close>

text \<open>A sender that also records, in order, each run id it sent and the outcome.\<close>

definition logged :: "'n sender \<Rightarrow> ('n \<times> (string \<times> send_outcome) list) sender" where
  "logged send = (\<lambda>(net, lg) run pl.
     case send net run pl of (out, net') \<Rightarrow> (out, (net', lg @ [(run, fst out)])))"

lemma logged_eqD:
  assumes "logged send (net, lg) run pl = ((out, e), nl)"
  obtains net' where "nl = (net', lg @ [(run, out)])" "send net run pl = ((out, e), net')"
  using assms by (auto simp: logged_def split: prod.splits)

text \<open>Rows of the batch are rows of the table, up to the bookkeeping columns.\<close>

definition from_table :: "spool_row list \<Rightarrow> spool_db \<Rightarrow> bool" where
  "from_table cs db \<longleftrightarrow> distinct (map row_id cs) \<and> sp_key ` set cs \<subseteq> set (sp_keys db)"

lemma from_table_Cons:
  "from_table (c # cs) db \<Longrightarrow> from_table cs db"
  "from_table (c # cs) db \<Longrightarrow> sp_key c \<in> set (sp_keys db)"
  by (auto simp: from_table_def)

lemma from_table_keys: "from_table cs db \<Longrightarrow> sp_keys db' = sp_keys db \<Longrightarrow> from_table cs db'"
  unfolding from_table_def by metis

lemma from_table_deleted:
  assumes tab: "from_table (c # cs) db"
    and rows: "sp_rows db' = filter (\<lambda>r. row_id r \<noteq> row_id c) (sp_rows db)"
  shows "from_table cs db'"
proof -
  have "sp_key x \<in> set (sp_keys db')" if x: "x \<in> set cs" for x
  proof -
    obtain r where r: "r \<in> set (sp_rows db)" "sp_key r = sp_key x"
      using tab x unfolding from_table_def by force
    have "row_id x \<noteq> row_id c" using tab imageI [OF x, of row_id] unfolding from_table_def by auto
    then show ?thesis using r rows sp_key_eqD [OF r(2)] by (auto intro: rev_image_eqI)
  qed
  then show ?thesis using tab unfolding from_table_def by auto
qed

definition loses_only_accepted :: "spool_db \<Rightarrow> spool_db \<Rightarrow> (string \<times> send_outcome) list \<Rightarrow> bool" where
  "loses_only_accepted db db' sent \<longleftrightarrow>
     (\<forall>r' \<in> set (sp_rows db'). \<exists>r \<in> set (sp_rows db). sp_key r = sp_key r') \<and>
     (\<forall>r \<in> set (sp_rows db). (\<exists>r' \<in> set (sp_rows db'). sp_key r' = sp_key r) \<or>
        (probe_run_id r, OutcomeAccepted) \<in> set sent)"

lemma loses_only_accepted_keys:
  assumes "sp_keys db' = sp_keys db"
  shows "loses_only_accepted db db' sent"
proof -
  have img: "sp_key ` set (sp_rows db') = sp_key ` set (sp_rows db)"
    using assms by (metis list.set_map)
  show ?thesis
    unfolding loses_only_accepted_def
    using equalityD1 [OF img] equalityD2 [OF img] by (auto simp: image_subset_iff image_iff) metis+
qed

lemma loses_only_accepted_same [simp]: "same_tables db db' \<Longrightarrow> loses_only_accepted db db' sent"
  by (simp add: loses_only_accepted_keys same_tables_def)

lemma loses_only_accepted_trans:
  assumes ab: "loses_only_accepted a b xs" and bc: "loses_only_accepted b c ys"
  shows "loses_only_accepted a c (xs @ ys)"
  unfolding loses_only_accepted_def
proof (intro conjI ballI)
  fix r' assume "r' \<in> set (sp_rows c)"
  then obtain r where r: "r \<in> set (sp_rows b)" "sp_key r = sp_key r'"
    using bc unfolding loses_only_accepted_def by blast
  then show "\<exists>r\<in>set (sp_rows a). sp_key r = sp_key r'"
    using ab unfolding loses_only_accepted_def by metis
next
  fix r assume r: "r \<in> set (sp_rows a)"
  show "(\<exists>r'\<in>set (sp_rows c). sp_key r' = sp_key r) \<or> (probe_run_id r, OutcomeAccepted) \<in> set (xs @ ys)"
  proof (cases "(probe_run_id r, OutcomeAccepted) \<in> set xs")
    case False
    then obtain r' where r': "r' \<in> set (sp_rows b)" "sp_key r' = sp_key r"
      using ab r unfolding loses_only_accepted_def by blast
    then have "(\<exists>x\<in>set (sp_rows c). sp_key x = sp_key r') \<or> (probe_run_id r', OutcomeAccepted) \<in> set ys"
      using bc unfolding loses_only_accepted_def by blast
    then show ?thesis using r'(2) sp_key_eqD [OF r'(2)] by auto
  qed simp
qed

lemma loses_only_accepted_deleted:
  assumes "spool_inv db" "sp_key c \<in> set (sp_keys db)"
    and rows: "sp_rows db' = filter (\<lambda>r. row_id r \<noteq> row_id c) (sp_rows db)"
  shows "loses_only_accepted db db' [(probe_run_id c, OutcomeAccepted)]"
proof -
  have "(\<exists>r'\<in>set (sp_rows db'). sp_key r' = sp_key r) \<or> probe_run_id r = probe_run_id c"
    if r: "r \<in> set (sp_rows db)" for r
    using rows r spool_inv_id_key [OF assms(1) r assms(2)] by (cases "row_id r = row_id c") auto
  then show ?thesis using rows unfolding loses_only_accepted_def by auto
qed

lemma drain_send_loses_only_accepted:
  assumes "spool_inv db" "sp_key c \<in> set (sp_keys db)"
    and "drain_send w (logged send) c st db (net, lg) = ((st', err), db', nl)"
  obtains net' out where "nl = (net', lg @ [(probe_run_id c, out)])"
    "loses_only_accepted db db' [(probe_run_id c, out)]"
  using assms(3)
proof (cases rule: drain_send_cases)
  case (fails x out)
  obtain o1 e1 where "out = (o1, e1)" by fastforce
  with fails obtain net' where "nl = (net', lg @ [(probe_run_id c, o1)])"
    by (metis logged_eqD)
  then show thesis using fails(3) by (intro that) auto
next
  case (accepted e)
  then obtain net' where "nl = (net', lg @ [(probe_run_id c, OutcomeAccepted)])"
    by (metis logged_eqD)
  then show thesis using loses_only_accepted_deleted [OF assms(1,2) accepted(4)] by (rule that)
next
  case (failed out e ts m)
  then obtain net' where "nl = (net', lg @ [(probe_run_id c, out)])"
    by (metis logged_eqD)
  moreover have "sp_keys db' = sp_keys db" using failed(4) by simp
  ultimately show thesis using loses_only_accepted_keys by (intro that)
qed

lemma drain_send_from_table:
  assumes "from_table (c # cs) db" "drain_send w send c st db net = ((st', err), db', net')"
  shows "from_table cs db'"
  using assms(2)
proof (cases rule: drain_send_cases)
  case fails
  then show ?thesis using from_table_Cons(1) [OF assms(1)] from_table_keys
    by (metis same_tables_def)
next
  case accepted
  then show ?thesis using from_table_deleted [OF assms(1)] by blast
next
  case failed
  then show ?thesis using from_table_Cons(1) [OF assms(1)] from_table_keys
    by (metis sp_keys_mark_if)
qed

lemma drain_loop_loses_only_accepted:
  assumes "drain_loop w cfg (logged send) now cs st db (net, lg) = ((st', err), db', nl)"
    and "spool_inv db" "from_table cs db"
  obtains net' sent where "nl = (net', lg @ sent)" "loses_only_accepted db db' sent"
    "subseq (map fst sent) (map probe_run_id cs)"
  using assms
proof (induction cs arbitrary: st db net lg thesis)
  case Nil
  then show ?case by (intro Nil.prems(1) [of net "[]"]) auto
next
  case (Cons c cs)
  note tab = from_table_Cons [OF Cons.prems(4)]
  show ?case
  proof (cases "ctx_err w (sp_calls db) (length cs) = None \<and> row_waiting w cfg now c = Inr False")
    case False
    then consider (stop) "nl = (net, lg)" "db' = db"
      | (skip) st1 where "drain_loop w cfg (logged send) now cs st1 db (net, lg) = ((st', err), db', nl)"
      using Cons.prems(2) by (auto split: option.splits sum.splits bool.splits)
    then show ?thesis
    proof cases
      case stop
      then show ?thesis by (intro Cons.prems(1) [of net "[]"]) auto
    next
      case skip
      from Cons.IH [OF _ skip Cons.prems(3) tab(1)] show ?thesis
        by (metis Cons.prems(1) list.simps(9) list_emb_Cons)
    qed
  next
    case True
    obtain st1 e1 db1 nl1 where s1: "drain_send w (logged send) c st db (net, lg) = ((st1, e1), db1, nl1)"
      by (cases "drain_send w (logged send) c st db (net, lg)") auto
    from drain_send_loses_only_accepted [OF Cons.prems(3) tab(2) s1] obtain net1 out
      where nl1: "nl1 = (net1, lg @ [(probe_run_id c, out)])"
        and l1: "loses_only_accepted db db1 [(probe_run_id c, out)]" .
    show ?thesis
    proof (cases e1)
      case (Some e)
      then have "nl = nl1" "db' = db1" using Cons.prems(2) True s1 by auto
      then show ?thesis using nl1 l1 by (intro Cons.prems(1) [of net1 "[(probe_run_id c, out)]"]) auto
    next
      case None
      then have "drain_loop w cfg (logged send) now cs st1 db1 (net1, lg @ [(probe_run_id c, out)])
          = ((st', err), db', nl)"
        using Cons.prems(2) True s1 nl1 by auto
      from Cons.IH [OF _ this spool_inv_drain_send [OF Cons.prems(3) s1]
          drain_send_from_table [OF Cons.prems(4) s1]]
      obtain net' sent where *: "nl = (net', (lg @ [(probe_run_id c, out)]) @ sent)"
        "loses_only_accepted db1 db' sent" "subseq (map fst sent) (map probe_run_id cs)" .
      from loses_only_accepted_trans [OF l1 *(2)] *(1,3) show ?thesis
        by (intro Cons.prems(1) [of net' "(probe_run_id c, out) # sent"]) simp_all
    qed
  qed
qed

end
