(* ===== verification/Spool_Drain.thy ===== *)
theory Spool_Drain
  imports Spool_Props
begin

text \<open>
  The exact effect of a drain that reports no error: which rows were sent and in which order,
  what happened to each of them, and how the statistics and the counters account for it.
\<close>

section \<open>A completed drain loop\<close>

abbreviation key_run :: "go_int \<times> string \<times> string \<times> string \<Rightarrow> string" where
  "key_run k \<equiv> fst (snd (snd k))"

text \<open>How often an outcome occurs in a log.\<close>

definition outcomes :: "send_outcome \<Rightarrow> (string \<times> send_outcome) list \<Rightarrow> go_int" where
  "outcomes out sent = int (count_list (map snd sent) out)"

lemma outcomes_simps [simp]:
  "outcomes out [] = 0"
  "outcomes out (x # xs) = (if snd x = out then 1 else 0) + outcomes out xs"
  "outcomes out (xs @ ys) = outcomes out xs + outcomes out ys"
  by (simp_all add: outcomes_def)

text \<open>
  \<open>drained db db' sent\<close>: the accepted rows are gone, every other row is still there in its
  place, and its attempt count went up by the number of times it was sent.
\<close>

definition drained :: "spool_db \<Rightarrow> spool_db \<Rightarrow> (string \<times> send_outcome) list \<Rightarrow> bool" where
  "drained db db' sent \<longleftrightarrow>
     sp_keys db' = filter (\<lambda>k. (key_run k, OutcomeAccepted) \<notin> set sent) (sp_keys db) \<and>
     (\<forall>r' \<in> set (sp_rows db'). \<exists>r \<in> set (sp_rows db). sp_key r = sp_key r' \<and>
        attempts r' = attempts r + int (count_list (map fst sent) (probe_run_id r'))) \<and>
     int (length (sp_rows db')) = int (length (sp_rows db)) - outcomes OutcomeAccepted sent \<and>
     sp_meta db' = sp_meta db \<and> sp_next_id db' = sp_next_id db"

lemma drained_refl [simp]: "drained db db []"
  by (auto simp: drained_def)

lemma drained_trans:
  assumes "drained a b xs" "drained b c ys"
  shows "drained a c (xs @ ys)"
  unfolding drained_def
proof (intro conjI ballI)
  show "sp_keys c = filter (\<lambda>k. (key_run k, OutcomeAccepted) \<notin> set (xs @ ys)) (sp_keys a)"
    using assms unfolding drained_def by (simp add: conj_commute)
next
  fix r assume "r \<in> set (sp_rows c)"
  then obtain r1 where r1: "r1 \<in> set (sp_rows b)" "sp_key r1 = sp_key r"
    "attempts r = attempts r1 + int (count_list (map fst ys) (probe_run_id r))"
    using assms(2) unfolding drained_def by blast
  then obtain r2 where r2: "r2 \<in> set (sp_rows a)" "sp_key r2 = sp_key r1"
    "attempts r1 = attempts r2 + int (count_list (map fst xs) (probe_run_id r1))"
    using assms(1) unfolding drained_def by blast
  show "\<exists>r2\<in>set (sp_rows a). sp_key r2 = sp_key r \<and>
      attempts r = attempts r2 + int (count_list (map fst (xs @ ys)) (probe_run_id r))"
    using r1 r2 sp_key_eqD [OF r1(2)] by (intro bexI [of _ r2]) auto
qed (use assms in \<open>simp_all add: drained_def\<close>)

lemma drained_accepted:
  assumes "spool_inv db" "sp_key c \<in> set (sp_keys db)"
    and rows: "sp_rows db' = filter (\<lambda>r. row_id r \<noteq> row_id c) (sp_rows db)"
    and meta: "sp_meta db' = sp_meta db" "sp_next_id db' = sp_next_id db"
  shows "drained db db' [(probe_run_id c, OutcomeAccepted)]"
proof -
  have same: "row_id r \<noteq> row_id c \<longleftrightarrow> probe_run_id r \<noteq> probe_run_id c" if "r \<in> set (sp_rows db)" for r
    using spool_inv_id_key [OF assms(1) that assms(2)] by simp
  then have "sp_rows db' = filter (\<lambda>r. probe_run_id r \<noteq> probe_run_id c) (sp_rows db)"
    unfolding rows by (intro filter_cong) auto
  moreover have "Suc (length (sp_rows db')) = length (sp_rows db)"
    using assms(1,2) unfolding rows by (intro length_filter_one) (auto simp: spool_inv_def sp_key_def)
  ultimately show ?thesis
    using meta unfolding drained_def by (auto simp: filter_map comp_def sp_key_def intro!: arg_cong [of _ _ "map _"])
qed

lemma drained_failed:
  assumes "spool_inv db" "sp_key c \<in> set (sp_keys db)" "out \<noteq> OutcomeAccepted"
    and rows: "sp_rows db' = map (mark_if (row_id c) ts m) (sp_rows db)"
    and meta: "sp_meta db' = sp_meta db" "sp_next_id db' = sp_next_id db"
  shows "drained db db' [(probe_run_id c, out)]"
proof -
  have "\<exists>r\<in>set (sp_rows db). sp_key r = sp_key r' \<and>
      attempts r' = attempts r + int (count_list [probe_run_id c] (probe_run_id r'))"
    if r': "r' \<in> set (sp_rows db')" for r'
  proof -
    obtain r where r: "r \<in> set (sp_rows db)" "r' = mark_if (row_id c) ts m r"
      using r' rows by auto
    then show ?thesis
      using spool_inv_id_key [OF assms(1) r(1) assms(2)] by (intro bexI [of _ r]) auto
  qed
  then show ?thesis using assms unfolding drained_def by simp
qed

definition tallied :: "drain_stats \<Rightarrow> drain_stats \<Rightarrow> go_int \<Rightarrow> (string \<times> send_outcome) list \<Rightarrow> bool" where
  "tallied st st' skipped sent \<longleftrightarrow>
     st' = st\<lparr>Skipped := Skipped st + skipped, Accepted := Accepted st + outcomes OutcomeAccepted sent,
              Permanent := Permanent st + outcomes OutcomePermanentFail sent,
              Transient := Transient st + outcomes OutcomeTransientFail sent\<rparr> \<and>
     int (length sent) = outcomes OutcomeAccepted sent + outcomes OutcomePermanentFail sent
       + outcomes OutcomeTransientFail sent"

lemma tallied_refl [simp]: "tallied st st 0 []"
  by (simp add: tallied_def)

lemma tallied_trans: "tallied a b m xs \<Longrightarrow> tallied b c n ys \<Longrightarrow> tallied a c (m + n) (xs @ ys)"
  by (simp add: tallied_def)

lemma drain_send_ok:
  assumes "drain_send w (logged send) c st db (net, lg) = ((st', None), db', nl)"
    and "spool_inv db" "sp_key c \<in> set (sp_keys db)"
  obtains net' out where "nl = (net', lg @ [(probe_run_id c, out)])"
    "drained db db' [(probe_run_id c, out)]" "tallied st st' 0 [(probe_run_id c, out)]"
  using assms(1)
proof (cases rule: drain_send_cases)
  case (accepted e)
  then obtain net' where "nl = (net', lg @ [(probe_run_id c, OutcomeAccepted)])" by (metis logged_eqD)
  then show thesis
    using drained_accepted [OF assms(2,3) accepted(4-6)] accepted(2)
    by (intro that) (auto simp: tallied_def outcome_defs)
next
  case (failed out e ts m)
  then obtain net' where "nl = (net', lg @ [(probe_run_id c, out)])" by (metis logged_eqD)
  moreover have "out \<noteq> OutcomeAccepted" using failed(2) by (auto simp: outcome_defs)
  ultimately show thesis
    using drained_failed [OF assms(2,3) _ failed(4-6)] failed(2)
    by (intro that) (auto simp: tallied_def outcome_defs)
qed simp

abbreviation due :: "world \<Rightarrow> spool_config \<Rightarrow> gotime \<Rightarrow> spool_row list \<Rightarrow> spool_row list" where
  "due w cfg now cs \<equiv> filter (\<lambda>c. row_waiting w cfg now c = Inr False) cs"

lemma drain_loop_ok:
  assumes "drain_loop w cfg (logged send) now cs st db (net, lg) = ((st', None), db', nl)"
    and "spool_inv db" "from_table cs db"
  obtains net' sent where "nl = (net', lg @ sent)" "drained db db' sent"
    "map fst sent = map probe_run_id (due w cfg now cs)"
    "tallied st st' (int (length cs) - int (length sent)) sent"
  using assms
proof (induction cs arbitrary: st db net lg thesis)
  case Nil
  then show ?case by (intro Nil.prems(1) [of net "[]"]) auto
next
  case (Cons c cs)
  note tab = from_table_Cons [OF Cons.prems(4)]
  have ctx: "ctx_err w (sp_calls db) (length cs) = None"
    using Cons.prems(2) by (auto split: option.splits)
  show ?case
  proof (cases "row_waiting w cfg now c = Inr False")
    case False
    then have "drain_loop w cfg (logged send) now cs (st\<lparr>Skipped := Skipped st + 1\<rparr>) db (net, lg)
        = ((st', None), db', nl)"
      using Cons.prems(2) ctx by (auto split: sum.splits bool.splits)
    from Cons.IH [OF _ this Cons.prems(3) tab(1)] obtain net' sent
      where "nl = (net', lg @ sent)" "drained db db' sent"
        "map fst sent = map probe_run_id (due w cfg now cs)"
        "tallied (st\<lparr>Skipped := Skipped st + 1\<rparr>) st' (int (length cs) - int (length sent)) sent" .
    then show ?thesis using False by (intro Cons.prems(1) [of net' sent]) (auto simp: tallied_def)
  next
    case True
    obtain st1 e1 db1 nl1 where s1: "drain_send w (logged send) c st db (net, lg) = ((st1, e1), db1, nl1)"
      by (cases "drain_send w (logged send) c st db (net, lg)") auto
    then have e1: "e1 = None" using Cons.prems(2) True ctx by (cases e1) auto
    from drain_send_ok [OF s1 [unfolded e1] Cons.prems(3) tab(2)] obtain net1 out
      where nl1: "nl1 = (net1, lg @ [(probe_run_id c, out)])"
        and d1: "drained db db1 [(probe_run_id c, out)]" and t1: "tallied st st1 0 [(probe_run_id c, out)]" .
    have "drain_loop w cfg (logged send) now cs st1 db1 (net1, lg @ [(probe_run_id c, out)])
        = ((st', None), db', nl)"
      using Cons.prems(2) True ctx s1 nl1 e1 by auto
    from Cons.IH [OF _ this spool_inv_drain_send [OF Cons.prems(3) s1]
        drain_send_from_table [OF Cons.prems(4) s1]] obtain net' sent
      where *: "nl = (net', (lg @ [(probe_run_id c, out)]) @ sent)" "drained db1 db' sent"
        "map fst sent = map probe_run_id (due w cfg now cs)"
        "tallied st1 st' (int (length cs) - int (length sent)) sent" .
    from drained_trans [OF d1 *(2)] tallied_trans [OF t1 *(4)] *(1,3) True show ?thesis
      by (intro Cons.prems(1) [of net' "(probe_run_id c, out) # sent"]) simp_all
  qed
qed

end
