(* ===== verification/Spool_Retention.thy ===== *)
theory Spool_Retention
  imports Spool_Drain
begin

text \<open>
  Retention and the whole drain: retention removes the oldest rows one by one, counts them, and
  returns only inside both bounds or on the empty table; together with the drain loop this
  accounts for every row that leaves the spool.
\<close>

section \<open>Retention\<close>

abbreviation by_age :: "spool_db \<Rightarrow> spool_row list" where
  "by_age db \<equiv> sort_key enqueued_at (sp_rows db)"

text \<open>\<open>sheds k db db'\<close>: the \<open>k\<close> oldest rows are gone and nothing else changed in the table.\<close>

definition sheds :: "nat \<Rightarrow> spool_db \<Rightarrow> spool_db \<Rightarrow> bool" where
  "sheds k db db' \<longleftrightarrow> k \<le> length (sp_rows db) \<and> by_age db' = drop k (by_age db) \<and>
     subseq (sp_rows db') (sp_rows db) \<and> sp_next_id db' = sp_next_id db"

lemma sheds_0 [simp]: "same_tables db db' \<Longrightarrow> sheds 0 db db'"
  by (simp add: sheds_def same_tables_def)

lemma sheds_same:
  "sheds k db db' \<Longrightarrow> sp_rows db'' = sp_rows db' \<Longrightarrow> sp_next_id db'' = sp_next_id db' \<Longrightarrow> sheds k db db''"
  "sp_rows db = sp_rows db0 \<Longrightarrow> sp_next_id db = sp_next_id db0 \<Longrightarrow> sheds k db db' = sheds k db0 db'"
  by (simp_all add: sheds_def)

lemma sheds_trans: "sheds j a b \<Longrightarrow> sheds k b c \<Longrightarrow> sheds (j + k) a c"
proof -
  assume a: "sheds j a b" "sheds k b c"
  have "length (sp_rows b) = length (sp_rows a) - j"
    using a(1) unfolding sheds_def by (metis length_drop length_sort)
  then show ?thesis
    using a unfolding sheds_def by (auto simp: add.commute intro: subseq_order.trans)
qed

lemma sheds_length:
  assumes "sheds k db db'"
  shows "length (sp_rows db') + k = length (sp_rows db)"
proof -
  have "length (by_age db') = length (drop k (by_age db))"
    using assms by (simp only: sheds_def)
  then show ?thesis using assms by (simp add: sheds_def)
qed

lemma sheds_shorter: "sheds 1 db db' \<Longrightarrow> length (sp_rows db') < length (sp_rows db)"
  by (drule sheds_length) simp

lemma delete_oldest_sheds:
  assumes "distinct (map row_id (sp_rows db))" "sp_rows db \<noteq> []"
    and "delete_oldest w db = (r, db')"
  shows "(case r of Inl _ \<Rightarrow> sheds 0 db db' \<or> sheds 1 db db' | Inr n \<Rightarrow> n = 1 \<and> sheds 1 db db') \<and>
    sp_meta db' = sp_meta db"
proof -
  obtain r0 rs where rs: "by_age db = r0 # rs"
    using assms(2) by (metis length_0_conv length_sort neq_Nil_conv)
  let ?rows = "filter (\<lambda>r. row_id r \<noteq> row_id r0) (sp_rows db)"
  have "distinct (map row_id (by_age db))"
    using assms(1) by (simp add: distinct_map)
  then have "filter (\<lambda>r. row_id r \<noteq> row_id r0) (by_age db) = rs"
    unfolding rs by simp
  then have srt: "sort_key enqueued_at ?rows = rs" by (simp add: filter_sort)
  have len: "length (sp_rows db) = Suc (length ?rows)"
    using srt rs by (metis length_Cons length_sort)
  have "sheds 1 db (db\<lparr>sp_rows := ?rows, sp_calls := n\<rparr>)" for n
    using rs srt len by (simp add: sheds_def)
  then show ?thesis
    using assms(3) rs len
    by (auto simp: delete_oldest_def delete_row_def sp_call_def Let_def sheds_def
             split: option.splits)
qed

lemma drops_bump:
  assumes "bump_drops w db = (r, db')" "sp_meta db ''drops_total'' \<noteq> None"
  shows "drops db' = drops db + (if r = None then 1 else 0)" "sp_meta db' ''drops_total'' \<noteq> None"
  using assms by (auto simp: bump_drops_def sp_call_def drops_def meta_update_def split: option.splits)

lemma sheds_distinct:
  assumes "sheds k db db'" "distinct (map f (sp_rows db))"
  shows "distinct (map f (sp_rows db'))"
proof -
  have "distinct (map f (by_age db))" using assms(2) by (simp add: distinct_map)
  then have "distinct (map f (by_age db'))" using assms(1) by (simp add: sheds_def drop_map [symmetric])
  then show ?thesis by (simp add: distinct_map)
qed

lemma measure_bounds_ok:
  assumes "measure_bounds w s db = (Inr (sz, age, depth), db')"
  shows "depth = int (length (sp_rows db))"
  using assms
  by (auto simp: measure_bounds_def count_rows_def sp_call_def same_tables_def
           split: prod.splits sum.splits option.splits dest!: FootprintBytes_frame OldestAge_frame)

text \<open>The last measurement before the state \<open>db'\<close> found the table empty or both bounds met.\<close>

definition bounds_met :: "world \<Rightarrow> spool \<Rightarrow> spool_db \<Rightarrow> bool" where
  "bounds_met w s db' \<longleftrightarrow>
     (\<exists>db sz age depth. measure_bounds w s db = (Inr (sz, age, depth), db') \<and> same_tables db db' \<and>
        (sp_rows db' = [] \<or> sz \<le> MaxSize (sp_cfg s) \<and> age \<le> MaxAge (sp_cfg s)))"

text \<open>One pass of the loop: it stops, or it ends on an error with at most one row removed and not
  counted, or it removes and counts the oldest row and goes on.\<close>

lemma enforceRetention_cases:
  assumes run: "enforceRetention w s d db = ((d', err), db')"
    and di: "distinct (map row_id (sp_rows db))" and dt: "sp_meta db ''drops_total'' \<noteq> None"
  obtains (stops) "d' = d" "same_tables db db'" "err = None \<longrightarrow> bounds_met w s db'"
  | (breaks) x k where "err = Some x" "d' = d" "k \<le> 1" "sheds k db db'" "sp_meta db' = sp_meta db"
  | (again) db1 where "enforceRetention w s (d + 1) db1 = ((d', err), db')" "sheds 1 db db1"
      "sp_meta db1 = (sp_meta db)(''drops_total'' \<mapsto> drops db + 1)"
proof -
  obtain m db1 where m: "measure_bounds w s db = (m, db1)" by fastforce
  note fr = measure_bounds_frame [OF m]
  have st: thesis
    if "((d', err), db') = ((d, e), db1)" and
      "e = None \<Longrightarrow> \<exists>sz age depth. m = Inr (sz, age, depth) \<and>
         (depth = 0 \<or> sz \<le> MaxSize (sp_cfg s) \<and> age \<le> MaxAge (sp_cfg s))" for e
    using that fr m measure_bounds_ok stops unfolding bounds_met_def same_tables_def
    by (metis (no_types, lifting) Pair_inject length_0_conv of_nat_eq_0_iff)
  show thesis
  proof (cases "\<exists>sz age depth. m = Inr (sz, age, depth) \<and> depth \<noteq> 0 \<and>
      \<not> (sz \<le> MaxSize (sp_cfg s) \<and> age \<le> MaxAge (sp_cfg s))")
    case False
    then show thesis
      using run m st by (auto simp: enforceRetention.simps [of w s d db] split: sum.splits if_splits)
  next
    case True
    then obtain sz age depth where r: "m = Inr (sz, age, depth)" "depth \<noteq> 0"
      "\<not> (sz \<le> MaxSize (sp_cfg s) \<and> age \<le> MaxAge (sp_cfg s))" by blast
    obtain x db2 where x: "delete_oldest w db1 = (x, db2)" by fastforce
    obtain b db3 where b: "bump_drops w db2 = (b, db3)" by fastforce
    have ne: "sp_rows db1 \<noteq> []"
      using measure_bounds_ok [OF m [unfolded r(1)]] r(2) fr by (auto simp: same_tables_def)
    have sh: "(case x of Inl _ \<Rightarrow> sheds 0 db db2 \<or> sheds 1 db db2 | Inr n \<Rightarrow> n = 1 \<and> sheds 1 db db2) \<and>
        sp_meta db2 = sp_meta db"
      using delete_oldest_sheds [OF _ ne x] fr di
      by (auto simp: same_tables_def sheds_def split: sum.splits)
    have sh3: "sheds k db db2 \<Longrightarrow> sheds k db db3" for k
      using bump_drops_rows [OF b] by (simp add: sheds_def)
    have me: "sp_meta db3 = (if b = None then (sp_meta db)(''drops_total'' \<mapsto> drops db + 1) else sp_meta db)"
      using b sh dt by (auto simp: bump_drops_def sp_call_def meta_update_def drops_def split: option.splits)
    show thesis
      using run m r x sh sh3 me b breaks [of _ 0] breaks [of _ 1] again [of db3]
      by (auto simp: enforceRetention.simps [of w s d db] split: sum.splits option.splits)
  qed
qed

text \<open>A whole retention: the \<open>k\<close> oldest rows are gone; all of them are counted, or all but one
  when the retention ended on a failing database call.\<close>

definition retained :: "go_int \<Rightarrow> bool \<Rightarrow> nat \<Rightarrow> spool_db \<Rightarrow> spool_db \<Rightarrow> bool" where
  "retained n ok k db db' \<longleftrightarrow> sheds k db db' \<and> 0 \<le> n \<and>
     (int k = n \<or> \<not> ok \<and> int k = n + 1) \<and>
     sp_meta db' = (sp_meta db)(''drops_total'' \<mapsto> drops db + n)"

lemma enforceRetention_retained:
  assumes "enforceRetention w s d db = ((d', err), db')"
    and "distinct (map row_id (sp_rows db))" "sp_meta db ''drops_total'' \<noteq> None"
  shows "\<exists>k. retained (d' - d) (err = None) k db db'"
  using assms
proof (induction "length (sp_rows db)" arbitrary: d db rule: less_induct)
  case less
  have dt: "(sp_meta db)(''drops_total'' \<mapsto> drops db) = sp_meta db"
    using less.prems(3) by (auto simp: drops_def)
  show ?case
    using less.prems
  proof (cases rule: enforceRetention_cases)
    case stops
    then show ?thesis using dt by (intro exI [of _ 0]) (simp add: retained_def same_tables_def sheds_def)
  next
    case (breaks x k)
    then show ?thesis using dt by (intro exI [of _ k]) (auto simp: retained_def)
  next
    case (again db1)
    have len: "length (sp_rows db1) < length (sp_rows db)"
      using again(2) by (rule sheds_shorter)
    obtain k where "retained (d' - (d + 1)) (err = None) k db1 db'"
      using less.hyps [OF len again(1) sheds_distinct [OF again(2) less.prems(2)]] again(3) by auto
    then show ?thesis
      using sheds_trans [OF again(2), of k db'] again(3)
      by (intro exI [of _ "Suc k"]) (auto simp: retained_def drops_def)
  qed
qed

lemma enforceRetention_bounds:
  assumes "enforceRetention w s d db = ((d', None), db')"
    and "distinct (map row_id (sp_rows db))" "sp_meta db ''drops_total'' \<noteq> None"
  shows "bounds_met w s db'"
  using assms
proof (induction "length (sp_rows db)" arbitrary: d db rule: less_induct)
  case less
  from less.prems show ?case
  proof (cases rule: enforceRetention_cases)
    case (again db1)
    have len: "length (sp_rows db1) < length (sp_rows db)"
      using again(2) by (rule sheds_shorter)
    show ?thesis
      using less.hyps [OF len again(1) sheds_distinct [OF again(2) less.prems(2)]] again(3) by simp
  qed simp_all
qed

end
