(* ===== verification/Spool_Theorems.thy ===== *)
theory Spool_Theorems
  imports Spool_Retention
begin

text \<open>
  The properties of the spool as a whole, for every behaviour of the database, the clock, the
  disk and the sender unless a hypothesis says otherwise.
\<close>

section \<open>The phases of a drain\<close>

lemma from_table_batch:
  assumes "spool_inv db" "same_tables db db1"
  shows "from_table (drain_batch cfg (sp_rows db)) db1"
proof -
  have "distinct (map row_id (sort_key enqueued_at (sp_rows db)))"
    using assms(1) by (simp add: spool_inv_def distinct_map)
  then show ?thesis
    using assms(2) set_sql_limit [of "DrainRows cfg" "sort_key enqueued_at (sp_rows db)"]
    by (auto simp: from_table_def drain_batch_def same_tables_def sql_limit_def take_map [symmetric]
             dest: in_set_takeD)
qed

lemma Drain_cases:
  assumes "Drain w s send db net = ((st, err), db', net')"
  obtains (select_fails) e where "err = Some e" "st = zero_stats" "same_tables db db'" "net' = net"
  | (loop_fails) db1 e now where "err = Some e" "same_tables db db1"
      "drain_loop w (sp_cfg s) send now (drain_batch (sp_cfg s) (sp_rows db))
         (zero_stats\<lparr>Considered := int (length (drain_batch (sp_cfg s) (sp_rows db)))\<rparr>) db1 net
       = ((st, Some e), db', net')"
  | (retention) db1 n st1 db2 d where "same_tables db db1"
      "drain_loop w (sp_cfg s) send (clk w n) (drain_batch (sp_cfg s) (sp_rows db))
         (zero_stats\<lparr>Considered := int (length (drain_batch (sp_cfg s) (sp_rows db)))\<rparr>) db1 net
       = ((st1, None), db2, net')"
      "enforceRetention w s 0 db2 = ((d, err), db')"
      "st = (if err = None then st1\<lparr>Dropped := d\<rparr> else st1)"
proof -
  let ?b = "drain_batch (sp_cfg s) (sp_rows db)"
  obtain q db0 where q: "sp_query w ?b db = (q, db0)" by fastforce
  note fr = sp_query_frame [OF q]
  show thesis
  proof (cases q)
    case (Inl e)
    obtain g x ys where "e = (g, x, ys)" by (cases e)
    then show thesis using assms q Inl fr by (cases g) (auto simp: Drain_def intro: select_fails)
  next
    case (Inr b)
    have b: "b = ?b" using q Inr by (auto simp: sp_query_def split: prod.splits dest: sql_query_Inr)
    obtain now db1 where now: "sp_now w db0 = (now, db1)" by fastforce
    have fr1: "same_tables db db1" using fr sp_now_frame [OF now] by (rule same_tables_trans)
    obtain st1 e1 db2 net1 where lp: "drain_loop w (sp_cfg s) send now ?b
         (zero_stats\<lparr>Considered := int (length ?b)\<rparr>) db1 net = ((st1, e1), db2, net1)"
      by (cases "drain_loop w (sp_cfg s) send now ?b
         (zero_stats\<lparr>Considered := int (length ?b)\<rparr>) db1 net") auto
    show thesis
    proof (cases e1)
      case (Some e)
      then show thesis using assms q Inr b now lp fr1
        by (intro loop_fails [of e db1 now]) (auto simp: Drain_def)
    next
      case None
      obtain d er db3 where ret: "enforceRetention w s 0 db2 = ((d, er), db3)"
        by (cases "enforceRetention w s 0 db2") auto
      have "now = clk w (sp_calls db0)" using now by (simp add: sp_now_def)
      then show thesis using assms q Inr b now lp fr1 None ret
        by (intro retention [of db1 "sp_calls db0" st1 db2 d])
          (auto simp: Drain_def split: option.splits)
    qed
  qed
qed

lemma spool_inv_sameI: "same_tables db db' \<Longrightarrow> spool_inv db \<Longrightarrow> spool_inv db'"
  by (simp add: spool_inv_same)

lemma sheds_subset:
  assumes "sheds k db db'" "r \<in> set (sp_rows db')"
  shows "r \<in> set (sp_rows db)"
proof -
  have "set (by_age db') \<subseteq> set (by_age db)"
    using assms(1) set_drop_subset [of k "by_age db"] by (simp only: sheds_def)
  then show ?thesis using assms(2) by auto
qed

lemma spool_inv_retained:
  assumes "retained n ok k db db'" "spool_inv db"
  shows "spool_inv db'"
proof -
  have sh: "sheds k db db'" and n: "0 \<le> n" "sp_next_id db' = sp_next_id db"
    and me: "sp_meta db' = (sp_meta db)(''drops_total'' \<mapsto> drops db + n)"
    using assms(1) by (simp_all add: retained_def sheds_def)
  obtain d where "0 \<le> d" "sp_meta db ''drops_total'' = Some d" using assms(2) by (auto simp: spool_inv_def)
  then have "0 \<le> drops db + n" using n by (simp add: drops_def)
  moreover have "distinct (map row_id (sp_rows db'))" "distinct (map probe_run_id (sp_rows db'))"
    using assms(2) by (auto simp: spool_inv_def intro: sheds_distinct [OF sh])
  moreover have "\<forall>r \<in> set (sp_rows db'). row_id r < sp_next_id db' \<and> 0 \<le> attempts r \<and>
      probe_run_id r \<noteq> [] \<and> payload r \<noteq> []"
    using assms(2) n(2) sheds_subset [OF sh] unfolding spool_inv_def by metis
  ultimately show ?thesis
    using assms(2) me unfolding spool_inv_def by simp
qed

lemma spool_inv_meta:
  assumes "spool_inv db"
  shows "distinct (map row_id (sp_rows db))" "sp_meta db ''drops_total'' \<noteq> None"
  using assms by (auto simp: spool_inv_def)

lemma spool_inv_Drain:
  assumes "spool_inv db" "Drain w s send db net = ((st, err), db', net')"
  shows "spool_inv db'"
  using assms(2)
proof (cases rule: Drain_cases)
  case select_fails
  then show ?thesis using assms(1) by (simp add: spool_inv_sameI)
next
  case loop_fails
  show ?thesis
    by (rule spool_inv_drain_loop [OF spool_inv_sameI [OF loop_fails(2) assms(1)] loop_fails(3)])
next
  case (retention db1 n st1 db2 d)
  have i: "spool_inv db2"
    by (rule spool_inv_drain_loop [OF spool_inv_sameI [OF retention(1) assms(1)] retention(2)])
  from enforceRetention_retained [OF retention(3) spool_inv_meta [OF i]] show ?thesis
    using spool_inv_retained i by blast
qed

lemma spool_inv_SaveDrainSnapshot:
  assumes "spool_inv db" "SaveDrainSnapshot w a b c db = (r, db')"
  shows "spool_inv db'"
proof -
  have "spool_inv (meta_update k (\<lambda>_. v) x)" if "spool_inv x" "k \<noteq> ''drops_total''" for k v x
    using that by (intro spool_inv_meta_update) auto
  then show ?thesis
    using assms by (auto simp: SaveDrainSnapshot_def sp_call_def split: option.splits)
qed

section \<open>The spool between cycles\<close>

text \<open>What the agent does with an open spool, in any order and any number of times.\<close>

inductive spool_step :: "world \<Rightarrow> spool \<Rightarrow> spool_db \<Rightarrow> spool_db \<Rightarrow> bool" for w s where
  enqueue: "Enqueue w run pl db = (r, db') \<Longrightarrow> spool_step w s db db'"
| drain: "Drain w s (send :: nat sender) db net = (r, db', net') \<Longrightarrow> spool_step w s db db'"
| save: "SaveDrainSnapshot w a b c db = (r, db') \<Longrightarrow> spool_step w s db db'"
| load: "LastDrainSnapshot w db = (r, db') \<Longrightarrow> spool_step w s db db'"
| depth: "spool_Depth w db = (r, db') \<Longrightarrow> spool_step w s db db'"
| oldest: "OldestAge w db = (r, db') \<Longrightarrow> spool_step w s db db'"
| dropped: "spool_DropsTotal w db = (r, db') \<Longrightarrow> spool_step w s db db'"
| elapse: "n \<ge> sp_calls db \<Longrightarrow> spool_step w s db (db\<lparr>sp_calls := n\<rparr>)"

lemma spool_step_inv: "spool_step w s db db' \<Longrightarrow> spool_inv db \<Longrightarrow> spool_inv db'"
proof (induction rule: spool_step.induct)
  case (drain send db net r db' net')
  then show ?case by (cases r) (auto intro: spool_inv_Drain)
qed (auto intro: spool_inv_Enqueue spool_inv_SaveDrainSnapshot
      dest!: LastDrainSnapshot_frame spool_Depth_frame OldestAge_frame spool_DropsTotal_frame
      simp: spool_inv_same)

inductive spool_reach :: "world \<Rightarrow> spool \<Rightarrow> spool_db \<Rightarrow> bool" for w s where
  start: "spool_reach w s spool_init"
| step: "spool_reach w s db \<Longrightarrow> spool_step w s db db' \<Longrightarrow> spool_reach w s db'"

text \<open>C19: whatever the database, the clock and the sender do, in every state the agent's
  operations reach from the migrated empty spool, row ids and run ids are unique, every row has a
  run id and a payload and a non-negative attempt count, and the drops counter exists and is not
  negative.\<close>

theorem spool_reach_inv: "spool_reach w s db \<Longrightarrow> spool_inv db"
proof (induction rule: spool_reach.induct)
  case start
  show ?case by simp
next
  case (step db db')
  from spool_step_inv [OF step.hyps(2) step.IH] show ?case .
qed

theorem spool_reach_inv_witness:
  "spool_inv (snd (Enqueue sample_world ''a'' ''p'' spool_init)) \<and>
   sp_rows (snd (Enqueue sample_world ''a'' ''p'' spool_init)) = [new_row 1 ''9'' ''a'' ''p'']"
proof -
  have "spool_step w s spool_init (snd (Enqueue sample_world ''a'' ''p'' spool_init))"
    if "w = sample_world" for w s
    using that by (auto intro: spool_step.enqueue [OF prod.collapse [symmetric]])
  then have "spool_reach sample_world undefined (snd (Enqueue sample_world ''a'' ''p'' spool_init))"
    by (auto intro: spool_reach.intros)
  from spool_reach_inv [OF this] show ?thesis
    by (simp add: Enqueue_def sp_call_def spool_init_def)
qed

section \<open>A sample drain\<close>

definition sample_spool :: spool where
  "sample_spool = \<lparr>sp_path = ''s'', sp_cfg = \<lparr>DrainRows = 2, MaxAge = 900, MaxSize = 1000,
     BackoffBase = 30, BackoffMax = 3600\<rparr>\<rparr>"

definition sample_send :: "nat sender" where
  "sample_send n run pl =
     (if run = ''a'' then ((OutcomeAccepted, None), Suc n)
      else ((OutcomeTransientFail, Some ''503''), Suc n))"

definition sample_db :: spool_db where
  "sample_db = spool_init\<lparr>sp_rows := [new_row 1 ''2'' ''c'' ''p3'', new_row 2 ''1'' ''a'' ''p1'',
     new_row 3 ''1'' ''b'' ''p2''], sp_next_id := 4\<rparr>"

definition sample_db' :: spool_db where
  "sample_db' = \<lparr>sp_rows = [new_row 1 ''2'' ''c'' ''p3''], sp_next_id = 4,
     sp_meta = [''last_depth'' \<mapsto> 0, ''last_oldest_age_secs'' \<mapsto> 0, ''last_drops_total'' \<mapsto> 0,
                ''drops_total'' \<mapsto> 1], sp_calls = 26\<rparr>"

definition sample_stats :: drain_stats where
  "sample_stats = \<lparr>Considered = 2, Skipped = 0, Accepted = 1, Permanent = 0, Transient = 1, Dropped = 1\<rparr>"

lemma sample_spool_sel [simp]:
  "sp_path sample_spool = ''s''" "DrainRows (sp_cfg sample_spool) = 2"
  "MaxAge (sp_cfg sample_spool) = 900" "MaxSize (sp_cfg sample_spool) = 1000"
  by (simp_all add: sample_spool_def)

lemmas sample_db_defs = sample_send_def sample_db_def spool_init_def new_row_def

lemmas spool_step_defs = row_waiting_def drain_send_def logged_def outcome_defs sp_call_def
  delete_row_def markFailure_def mark_if_def mark_row_def zero_stats_def sp_query_def sql_query_def
  sp_now_def FootprintBytes_def OldestAge_def parseSQLiteTime_def min_enqueued_def time_sub_def
  unit_defs count_rows_def measure_bounds_def delete_oldest_def bump_drops_def meta_update_def
  int64_def less_eq_char_def less_char_def

lemma sample_inv: "spool_inv sample_db"
  by (simp add: sample_db_defs spool_inv_def)

lemma sample_batch:
  "drain_batch (sp_cfg sample_spool) (sp_rows sample_db) =
     [new_row 2 ''1'' ''a'' ''p1'', new_row 3 ''1'' ''b'' ''p2'']"
  by (simp add: drain_batch_def sample_db_defs sql_limit_def less_eq_char_def less_char_def)

lemma sample_Drain:
  "Drain sample_world sample_spool (logged sample_send) sample_db (0, []) =
     ((sample_stats, None), sample_db', (2, [(''a'', OutcomeAccepted), (''b'', OutcomeTransientFail)]))"
proof -
  have "Drain sample_world sample_spool (logged sample_send) sample_db (0, []) =
     ((sample_stats, None), sample_db'\<lparr>sp_calls := Suc (Suc (Suc (Suc (Suc (Suc (Suc (Suc (Suc (Suc
       (Suc (Suc (Suc (Suc (Suc (Suc (Suc (Suc (Suc (Suc (Suc (Suc (Suc (Suc (Suc (Suc 0
       )))))))))))))))))))))))))\<rparr>, (2, [(''a'', 0), (''b'', 2)]))"
    apply (simp add: Drain_def sample_batch spool_step_defs)
    apply (simp add: sample_db_defs spool_step_defs)
    apply (simp add: enforceRetention.simps spool_step_defs sample_stats_def sample_db'_def new_row_def)
    done
  then show ?thesis by (simp add: sample_db'_def outcome_defs numeral_eq_Suc)
qed

section \<open>No row is lost unnoticed\<close>

text \<open>When every row is still there or satisfies \<open>P\<close> before \<open>k\<close> rows are shed, at most \<open>k\<close> rows that do
  not satisfy \<open>P\<close> are gone afterwards.\<close>

lemma lost_rows_bound:
  assumes kept: "\<And>r. r \<in> set (sp_rows db) \<Longrightarrow> sp_key r \<in> set (sp_keys db1) \<or> P r"
    and "sheds k db1 db'" "spool_inv db"
  shows "length (filter (\<lambda>r. sp_key r \<notin> set (sp_keys db') \<and> \<not> P r) (sp_rows db)) \<le> k"
proof -
  let ?lost = "filter (\<lambda>r. sp_key r \<notin> set (sp_keys db') \<and> \<not> P r) (sp_rows db)"
  let ?old = "take k (by_age db1)"
  have "sp_key r \<in> sp_key ` set ?old" if r: "r \<in> set ?lost" for r
  proof -
    obtain r' where r': "r' \<in> set (sp_rows db1)" "sp_key r' = sp_key r"
      using kept [of r] r by auto
    have "r' \<in> set (by_age db1)" using r'(1) by simp
    then have "r' \<in> set ?old \<union> set (drop k (by_age db1))" by (metis append_take_drop_id set_append)
    moreover have "set (drop k (by_age db1)) = set (sp_rows db')"
      using assms(2) by (metis set_sort sheds_def)
    moreover have "r' \<notin> set (sp_rows db')" using r r'(2) imageI [of r' _ sp_key] by auto
    ultimately show ?thesis using r'(2) by (metis UnE imageI)
  qed
  then have "card (sp_key ` set ?lost) \<le> card (sp_key ` set ?old)"
    by (intro card_mono) auto
  also have "\<dots> \<le> card (set ?old)" by (rule card_image_le) simp
  also have "\<dots> \<le> length ?old" by (rule card_length)
  also have "\<dots> \<le> k" by simp
  also have "card (sp_key ` set ?lost) = length ?lost"
  proof -
    have "distinct (map row_id ?lost)" using assms(3) by (simp add: spool_inv_def distinct_map_filter_neq)
    then have "distinct (map sp_key ?lost)" by (auto simp: distinct_map inj_on_def sp_key_def)
    from distinct_card [OF this] show ?thesis by simp
  qed
  finally show ?thesis .
qed

lemma loses_only_accepted_filter:
  assumes "loses_only_accepted db db1 sent" "sheds k db1 db'" "spool_inv db"
  shows "length (filter (\<lambda>r. sp_key r \<notin> set (sp_keys db') \<and>
           (probe_run_id r, OutcomeAccepted) \<notin> set sent) (sp_rows db)) \<le> k"
proof (rule lost_rows_bound [OF _ assms(2,3)])
  fix r assume "r \<in> set (sp_rows db)"
  then have "(\<exists>r' \<in> set (sp_rows db1). sp_key r' = sp_key r) \<or> (probe_run_id r, OutcomeAccepted) \<in> set sent"
    using assms(1) unfolding loses_only_accepted_def by blast
  then show "sp_key r \<in> set (sp_keys db1) \<or> (probe_run_id r, OutcomeAccepted) \<in> set sent"
    by (auto intro: rev_image_eqI)
qed

text \<open>C3: in any drain, with any faults, the rows that are gone afterwards were answered by the
  controller with an accepting status during this drain, or they are counted in
  \<open>drops_total\<close>; when the drain ends with an error, at most one dropped row is not counted.\<close>

theorem Drain_accounts_for_losses:
  assumes "spool_inv db"
    and "Drain w s (logged send) db (net, []) = ((st, err), db', (net', sent))"
  shows "int (length (filter (\<lambda>r. sp_key r \<notin> set (sp_keys db') \<and>
           (probe_run_id r, OutcomeAccepted) \<notin> set sent) (sp_rows db)))
         \<le> drops db' - drops db + (if err = None then 0 else 1)"
  using assms(2)
proof (cases rule: Drain_cases)
  case select_fails
  then have "sp_rows db' = sp_rows db" "drops db' = drops db" by (auto simp: same_tables_def drops_def)
  then show ?thesis using select_fails by simp
next
  case (loop_fails db1 e now)
  note i1 = spool_inv_sameI [OF loop_fails(2) assms(1)]
  from drain_loop_loses_only_accepted [OF loop_fails(3) i1 from_table_batch [OF assms(1) loop_fails(2)]]
  have "loses_only_accepted db1 db' sent" by auto
  then have "loses_only_accepted db db' sent"
    using loop_fails(2) by (simp add: loses_only_accepted_def same_tables_def)
  moreover have "drops db' = drops db"
    using drain_loop_meta [OF loop_fails(3)] loop_fails(2) by (simp add: drops_def same_tables_def)
  ultimately show ?thesis
    using loses_only_accepted_filter [of db db' sent 0 db'] assms(1) by (simp add: sheds_def)
next
  case (retention db1 n st1 db2 d)
  note i1 = spool_inv_sameI [OF retention(1) assms(1)]
  have i2: "spool_inv db2" using i1 retention(2) by (rule spool_inv_drain_loop)
  from drain_loop_loses_only_accepted [OF retention(2) i1 from_table_batch [OF assms(1) retention(1)]]
  have "loses_only_accepted db1 db2 sent" by auto
  then have lo: "loses_only_accepted db db2 sent"
    using retention(1) by (simp add: loses_only_accepted_def same_tables_def)
  obtain k where k: "retained d (err = None) k db2 db'"
    using enforceRetention_retained [OF retention(3) spool_inv_meta [OF i2]] by auto
  then have "drops db' = drops db + d"
    using drain_loop_meta [OF retention(2)] retention(1) by (simp add: drops_def same_tables_def retained_def)
  then show ?thesis
    using loses_only_accepted_filter [OF lo _ assms(1), of k db'] k by (auto simp: retained_def)
qed

theorem Drain_accounts_for_losses_witness:
  "spool_inv sample_db \<and>
   int (length (filter (\<lambda>r. sp_key r \<notin> set (sp_keys sample_db') \<and>
      (probe_run_id r, OutcomeAccepted) \<notin> set [(''a'', OutcomeAccepted), (''b'', OutcomeTransientFail)])
      (sp_rows sample_db))) \<le> drops sample_db' - drops sample_db"
  using Drain_accounts_for_losses [OF sample_inv sample_Drain] sample_inv by simp



lemma Drain_within:
  assumes "spool_inv db" "Drain w s send db net = ((st, None), db', net')"
  shows "bounds_met w s db'"
  using assms(2)
proof (cases rule: Drain_cases)
  case (retention db1 n st1 db2 d)
  have "spool_inv db2"
    using spool_inv_sameI [OF retention(1) assms(1)] retention(2) by (rule spool_inv_drain_loop)
  from enforceRetention_bounds [OF retention(3) spool_inv_meta [OF this]] show ?thesis .
qed simp_all

text \<open>C22: a drain that returns no error ends with the table empty or with the footprint and the age
  of the oldest row, as last measured, within \<open>MaxSize\<close> and \<open>MaxAge\<close>.\<close>

theorem Drain_ends_within_bounds:
  assumes "spool_inv db" "Drain w s send db net = ((st, None), db', net')"
  shows "\<exists>db0 sz age depth. measure_bounds w s db0 = (Inr (sz, age, depth), db') \<and>
    sp_rows db0 = sp_rows db' \<and>
    (sp_rows db' = [] \<or> sz \<le> MaxSize (sp_cfg s) \<and> age \<le> MaxAge (sp_cfg s))"
proof -
  obtain db0 sz age depth where "measure_bounds w s db0 = (Inr (sz, age, depth), db')" "same_tables db0 db'"
    "sp_rows db' = [] \<or> sz \<le> MaxSize (sp_cfg s) \<and> age \<le> MaxAge (sp_cfg s)"
    using Drain_within [OF assms] unfolding bounds_met_def by blast
  then show ?thesis by (intro exI [of _ db0] exI [of _ sz] exI [of _ age] exI [of _ depth])
    (simp add: same_tables_def)
qed

theorem Drain_ends_within_bounds_witness:
  "\<exists>db0 sz age depth. measure_bounds sample_world sample_spool db0 = (Inr (sz, age, depth), sample_db') \<and>
     sp_rows db0 = sp_rows sample_db' \<and> sz \<le> 1000 \<and> age \<le> 900"
  using Drain_ends_within_bounds [OF sample_inv sample_Drain] by (simp add: sample_db'_def)

section \<open>The sender's contract\<close>

text \<open>
  A drain relies on its \<open>Sender\<close> for one law: the outcome is one of the three named values. In a
  world where nothing external fails this law is all a drain needs to return without error, and in
  any world it rules out the \<open>unknown outcome\<close> error.
\<close>

text \<open>Nothing external fails: no call, no file and no context. \<open>time.ParseInLocation\<close> is asked for the timestamps in the
  table only, which SQLite has written; those are the ones that have to parse.\<close>

definition calm :: "world \<Rightarrow> bool" where
  "calm w \<longleftrightarrow> faultless w \<and> (\<forall>n k. ctx_err w n k = None) \<and> (\<forall>n f e. file_stat w n f \<noteq> StatFails e)"

definition parses :: "world \<Rightarrow> string \<Rightarrow> bool" where
  "parses w ts \<longleftrightarrow> (case parseSQLiteTime w ts of Inl _ \<Rightarrow> False | Inr _ \<Rightarrow> True)"

definition benign :: "world \<Rightarrow> spool_db \<Rightarrow> bool" where
  "benign w db \<longleftrightarrow> calm w \<and>
     list_all (\<lambda>r. parses w (enqueued_at r) \<and> (case last_attempt_at r of None \<Rightarrow> True | Some ts \<Rightarrow> parses w ts)) (sp_rows db)"

text \<open>What the retention needs of it, and what every step of a drain keeps.\<close>

definition dated :: "world \<Rightarrow> spool_db \<Rightarrow> bool" where
  "dated w db \<longleftrightarrow> (\<forall>k \<in> set (sp_keys db). parses w (fst (snd k)))"

lemma calm_faultless: "calm w \<Longrightarrow> fault w n = None"
  by (simp add: calm_def)

lemma parsesE: "parses w ts \<Longrightarrow> (\<And>t. parseSQLiteTime w ts = Inr t \<Longrightarrow> thesis) \<Longrightarrow> thesis"
  by (auto simp: parses_def split: sum.splits)

lemma dated_mono: "dated w db \<Longrightarrow> set (sp_keys db') \<subseteq> set (sp_keys db) \<Longrightarrow> dated w db'"
  unfolding dated_def by blast

lemma dated_same: "dated w db \<Longrightarrow> same_tables db db' \<Longrightarrow> dated w db'"
  by (simp add: dated_def same_tables_def)

lemma benign_dated: "benign w db \<Longrightarrow> dated w db"
  by (auto simp: benign_def dated_def list_all_iff sp_key_def)

lemma footprint_loop_calm:
  "calm w \<Longrightarrow> \<exists>z db'. footprint_loop w p sufs tot db = (Inr z, db')"
  by (induction w p sufs tot db rule: footprint_loop.induct)
     (auto simp: Let_def calm_def split: stat_result.splits)

lemma min_enqueued_key: "min_enqueued (sp_rows db) = Some ts \<Longrightarrow> \<exists>k \<in> set (sp_keys db). ts = fst (snd k)"
proof -
  assume "min_enqueued (sp_rows db) = Some ts"
  then obtain r rs where "sort_key enqueued_at (sp_rows db) = r # rs" "ts = enqueued_at r"
    by (auto simp: min_enqueued_def split: list.splits)
  then have "r \<in> set (sp_rows db)" by (metis list.set_intros(1) set_sort)
  then show ?thesis using \<open>ts = enqueued_at r\<close> by (auto simp: sp_key_def)
qed

lemma OldestAge_calm:
  assumes "calm w" "dated w db"
  shows "\<exists>age db'. OldestAge w db = (Inr age, db')"
proof (cases "min_enqueued (sp_rows db)")
  case (Some ts)
  then obtain t where "parseSQLiteTime w ts = Inr t"
    using min_enqueued_key [OF Some] assms(2) by (auto simp: dated_def elim: parsesE)
  then show ?thesis using Some by (simp add: OldestAge_def sp_call_def sp_now_def calm_faultless [OF assms(1)])
qed (simp add: OldestAge_def sp_call_def calm_faultless [OF assms(1)])

lemma measure_bounds_calm:
  assumes "calm w" "dated w db"
  shows "\<exists>sz age depth db'. measure_bounds w s db = (Inr (sz, age, depth), db')"
proof -
  obtain z db1 where f: "FootprintBytes w s db = (Inr z, db1)"
    unfolding FootprintBytes_def using footprint_loop_calm [OF assms(1)] by blast
  have "dated w db1" using dated_same [OF assms(2) FootprintBytes_frame [OF f]] .
  then obtain age db2 where "OldestAge w db1 = (Inr age, db2)" using OldestAge_calm [OF assms(1)] by blast
  then show ?thesis
    using f assms by (simp add: measure_bounds_def count_rows_def sp_call_def calm_faultless)
qed

lemma delete_oldest_calm:
  assumes "calm w"
  shows "\<exists>n db'. delete_oldest w db = (Inr n, db') \<and> set (sp_keys db') \<subseteq> set (sp_keys db)"
  using assms
  by (auto simp: delete_oldest_def delete_row_def sp_call_def Let_def calm_faultless split: list.split)

lemma bump_drops_calm: "calm w \<Longrightarrow> \<exists>db'. bump_drops w db = (None, db') \<and> sp_rows db' = sp_rows db"
  by (simp add: bump_drops_def sp_call_def calm_faultless)

lemma enforceRetention_calm:
  "calm w \<Longrightarrow> dated w db \<Longrightarrow> \<exists>d' db'. enforceRetention w s d db = ((d', None), db')"
proof (induction w s d db rule: enforceRetention.induct)
  case (1 w s d db)
  obtain sz age depth db1 where m: "measure_bounds w s db = (Inr (sz, age, depth), db1)"
    using measure_bounds_calm [OF "1.prems"] by blast
  note d1 = dated_same [OF "1.prems"(2) measure_bounds_frame [OF m]]
  obtain n db2 where x: "delete_oldest w db1 = (Inr n, db2)" "set (sp_keys db2) \<subseteq> set (sp_keys db1)"
    using delete_oldest_calm [OF "1.prems"(1)] by blast
  obtain db3 where b: "bump_drops w db2 = (None, db3)" "sp_rows db3 = sp_rows db2"
    using bump_drops_calm [OF "1.prems"(1)] by blast
  have "dated w db3" using dated_mono [OF d1 x(2)] b(2) by (simp add: dated_def)
  note IH = "1.IH" [OF m [symmetric] refl refl refl _ _ x(1) [symmetric] refl _ b(1) [symmetric] refl "1.prems"(1) this]
  show ?case using IH by (simp add: enforceRetention.simps [of w s d db] m x b)
qed

lemma row_waiting_parses:
  assumes "case last_attempt_at c of None \<Rightarrow> True | Some ts \<Rightarrow> parses w ts"
  shows "\<exists>b. row_waiting w cfg now c = Inr b"
  using assms by (auto simp: row_waiting_def split: option.splits elim: parsesE)

lemma drain_send_keys:
  assumes "drain_send w send c st db net = ((st', err), db', net')"
  shows "set (sp_keys db') \<subseteq> set (sp_keys db)"
  using assms by (cases rule: drain_send_cases) (auto simp: same_tables_def)

locale outcome_sender =
  fixes send :: "'n sender"
  assumes known_outcome:
    "fst (fst (send net run pl)) \<in> {OutcomeAccepted, OutcomePermanentFail, OutcomeTransientFail}"
begin

lemma drain_send_known:
  assumes "drain_send w send c st db net = ((st', Some e), db', net')"
  shows "\<exists>site x. e = SpoolErr site x"
  using assms known_outcome [of net "probe_run_id c" "payload c"]
  by (auto simp: drain_send_def markFailure_def sp_call_def Let_def split: prod.splits option.splits if_splits)

lemma drain_send_calm:
  assumes "calm w"
  shows "\<exists>st' db' net'. drain_send w send c st db net = ((st', None), db', net')"
  using known_outcome [of net "probe_run_id c" "payload c"] assms
  by (auto simp: drain_send_def markFailure_def sp_call_def Let_def calm_faultless split: prod.splits)

lemma drain_loop_known:
  "drain_loop w cfg send now cs st db net = ((st', Some e), db', net') \<Longrightarrow> \<nexists>x. e = UnknownOutcome x"
proof (induction cs arbitrary: st db net)
  case (Cons c cs)
  show ?case
    using Cons.prems Cons.IH
    by (auto split: option.splits sum.splits bool.splits prod.splits dest!: drain_send_known
        simp: row_waiting_def)
qed simp

lemma drain_loop_calm:
  assumes "calm w"
  shows "list_all (\<lambda>r. case last_attempt_at r of None \<Rightarrow> True | Some ts \<Rightarrow> parses w ts) cs \<Longrightarrow>
    \<exists>st' db' net'. drain_loop w cfg send now cs st db net = ((st', None), db', net') \<and>
      set (sp_keys db') \<subseteq> set (sp_keys db)"
proof (induction cs arbitrary: st db net)
  case (Cons c cs)
  have "case last_attempt_at c of None \<Rightarrow> True | Some ts \<Rightarrow> parses w ts" using Cons.prems by simp
  then obtain b where b: "row_waiting w cfg now c = Inr b" using row_waiting_parses by blast
  obtain st1 db1 net1 where s: "drain_send w send c st db net = ((st1, None), db1, net1)"
    using drain_send_calm [OF assms] by blast
  have "ctx_err w (sp_calls db) (length cs) = None" using assms by (simp add: calm_def)
  moreover have rest: "list_all (\<lambda>r. case last_attempt_at r of None \<Rightarrow> True | Some ts \<Rightarrow> parses w ts) cs"
    using Cons.prems by simp
  ultimately show ?case
    using b s Cons.IH [OF rest, of "st\<lparr>Skipped := Skipped st + 1\<rparr>" db net] Cons.IH [OF rest, of st1 db1 net1]
      drain_send_keys [OF s] by (cases b) auto
qed simp

lemma Drain_benign:
  assumes "benign w db"
  shows "\<exists>st db' net'. Drain w s send db net = ((st, None), db', net')"
proof -
  let ?b = "drain_batch (sp_cfg s) (sp_rows db)"
  have calm: "calm w" using assms by (simp add: benign_def)
  obtain db1 where q: "sp_query w ?b db = (Inr ?b, db1)" using calm by (simp add: sp_query_def calm_def)
  obtain now db2 where n: "sp_now w db1 = (now, db2)" by fastforce
  have "set ?b \<subseteq> set (sp_rows db)" using set_sql_limit by (fastforce simp: drain_batch_def)
  then have "list_all (\<lambda>r. case last_attempt_at r of None \<Rightarrow> True | Some ts \<Rightarrow> parses w ts) ?b"
    using assms by (auto simp: benign_def list_all_iff)
  then obtain st db3 net1 where l: "drain_loop w (sp_cfg s) send now ?b
      (zero_stats\<lparr>Considered := int (length ?b)\<rparr>) db2 net = ((st, None), db3, net1)" "set (sp_keys db3) \<subseteq> set (sp_keys db2)"
    using drain_loop_calm [OF calm] by blast
  have "dated w db2" using dated_same [OF dated_same [OF benign_dated [OF assms] sp_query_frame [OF q]] sp_now_frame [OF n]] .
  then obtain d db4 where "enforceRetention w s 0 db3 = ((d, None), db4)"
    using enforceRetention_calm [OF calm dated_mono [OF _ l(2)]] by blast
  then show ?thesis using q n l by (simp add: Drain_def)
qed

end

section \<open>Retention against files that do not shrink\<close>

lemma footprint_oversized:
  assumes "FootprintBytes w s db = (Inr sz, db')"
    and main: "\<And>n. \<exists>z. file_stat w n (sp_path s) = StatSize z \<and> MaxSize (sp_cfg s) < z \<and> 0 \<le> z \<and> z < 2 ^ 60"
    and rest: "\<And>n f z. file_stat w n f = StatSize z \<Longrightarrow> 0 \<le> z \<and> z < 2 ^ 60"
  shows "MaxSize (sp_cfg s) < sz"
proof -
  obtain z where z: "file_stat w (sp_calls db) (sp_path s) = StatSize z" "MaxSize (sp_cfg s) < z"
    "0 \<le> z" "z < 2 ^ 60" using main by blast
  show ?thesis
    using assms(1) z
    by (auto simp: FootprintBytes_def Let_def int64_def split: stat_result.splits dest!: rest)
qed

text \<open>C30: retention assumes that deleting rows makes the files smaller. When they do not get smaller
  (SQLite keeps freed pages in the file), a drain that ends without error with the main file over
  \<open>MaxSize\<close> has deleted every row.\<close>

theorem oversized_file_empties_spool:
  assumes "spool_inv db" "Drain w s send db net = ((st, None), db', net')"
    and "\<And>n. \<exists>z. file_stat w n (sp_path s) = StatSize z \<and> MaxSize (sp_cfg s) < z \<and> 0 \<le> z \<and> z < 2 ^ 60"
    and "\<And>n f z. file_stat w n f = StatSize z \<Longrightarrow> 0 \<le> z \<and> z < 2 ^ 60"
  shows "sp_rows db' = []"
proof -
  obtain db0 sz age depth where m: "measure_bounds w s db0 = (Inr (sz, age, depth), db')"
    and b: "sp_rows db' = [] \<or> sz \<le> MaxSize (sp_cfg s) \<and> age \<le> MaxAge (sp_cfg s)"
    using Drain_within [OF assms(1,2)] unfolding bounds_met_def by blast
  have "MaxSize (sp_cfg s) < sz"
    using m footprint_oversized [OF _ assms(3,4)]
    by (auto simp: measure_bounds_def split: prod.splits sum.splits)
  then show ?thesis using b by simp
qed

lemma sample_benign: "benign sample_world sample_db"
  by (simp add: benign_def calm_def parses_def parseSQLiteTime_def sample_db_defs)

interpretation sample: outcome_sender sample_send
  by unfold_locales (simp add: sample_send_def)

theorem oversized_file_empties_spool_witness:
  "\<exists>st db' net'. Drain sample_world (sample_spool\<lparr>sp_cfg := (sp_cfg sample_spool)\<lparr>MaxSize := 50\<rparr>\<rparr>)
     sample_send sample_db 0 = ((st, None), db', net') \<and> sp_rows db' = []"
proof -
  let ?s = "sample_spool\<lparr>sp_cfg := (sp_cfg sample_spool)\<lparr>MaxSize := 50\<rparr>\<rparr>"
  obtain st db' net' where d: "Drain sample_world ?s sample_send sample_db 0 = ((st, None), db', net')"
    using sample.Drain_benign [OF sample_benign] by blast
  have "sp_rows db' = []" by (rule oversized_file_empties_spool [OF sample_inv d]) auto
  then show ?thesis using d by blast
qed

section \<open>Enqueue and the drain snapshot\<close>

text \<open>Enqueueing is idempotent on the run id: once a run is in the spool, enqueueing it again with
  any payload returns \<open>ErrDuplicate\<close> and changes no table, provided the driver's error text for a
  violated UNIQUE constraint says so and the database call itself does not fail.\<close>

theorem Enqueue_twice:
  assumes "Enqueue w run pl db = (None, db1)" "isUniqueViolation (unique_err w)"
    and "fault w (sp_calls db1) = None" "pl' \<noteq> []"
  shows "\<exists>db2. Enqueue w run pl' db1 = (Some ErrDuplicate, db2) \<and> same_tables db1 db2"
proof -
  have "run \<noteq> []" and mem: "run \<in> probe_run_id ` set (sp_rows db1)"
    using assms(1)
    by (auto simp: Enqueue_def sp_call_def Let_def new_row_def split: if_splits option.splits)
  then show ?thesis using assms(2-4) by (simp add: Enqueue_def sp_call_def same_tables_def)
qed

theorem Enqueue_twice_witness:
  "\<exists>db2. Enqueue sample_world ''c'' ''other'' (snd (Enqueue sample_world ''c'' ''p'' spool_init))
     = (Some ErrDuplicate, db2) \<and> length (sp_rows db2) = 1"
proof -
  let ?db1 = "snd (Enqueue sample_world ''c'' ''p'' spool_init)"
  have "Enqueue sample_world ''c'' ''p'' spool_init = (None, ?db1)" and len: "length (sp_rows ?db1) = 1"
    by (simp_all add: Enqueue_def sp_call_def spool_init_def)
  from Enqueue_twice [OF this(1), of "''other''"] obtain db2
    where "Enqueue sample_world ''c'' ''other'' ?db1 = (Some ErrDuplicate, db2)" "same_tables ?db1 db2"
    by auto
  then show ?thesis using len by (auto simp: same_tables_def)
qed

text \<open>The snapshot a cycle saves after its drain is the one the next cycle reads and reports, field
  for field.\<close>

theorem snapshot_roundtrip:
  assumes "spool_inv db" "faultless w" "SaveDrainSnapshot w depth oldest n db = (r, db1)"
  shows "r = None \<and>
    fst (LastDrainSnapshot w db1) = (\<lparr>Depth = depth, OldestAgeSecs = oldest, DropsTotal = n\<rparr>, None)"
proof -
  obtain a b c where "sp_meta db ''last_depth'' = Some a" "sp_meta db ''last_oldest_age_secs'' = Some b"
    "sp_meta db ''last_drops_total'' = Some c" using assms(1) by (auto simp: spool_inv_def)
  then show ?thesis
    using assms(2,3)
    by (auto simp: SaveDrainSnapshot_def sp_call_def meta_update_def LastDrainSnapshot_def sp_query_def
        snap_rows_def map_filter_simps zero_snapshot_def)
qed

theorem snapshot_roundtrip_witness:
  "fst (LastDrainSnapshot sample_world (snd (SaveDrainSnapshot sample_world 3 7 1 sample_db)))
     = (\<lparr>Depth = 3, OldestAgeSecs = 7, DropsTotal = 1\<rparr>, None)"
  using snapshot_roundtrip [OF sample_inv sample_world_faultless prod.collapse [symmetric]] by blast

end
