(* ===== verification/Spool_Termination.thy ===== *)
theory Spool_Termination
  imports Spool_Theorems
begin

text \<open>
  How long a drain can take. Every external call of the spool (a statement, a row fetched, a clock reading,
  a file measured, a send) advances the call counter of the database, so a bound on the counter bounds the
  iterations of all loops together: \<open>Drain\<close> and its retention loop return, however the calls turn out, after
  a number of calls that is linear in the rows of the table.
\<close>

named_theorems call_bound \<open>how many external calls an operation makes\<close>

lemma sp_call_bound [call_bound]: "sp_call w db = (r, db') \<Longrightarrow> sp_calls db' = Suc (sp_calls db)"
  by (auto simp: sp_call_def)

lemma sp_now_bound [call_bound]: "sp_now w db = (r, db') \<Longrightarrow> sp_calls db' = Suc (sp_calls db)"
  by (auto simp: sp_now_def)

lemma scan_rows_bound: "snd (scan_rows w got xs n) \<le> n + 2 * length xs + 1"
proof (induction w got xs n rule: scan_rows.induct)
  case (2 w got x xs n)
  show ?case
  proof (cases "fault w n = None \<and> fault w (Suc n) = None")
    case True
    then have "snd (scan_rows w (got @ [x]) xs (n + 2)) \<le> n + 2 + 2 * length xs + 1" using "2.IH" by simp
    then show ?thesis using True by simp
  qed (auto split: option.splits)
qed (simp split: option.splits)

lemma sp_query_bound [call_bound]: "sp_query w xs db = (r, db') \<Longrightarrow> sp_calls db' \<le> sp_calls db + 2 * length xs + 2"
  using scan_rows_bound [of w "[]" xs "Suc (sp_calls db)"]
  by (auto simp: sp_query_def sql_query_def split: option.splits prod.splits)

lemma footprint_loop_bound:
  "sp_calls (snd (footprint_loop w path sufs tot db)) \<le> sp_calls db + length sufs"
  by (induction w path sufs tot db rule: footprint_loop.induct) (auto simp: Let_def split: stat_result.splits)

lemma FootprintBytes_bound [call_bound]: "FootprintBytes w s db = (r, db') \<Longrightarrow> sp_calls db' \<le> sp_calls db + 3"
  using footprint_loop_bound [of w "sp_path s" "['''', ''-wal'', ''-shm'']" 0 db] by (simp add: FootprintBytes_def)

lemma OldestAge_bound [call_bound]: "OldestAge w db = (r, db') \<Longrightarrow> sp_calls db' \<le> sp_calls db + 2"
  by (auto simp: OldestAge_def sp_call_def sp_now_def split: option.splits sum.splits)

lemma count_rows_bound [call_bound]: "count_rows w db = (r, db') \<Longrightarrow> sp_calls db' = Suc (sp_calls db)"
  by (auto simp: count_rows_def sp_call_def split: option.splits)

lemma measure_bounds_bound: "measure_bounds w s db = (r, db') \<Longrightarrow> sp_calls db' \<le> sp_calls db + 6"
  unfolding measure_bounds_def
  by (auto split: prod.splits sum.splits dest!: FootprintBytes_bound OldestAge_bound count_rows_bound)

lemma delete_oldest_bound: "delete_oldest w db = (r, db') \<Longrightarrow> sp_calls db' \<le> sp_calls db + 2"
  by (auto simp: delete_oldest_def delete_row_def sp_call_def Let_def split: option.splits list.splits)

lemma bump_drops_bound: "bump_drops w db = (r, db') \<Longrightarrow> sp_calls db' = Suc (sp_calls db)"
  by (auto simp: bump_drops_def sp_call_def meta_update_def split: option.splits)

text \<open>A pass of the retention loop makes at most nine calls and the loop goes on only after it deleted a row.\<close>

lemma enforceRetention_bound:
  "sp_calls (snd (enforceRetention w s dropped db)) \<le> sp_calls db + 9 * length (sp_rows db) + 9"
proof (induction "length (sp_rows db)" arbitrary: dropped db rule: less_induct)
  case less
  obtain m db1 where m: "measure_bounds w s db = (m, db1)" by fastforce
  have b1: "sp_calls db1 \<le> sp_calls db + 6" and r1: "sp_rows db1 = sp_rows db"
    using measure_bounds_bound [OF m] measure_bounds_frame [OF m] by (simp_all add: same_tables_def)
  obtain r db2 where d: "delete_oldest w db1 = (r, db2)" by fastforce
  have b2: "sp_calls db2 \<le> sp_calls db + 8" using delete_oldest_bound [OF d] b1 by simp
  obtain b db3 where u: "bump_drops w db2 = (b, db3)" by fastforce
  have b3: "sp_calls db3 \<le> sp_calls db + 9" and r3: "sp_rows db3 = sp_rows db2"
    using bump_drops_bound [OF u] b2 bump_drops_rows [OF u] by simp_all
  show ?case
  proof (cases "\<exists>sz age depth n. m = Inr (sz, age, depth) \<and> depth \<noteq> 0 \<and>
      \<not> (sz \<le> MaxSize (sp_cfg s) \<and> age \<le> MaxAge (sp_cfg s)) \<and> r = Inr n \<and> n \<noteq> 0 \<and> b = None")
    case True
    then obtain sz age depth n where c: "m = Inr (sz, age, depth)" "depth \<noteq> 0"
      "\<not> (sz \<le> MaxSize (sp_cfg s) \<and> age \<le> MaxAge (sp_cfg s))" "r = Inr n" "n \<noteq> 0" "b = None" by blast
    have "length (sp_rows db3) < length (sp_rows db)"
      using delete_oldest_rows [of w db1 n db2] d c r1 r3 by simp
    moreover from this have "sp_calls (snd (enforceRetention w s (dropped + 1) db3)) \<le> sp_calls db3 + 9 * length (sp_rows db3) + 9"
      by (rule less)
    ultimately show ?thesis using c m d u b3 by (subst enforceRetention.simps) auto
  next
    case False
    then show ?thesis using m d u b1 b2 b3 by (subst enforceRetention.simps) (auto split: sum.splits option.splits)
  qed
qed

text \<open>A fetched row costs at most a send and a statement, and the table never grows during a drain.\<close>

lemma markFailure_bound:
  "markFailure w i e db = (r, db') \<Longrightarrow> sp_calls db' = Suc (sp_calls db) \<and> length (sp_rows db') = length (sp_rows db)"
  by (auto simp: markFailure_def sp_call_def Let_def split: option.splits)

lemma drain_send_bound:
  "drain_send w send c stats db net = (r, db', net') \<Longrightarrow>
     sp_calls db' \<le> sp_calls db + 2 \<and> length (sp_rows db') \<le> length (sp_rows db)"
  unfolding drain_send_def
  by (auto simp: Let_def sp_call_def delete_row_def intro: le_trans [OF length_filter_le]
      dest!: markFailure_bound split: prod.splits option.splits if_splits)

lemma drain_loop_bound:
  "drain_loop w cfg send now cs stats db net = (r, db', net') \<Longrightarrow>
     sp_calls db' \<le> sp_calls db + 2 * length cs \<and> length (sp_rows db') \<le> length (sp_rows db)"
proof (induction cs arbitrary: stats db net)
  case (Cons c cs)
  show ?case
  proof (cases "ctx_err w (sp_calls db) (length cs) = None \<and> row_waiting w cfg now c = Inr False")
    case True
    obtain st1 e db1 net1 where d: "drain_send w send c stats db net = ((st1, e), db1, net1)"
      by (metis prod.exhaust)
    show ?thesis
      using Cons.prems True d drain_send_bound [OF d] Cons.IH [of st1 db1 net1]
      by (cases e) (auto intro: le_trans)
  next
    case False
    then show ?thesis using Cons by (fastforce split: option.splits sum.splits bool.splits)
  qed
qed simp

text \<open>C14: a drain returns. Whatever the sender answers and whichever calls fail, it has made at most
  thirteen external calls per row that the table held at its start, and at most twelve more: neither the
  send loop nor the retention loop, which measures the files again after every deleted row, can go on
  for ever.\<close>

theorem Drain_terminates:
  "case Drain w s send db net of (r, db', net') \<Rightarrow> sp_calls db' \<le> sp_calls db + 13 * length (sp_rows db) + 12"
proof -
  let ?batch = "drain_batch (sp_cfg s) (sp_rows db)"
  have len: "length ?batch \<le> length (sp_rows db)" by (simp add: drain_batch_def sql_limit_def)
  obtain r db1 where q: "sp_query w ?batch db = (r, db1)" by fastforce
  have b1: "sp_calls db1 \<le> sp_calls db + 2 * length (sp_rows db) + 2" "sp_rows db1 = sp_rows db"
    using sp_query_bound [OF q] sp_query_frame [OF q] len by (simp_all add: same_tables_def)
  show ?thesis
  proof (cases r)
    case (Inl x)
    then show ?thesis using q b1 by (cases x; cases "fst x") (auto simp: Drain_def)
  next
    case (Inr batch)
    let ?st = "zero_stats\<lparr>Considered := int (length batch)\<rparr>"
    have batch: "batch = ?batch" using q Inr by (auto simp: sp_query_def dest: sql_query_Inr split: prod.splits)
    obtain now db2 where n: "sp_now w db1 = (now, db2)" by fastforce
    have b2: "sp_calls db2 = Suc (sp_calls db1)" "sp_rows db2 = sp_rows db1"
      using sp_now_bound [OF n] sp_now_frame [OF n] by (simp_all add: same_tables_def)
    obtain st1 e db3 net1 where l: "drain_loop w (sp_cfg s) send now batch ?st db2 net = ((st1, e), db3, net1)"
      by (metis prod.exhaust)
    have b3: "sp_calls db3 \<le> sp_calls db + 4 * length (sp_rows db) + 3" "length (sp_rows db3) \<le> length (sp_rows db)"
      using drain_loop_bound [OF l] b1 b2 len by (simp_all add: batch)
    have "sp_calls (snd (enforceRetention w s 0 db3)) \<le> sp_calls db + 13 * length (sp_rows db) + 12"
      using enforceRetention_bound [of w s 0 db3] b3 by simp
    then show ?thesis
      using q Inr n l b3 by (auto simp: Drain_def Let_def split: option.splits prod.splits)
  qed
qed

end
