(* ===== verification/Ticket.thy ===== *)
theory Ticket
  imports NLM_Prelude "HOL-Library.AList"
begin

text \<open>
  WebSocket tickets (\<open>internal/ticket/store.go\<close>) and the limiter of failed validations
  (\<open>internal/ticket/ratelimit.go\<close>). Both keep a Go map behind a mutex; a method runs under the
  lock, so it is one step, and the map is an association list with distinct keys. Every method
  takes the reading of the clock it makes, and \<open>Issue\<close> the outcome of \<open>rand.Read\<close>.
\<close>

section \<open>Base64 of a ticket value\<close>

text \<open>\<open>base64.RawURLEncoding\<close>: three bytes become four characters, without padding.\<close>

definition b64_alphabet :: string where
  "b64_alphabet = ''ABCDEFGHIJKLMNOPQRSTUVWXYZabcdefghijklmnopqrstuvwxyz0123456789-_''"

definition b64_char :: "nat \<Rightarrow> char" where
  "b64_char n = b64_alphabet ! (n mod 64)"

fun base64_raw_url :: "string \<Rightarrow> string" where
  "base64_raw_url [] = []"
| "base64_raw_url [a] =
     (let n = of_char a * 16 in [b64_char (n div 64), b64_char n])"
| "base64_raw_url [a, b] =
     (let n = (of_char a * 256 + of_char b) * 4
      in [b64_char (n div 4096), b64_char (n div 64), b64_char n])"
| "base64_raw_url (a # b # c # s) =
     (let n = (of_char a * 256 + of_char b) * 256 + of_char c
      in b64_char (n div 262144) # b64_char (n div 4096) # b64_char (n div 64) # b64_char n
         # base64_raw_url s)"

text \<open>The outcome of \<open>rand.Read\<close> on a 32-byte buffer.\<close>

type_synonym rand_read = "string + string"

definition newTicketValue :: "rand_read \<Rightarrow> string + string" where
  "newTicketValue rnd = (case rnd of Inl e \<Rightarrow> Inl e | Inr buf \<Rightarrow> Inr (base64_raw_url buf))"

section \<open>The ticket store\<close>

definition DefaultTTL :: duration where "DefaultTTL = 60 * second"
definition DefaultPruneInterval :: duration where "DefaultPruneInterval = 30 * second"

record ticket =
  tk_Value :: string
  tk_NodeID :: string
  tk_IssuedAt :: gotime
  tk_ExpiresAt :: gotime

record ticket_entry =
  te_nodeID :: string
  te_expiresAt :: gotime

record ticket_store =
  tickets :: "(string \<times> ticket_entry) list"
  ttl :: duration

datatype ticket_error = NodeIDRequired | RandError string | ErrUnknownTicket | ErrExpiredTicket

definition NewStore :: "duration \<Rightarrow> ticket_store" where
  "NewStore d = \<lparr>tickets = [], ttl = (if d \<le> 0 then DefaultTTL else d)\<rparr>"

definition Issue :: "gotime \<Rightarrow> rand_read \<Rightarrow> string \<Rightarrow> ticket_store \<Rightarrow>
    (ticket_error + ticket) \<times> ticket_store" where
  "Issue now rnd nodeID s =
     (if nodeID = [] then (Inl NodeIDRequired, s)
      else case newTicketValue rnd of
        Inl e \<Rightarrow> (Inl (RandError e), s)
      | Inr val \<Rightarrow>
          (let expires = time_add now (ttl s) in
           (Inr \<lparr>tk_Value = val, tk_NodeID = nodeID, tk_IssuedAt = now, tk_ExpiresAt = expires\<rparr>,
            s\<lparr>tickets := AList.update val \<lparr>te_nodeID = nodeID, te_expiresAt = expires\<rparr> (tickets s)\<rparr>)))"

definition Validate :: "gotime \<Rightarrow> string \<Rightarrow> ticket_store \<Rightarrow> (ticket_error + string) \<times> ticket_store" where
  "Validate now val s =
     (case map_of (tickets s) val of
        None \<Rightarrow> (Inl ErrUnknownTicket, s)
      | Some e \<Rightarrow>
          (let s1 = s\<lparr>tickets := AList.delete val (tickets s)\<rparr> in
           if time_after now (te_expiresAt e) then (Inl ErrExpiredTicket, s1)
           else (Inr (te_nodeID e), s1)))"

text \<open>The loop of \<open>Prune\<close> over the map's entries.\<close>

fun prune_loop :: "gotime \<Rightarrow> (string \<times> ticket_entry) list \<Rightarrow> go_int \<Rightarrow> ticket_store \<Rightarrow> go_int \<times> ticket_store" where
  "prune_loop now [] n s = (n, s)"
| "prune_loop now ((k, e) # kes) n s =
     (if time_after now (te_expiresAt e)
      then prune_loop now kes (n + 1) (s\<lparr>tickets := AList.delete k (tickets s)\<rparr>)
      else prune_loop now kes n s)"

definition Prune :: "gotime \<Rightarrow> ticket_store \<Rightarrow> go_int \<times> ticket_store" where
  "Prune now s = prune_loop now (tickets s) 0 s"

text \<open>\<open>RunPruner\<close> prunes at every tick until its context is cancelled; \<open>ticks\<close> are the clock
  readings at the ticks before that.\<close>

definition pruner_interval :: "duration \<Rightarrow> duration" where
  "pruner_interval i = (if i \<le> 0 then DefaultPruneInterval else i)"

fun RunPruner :: "gotime list \<Rightarrow> ticket_store \<Rightarrow> ticket_store" where
  "RunPruner [] s = s"
| "RunPruner (t # ts) s = RunPruner ts (snd (Prune t s))"

definition store_Len :: "ticket_store \<Rightarrow> go_int" where
  "store_Len s = int (length (tickets s))"

section \<open>The rate limiter\<close>

definition DefaultBlockDuration :: duration where "DefaultBlockDuration = 60 * second"
definition DefaultWindow :: duration where "DefaultWindow = 60 * second"

record ip_state =
  ip_count :: go_int
  windowStart :: gotime
  blockedUntil :: gotime

record rate_limiter =
  failures :: "(string \<times> ip_state) list"
  rl_limit :: go_int
  rl_window :: duration
  rl_block :: duration

definition NewRateLimiter :: "go_int \<Rightarrow> duration \<Rightarrow> duration \<Rightarrow> rate_limiter" where
  "NewRateLimiter limit0 win blk =
     \<lparr>failures = [], rl_limit = (if limit0 \<le> 0 then 10 else limit0),
      rl_window = (if win \<le> 0 then DefaultWindow else win),
      rl_block = (if blk \<le> 0 then DefaultBlockDuration else blk)\<rparr>"

definition Blocked :: "gotime \<Rightarrow> string \<Rightarrow> rate_limiter \<Rightarrow> bool" where
  "Blocked now ip r =
     (case map_of (failures r) ip of
        None \<Rightarrow> False
      | Some st \<Rightarrow> time_before now (blockedUntil st))"

text \<open>The update of one address's state; \<open>blockedUntil\<close> of a fresh state is the zero time.\<close>

definition record_state :: "gotime \<Rightarrow> rate_limiter \<Rightarrow> ip_state \<Rightarrow> bool \<times> ip_state" where
  "record_state now r st =
     (if time_before now (blockedUntil st) then (False, st)
      else
        (let st1 = (if time_sub now (windowStart st) > rl_window r
                    then st\<lparr>ip_count := 0, windowStart := now\<rparr> else st);
             st2 = st1\<lparr>ip_count := ip_count st1 + 1\<rparr>
         in if ip_count st2 \<ge> rl_limit r
            then (True, st2\<lparr>blockedUntil := time_add now (rl_block r)\<rparr>)
            else (False, st2)))"

definition RecordFailure :: "gotime \<Rightarrow> string \<Rightarrow> rate_limiter \<Rightarrow> bool \<times> rate_limiter" where
  "RecordFailure now ip r =
     (let st = (case map_of (failures r) ip of
                  Some st \<Rightarrow> st
                | None \<Rightarrow> \<lparr>ip_count = 0, windowStart = now, blockedUntil = 0\<rparr>);
          (b, st') = record_state now r st
      in (b, r\<lparr>failures := AList.update ip st' (failures r)\<rparr>))"

definition ip_expired :: "gotime \<Rightarrow> rate_limiter \<Rightarrow> ip_state \<Rightarrow> bool" where
  "ip_expired now r st \<longleftrightarrow>
     time_after now (blockedUntil st) \<and> time_sub now (windowStart st) > rl_window r"

fun prune_ips :: "gotime \<Rightarrow> (string \<times> ip_state) list \<Rightarrow> go_int \<Rightarrow> rate_limiter \<Rightarrow> go_int \<times> rate_limiter" where
  "prune_ips now [] n r = (n, r)"
| "prune_ips now ((ip, st) # es) n r =
     (if ip_expired now r st
      then prune_ips now es (n + 1) (r\<lparr>failures := AList.delete ip (failures r)\<rparr>)
      else prune_ips now es n r)"

definition PruneExpired :: "gotime \<Rightarrow> rate_limiter \<Rightarrow> go_int \<times> rate_limiter" where
  "PruneExpired now r = prune_ips now (failures r) 0 r"

end
