(* ===== verification/Ticket_Props.thy ===== *)
theory Ticket_Props
  imports Ticket
begin

text \<open>
  Tickets are single-use, bound to the node they were issued to and to their lifetime; an address
  that has failed too often stays blocked for the whole block, whatever else happens.
\<close>

section \<open>Ticket values\<close>

lemma distinct_b64_alphabet: "distinct b64_alphabet" "length b64_alphabet = 64"
  by (simp_all add: b64_alphabet_def)

lemma b64_char_eq: "b64_char m = b64_char n \<longleftrightarrow> m mod 64 = n mod 64"
  unfolding b64_char_def
  by (subst nth_eq_iff_index_eq) (simp_all add: distinct_b64_alphabet)

lemma char_digits:
  assumes "(m::nat) * 256 + of_char b = n * 256 + of_char d"
  shows "m = n \<and> b = d"
proof -
  have "(m * 256 + of_char b) div 256 = m" "(m * 256 + of_char b) mod 256 = of_char b" for m :: nat and b
    by simp_all
  then have "m = n" "(of_char b :: nat) = of_char d" using assms by metis+
  then show ?thesis by simp
qed

lemma of_char_le_255: "of_char c \<le> (255::nat)"
  using nat_of_char_less_256 [of c] by linarith

lemma digit_step: "(m::nat) div k = n div k \<Longrightarrow> m mod k = n mod k \<Longrightarrow> m = n"
  by (metis div_mult_mod_eq)

lemma digits2:
  assumes "(m::nat) < 4096" "n < 4096" "m div 64 mod 64 = n div 64 mod 64" "m mod 64 = n mod 64"
  shows "m = n"
proof -
  have "m div 64 < 64" "n div 64 < 64" using assms(1,2) by simp_all
  then have "m div 64 = n div 64" using assms(3) by simp
  then show ?thesis using assms(4) by (rule digit_step)
qed

lemma digits3:
  assumes "(m::nat) < 262144" "n < 262144" "m div 4096 mod 64 = n div 4096 mod 64"
    "m div 64 mod 64 = n div 64 mod 64" "m mod 64 = n mod 64"
  shows "m = n"
proof -
  have e: "k div 64 div 64 = k div 4096" for k :: nat by (simp add: div_mult2_eq [symmetric])
  have "m div 64 < 4096" "n div 64 < 4096" using assms(1,2) by (simp_all add: less_mult_imp_div_less)
  then have "m div 64 = n div 64" by (rule digits2) (simp_all only: e assms)
  then show ?thesis using assms(5) by (rule digit_step)
qed

lemma digits4:
  assumes "(m::nat) < 16777216" "n < 16777216"
    and "m div 262144 mod 64 = n div 262144 mod 64" "m div 4096 mod 64 = n div 4096 mod 64"
    and "m div 64 mod 64 = n div 64 mod 64" "m mod 64 = n mod 64"
  shows "m = n"
proof -
  have e: "k div 64 div 64 = k div 4096" "k div 64 div 4096 = k div 262144" for k :: nat
    by (simp_all add: div_mult2_eq [symmetric])
  have "m div 64 < 262144" "n div 64 < 262144" using assms(1,2) by (simp_all add: less_mult_imp_div_less)
  then have "m div 64 = n div 64" by (rule digits3) (simp_all only: e assms)
  then show ?thesis using assms(6) by (rule digit_step)
qed

lemma base64_length:
  "length (base64_raw_url s) = (length s * 4 + 2) div 3"
  by (induction s rule: base64_raw_url.induct) (simp_all add: Let_def)

lemma base64_inj:
  "length s = length t \<Longrightarrow> base64_raw_url s = base64_raw_url t \<Longrightarrow> s = t"
proof (induction s arbitrary: t rule: base64_raw_url.induct)
  case (2 a)
  from "2.prems"(1) obtain x where t: "t = [x]" by (cases t) auto
  let ?m = "of_char a * 16 :: nat" and ?n = "of_char x * 16 :: nat"
  have lt: "?m < 4096" "?n < 4096"
    using of_char_le_255 [of a] of_char_le_255 [of x] by linarith+
  have "?m div 64 mod 64 = ?n div 64 mod 64" "?m mod 64 = ?n mod 64"
    using "2.prems"(2) t by (simp_all only: base64_raw_url.simps Let_def list.inject b64_char_eq)
  from digits2 [OF lt this] have "?m = ?n" .
  then show ?case using t by simp
next
  case (3 a b)
  from "3.prems"(1) obtain x y where t: "t = [x, y]" by (auto simp: length_Suc_conv Suc_length_conv)
  let ?m = "of_char a * 256 + of_char b :: nat" and ?n = "of_char x * 256 + of_char y :: nat"
  have "?m \<le> 65535" "?n \<le> 65535"
    using of_char_le_255 [of a] of_char_le_255 [of b] of_char_le_255 [of x]
      of_char_le_255 [of y] by linarith+
  moreover have "k \<le> 65535 \<Longrightarrow> k * 4 < 262144" for k :: nat by simp
  ultimately have lt: "?m * 4 < 262144" "?n * 4 < 262144" by blast+
  have "?m * 4 div 4096 mod 64 = ?n * 4 div 4096 mod 64"
    "?m * 4 div 64 mod 64 = ?n * 4 div 64 mod 64" "?m * 4 mod 64 = ?n * 4 mod 64"
    using "3.prems"(2) t by (simp_all only: base64_raw_url.simps Let_def list.inject b64_char_eq)
  from digits3 [OF lt this] have "?m * 4 = ?n * 4" .
  then show ?case using t char_digits [of "of_char a" b "of_char x" y] by simp
next
  case (4 a b c s)
  from "4.prems"(1) obtain x y z u where t: "t = x # y # z # u" "length s = length u"
    by (auto simp: length_Suc_conv Suc_length_conv)
  let ?m = "(of_char a * 256 + of_char b) * 256 + of_char c :: nat"
  let ?n = "(of_char x * 256 + of_char y) * 256 + of_char z :: nat"
  have "i \<le> 255 \<Longrightarrow> j \<le> 255 \<Longrightarrow> k \<le> 255 \<Longrightarrow> (i * 256 + j) * 256 + k < 16777216" for i j k :: nat
    by simp
  then have lt: "?m < 16777216" "?n < 16777216" using of_char_le_255 by blast+
  have eqs: "?m div 262144 mod 64 = ?n div 262144 mod 64" "?m div 4096 mod 64 = ?n div 4096 mod 64"
    "?m div 64 mod 64 = ?n div 64 mod 64" "?m mod 64 = ?n mod 64"
    and rest: "base64_raw_url s = base64_raw_url u"
    using "4.prems"(2) t by (simp_all only: base64_raw_url.simps Let_def list.inject b64_char_eq)
  from digits4 [OF lt eqs] have "?m = ?n" .
  then have "c = z" "(of_char a * 256 + of_char b :: nat) = of_char x * 256 + of_char y"
    using char_digits [of "of_char a * 256 + of_char b" c "of_char x * 256 + of_char y" z] by simp_all
  then show ?case using char_digits [of "of_char a" b "of_char x" y] t "4.IH" rest by simp
qed simp

section \<open>Runs of the store\<close>

text \<open>The store is shared by the requests and the pruner; since every method holds the lock, a history
  is a sequence of operations.\<close>

datatype ticket_op = OpIssue gotime rand_read string | OpValidate gotime string | OpPrune gotime

datatype ticket_result =
  RIssued "ticket_error + ticket" | RValidated "ticket_error + string" | RPruned go_int

fun ticket_do :: "ticket_op \<Rightarrow> ticket_store \<Rightarrow> ticket_result \<times> ticket_store" where
  "ticket_do (OpIssue t rnd n) s = map_prod RIssued id (Issue t rnd n s)"
| "ticket_do (OpValidate t v) s = map_prod RValidated id (Validate t v s)"
| "ticket_do (OpPrune t) s = map_prod RPruned id (Prune t s)"

fun ticket_run :: "ticket_op list \<Rightarrow> ticket_store \<Rightarrow> (ticket_op \<times> ticket_result) list" where
  "ticket_run [] s = []"
| "ticket_run (x # xs) s = (case ticket_do x s of (r, s1) \<Rightarrow> (x, r) # ticket_run xs s1)"

fun redeems :: "string \<Rightarrow> ticket_op \<times> ticket_result \<Rightarrow> bool" where
  "redeems v (OpValidate t v', RValidated (Inr n)) = (v' = v)"
| "redeems v _ = False"

fun issues :: "string \<Rightarrow> ticket_op \<times> ticket_result \<Rightarrow> bool" where
  "issues v (OpIssue t rnd n, RIssued (Inr tk)) = (tk_Value tk = v)"
| "issues v _ = False"

lemma prune_loop_tickets:
  "prune_loop now kes n s = (m, s') \<Longrightarrow>
   (\<forall>v. map_of (tickets s') v = None \<or> map_of (tickets s') v = map_of (tickets s) v) \<and> ttl s' = ttl s"
proof (induction now kes n s arbitrary: m s' rule: prune_loop.induct)
  case (2 now k e kes n s)
  then show ?case
    by (auto split: if_splits simp: delete_conv fun_upd_def)
qed simp

lemma Prune_tickets:
  assumes "Prune now s = (m, s')"
  shows "map_of (tickets s') v = None \<or> map_of (tickets s') v = map_of (tickets s) v" "ttl s' = ttl s"
  using prune_loop_tickets [OF assms [unfolded Prune_def]] by blast+

lemma Issue_tickets:
  assumes "Issue t rnd n s = (r, s')"
  shows "map_of (tickets s') v =
      (case r of Inr tk \<Rightarrow> if tk_Value tk = v then Some \<lparr>te_nodeID = n, te_expiresAt = t + ttl s\<rparr>
                          else map_of (tickets s) v
       | Inl _ \<Rightarrow> map_of (tickets s) v)" "ttl s' = ttl s"
  using assms
  by (auto simp: Issue_def Let_def update_conv time_add_def split: if_splits sum.splits)

lemma Validate_tickets:
  assumes "Validate t v' s = (r, s')"
  shows "map_of (tickets s') v = (if v = v' then None else map_of (tickets s) v)" "ttl s' = ttl s"
  using assms by (auto simp: Validate_def Let_def delete_conv split: if_splits option.splits)

lemma Validate_Inr:
  assumes "Validate t v s = (Inr n, s')"
  shows "\<exists>e. map_of (tickets s) v = Some e \<and> te_nodeID e = n \<and> t \<le> te_expiresAt e"
  using assms by (auto simp: Validate_def Let_def time_after_def split: if_splits option.splits)

definition held :: "string \<Rightarrow> ticket_store \<Rightarrow> nat" where
  "held v s = (if map_of (tickets s) v = None then 0 else 1)"

lemma ticket_do_held:
  assumes "ticket_do x s = (r, s')"
  shows "(if redeems v (x, r) then 1 else 0) + held v s' \<le> (if issues v (x, r) then 1 else 0) + held v s"
proof (cases x)
  case (OpIssue t rnd n)
  then obtain a where "Issue t rnd n s = (a, s')" "r = RIssued a"
    using assms by (cases "Issue t rnd n s") auto
  then show ?thesis
    using Issue_tickets(1) [of t rnd n s a s' v] OpIssue by (cases a) (auto simp: held_def)
next
  case (OpValidate t v')
  then obtain a where a: "Validate t v' s = (a, s')" "r = RValidated a"
    using assms by (cases "Validate t v' s") auto
  show ?thesis
  proof (cases a)
    case (Inr n)
    then show ?thesis
      using Validate_tickets(1) [OF a(1), of v] Validate_Inr [of t v' s n s'] a OpValidate
      by (auto simp: held_def)
  qed (use Validate_tickets(1) [OF a(1), of v] a OpValidate in \<open>auto simp: held_def\<close>)
next
  case (OpPrune t)
  then obtain m where "Prune t s = (m, s')" "r = RPruned m"
    using assms by (cases "Prune t s") auto
  then show ?thesis using Prune_tickets(1) [of t s m s' v] OpPrune by (auto simp: held_def)
qed

lemma ticket_run_held:
  "length (filter (redeems v) (ticket_run ops s)) \<le> length (filter (issues v) (ticket_run ops s)) + held v s"
proof (induction ops arbitrary: s)
  case (Cons x ops)
  obtain r s1 where d: "ticket_do x s = (r, s1)" by fastforce
  show ?case using Cons.IH [of s1] ticket_do_held [OF d, of v] d by (auto split: if_splits)
qed simp

text \<open>C16: in every history of a new store, under any clock, a ticket value is redeemed at most as often
  as it was issued. With fresh random values this is once.\<close>

theorem ticket_single_use:
  "length (filter (redeems v) (ticket_run ops (NewStore d)))
     \<le> length (filter (issues v) (ticket_run ops (NewStore d)))"
  using ticket_run_held [of v ops "NewStore d"] by (simp add: held_def NewStore_def)

lemma ticket_do_origin:
  assumes "ticket_do x s = (r, s1)" "map_of (tickets s1) v = Some e"
  shows "map_of (tickets s) v = Some e \<or>
    (\<exists>t0 rnd tk. x = OpIssue t0 rnd (te_nodeID e) \<and> r = RIssued (Inr tk) \<and> tk_Value tk = v \<and>
       te_expiresAt e = t0 + ttl s)"
proof (cases x)
  case (OpIssue t rnd n)
  then obtain a where a: "Issue t rnd n s = (a, s1)" "r = RIssued a"
    using assms by (cases "Issue t rnd n s") auto
  then show ?thesis
    using Issue_tickets(1) [OF a(1), of v] assms(2) OpIssue by (cases a) (auto split: if_splits)
next
  case (OpValidate t v')
  then obtain a where a: "Validate t v' s = (a, s1)" using assms by (cases "Validate t v' s") auto
  show ?thesis using Validate_tickets(1) [OF a, of v] assms(2) by (auto split: if_splits)
next
  case (OpPrune t)
  then obtain m where a: "Prune t s = (m, s1)" using assms by (cases "Prune t s") auto
  show ?thesis using Prune_tickets(1) [OF a, of v] assms(2) by auto
qed

lemma ticket_run_origin:
  assumes "i < length (ticket_run ops s)"
    and "ticket_run ops s ! i = (OpValidate t v, RValidated (Inr n))"
  shows "(\<exists>j t0 rnd tk. j < i \<and> ticket_run ops s ! j = (OpIssue t0 rnd n, RIssued (Inr tk)) \<and>
            tk_Value tk = v \<and> t \<le> t0 + ttl s) \<or>
         (\<exists>e. map_of (tickets s) v = Some e \<and> te_nodeID e = n \<and> t \<le> te_expiresAt e)"
  using assms
proof (induction ops arbitrary: s i)
  case (Cons x ops)
  obtain r s1 where d: "ticket_do x s = (r, s1)" by fastforce
  show ?case
  proof (cases i)
    case 0
    then have "Validate t v s = (Inr n, s1)" using Cons.prems d by (cases "Validate t v s") auto
    from Validate_Inr [OF this] show ?thesis by blast
  next
    case (Suc k)
    have tl: "ttl s1 = ttl s"
      using d by (cases x) (auto dest: Issue_tickets(2) Validate_tickets(2) Prune_tickets(2)
          simp: map_prod_def split: prod.splits)
    from Cons.IH [of k s1] Cons.prems d Suc consider
      (issued) j t0 rnd tk where "j < k" "ticket_run ops s1 ! j = (OpIssue t0 rnd n, RIssued (Inr tk))"
         "tk_Value tk = v" "t \<le> t0 + ttl s1"
      | (there) e where "map_of (tickets s1) v = Some e" "te_nodeID e = n" "t \<le> te_expiresAt e"
      by auto
    then show ?thesis
    proof cases
      case issued
      then have "\<exists>j t0 rnd tk. j < i \<and> ticket_run (x # ops) s ! j = (OpIssue t0 rnd n, RIssued (Inr tk)) \<and>
            tk_Value tk = v \<and> t \<le> t0 + ttl s"
        using d Suc tl by (intro exI [of _ "Suc j"] exI [of _ t0] exI [of _ rnd] exI [of _ tk]) simp
      then show ?thesis by blast
    next
      case there
      show ?thesis using ticket_do_origin [OF d there(1)] there(2,3) d Suc by fastforce
    qed
  qed
qed simp

text \<open>C21: a ticket that is redeemed was issued earlier in the history, to the very node the redemption
  returns, and its lifetime has not elapsed.\<close>

theorem ticket_bound_to_issue:
  assumes "i < length (ticket_run ops (NewStore d))"
    and "ticket_run ops (NewStore d) ! i = (OpValidate t v, RValidated (Inr n))"
  shows "\<exists>j t0 rnd tk. j < i \<and> ticket_run ops (NewStore d) ! j = (OpIssue t0 rnd n, RIssued (Inr tk)) \<and>
           tk_Value tk = v \<and> t \<le> t0 + (if d \<le> 0 then 60 * second else d)"
  using ticket_run_origin [OF assms] by (auto simp: NewStore_def DefaultTTL_def)

definition sample_ops :: "ticket_op list" where
  "sample_ops = [OpIssue 100 (Inr ''abc'') ''node1'', OpPrune 105, OpValidate 110 ''YWJj'', OpValidate 111 ''YWJj'']"

lemma sample_ticket_run:
  "ticket_run sample_ops (NewStore 10) =
     [(OpIssue 100 (Inr ''abc'') ''node1'',
       RIssued (Inr \<lparr>tk_Value = ''YWJj'', tk_NodeID = ''node1'', tk_IssuedAt = 100, tk_ExpiresAt = 110\<rparr>)),
      (OpPrune 105, RPruned 0), (OpValidate 110 ''YWJj'', RValidated (Inr ''node1'')),
      (OpValidate 111 ''YWJj'', RValidated (Inl ErrUnknownTicket))]"
  by (simp add: sample_ops_def NewStore_def Issue_def newTicketValue_def Validate_def Prune_def
      time_defs b64_char_def b64_alphabet_def)

theorem ticket_bound_to_issue_witness:
  "ticket_run sample_ops (NewStore 10) ! 2 = (OpValidate 110 ''YWJj'', RValidated (Inr ''node1'')) \<and>
   (\<exists>j t0 rnd tk. j < 2 \<and> ticket_run sample_ops (NewStore 10) ! j = (OpIssue t0 rnd ''node1'', RIssued (Inr tk)) \<and>
      tk_Value tk = ''YWJj'' \<and> 110 \<le> t0 + 10)"
  using ticket_bound_to_issue [of 2 sample_ops 10 110 "''YWJj''" "''node1''"]
  by (simp add: sample_ticket_run)

text \<open>Two different random buffers of the same length never give the same ticket value.\<close>

theorem newTicketValue_inj:
  assumes "length a = length b" "newTicketValue (Inr a) = newTicketValue (Inr b)"
  shows "a = b"
  using assms by (auto simp: newTicketValue_def dest: base64_inj)

theorem newTicketValue_inj_witness: "newTicketValue (Inr ''abc'') \<noteq> newTicketValue (Inr ''abd'')"
  using newTicketValue_inj [of "''abc''" "''abd''"] by auto

section \<open>The rate limiter\<close>

text \<open>What can happen to the limiter: a failed validation from some address, or a sweep.\<close>

datatype limiter_op = Fails gotime string | Sweep gotime

fun limiter_time :: "limiter_op \<Rightarrow> gotime" where
  "limiter_time (Fails t ip) = t" | "limiter_time (Sweep t) = t"

fun limiter_do :: "limiter_op \<Rightarrow> rate_limiter \<Rightarrow> rate_limiter" where
  "limiter_do (Fails t ip) r = snd (RecordFailure t ip r)"
| "limiter_do (Sweep t) r = snd (PruneExpired t r)"

lemma prune_ips_map_of:
  "prune_ips now es n r = (m, r') \<Longrightarrow>
   (map_of (failures r') ip = map_of (failures r) ip \<or> map_of (failures r') ip = None \<and>
      (\<exists>st. (ip, st) \<in> set es \<and> ip_expired now r st)) \<and>
   rl_limit r' = rl_limit r \<and> rl_window r' = rl_window r \<and> rl_block r' = rl_block r"
proof (induction now es n r arbitrary: m r' rule: prune_ips.induct)
  case (2 now ip' st es n r)
  let ?r1 = "r\<lparr>failures := AList.delete ip' (failures r)\<rparr>"
  have e: "ip_expired now ?r1 = ip_expired now r" by (simp add: ip_expired_def fun_eq_iff)
  show ?case
  proof (cases "ip_expired now r st")
    case True
    from "2.prems" True have p: "prune_ips now es (n + 1) ?r1 = (m, r')" by simp
    show ?thesis using "2.IH"(1) [OF True p] True e by (auto simp: delete_conv split: if_splits)
  next
    case False
    from "2.prems" False have p: "prune_ips now es n r = (m, r')" by simp
    show ?thesis using "2.IH"(2) [OF False p] by auto
  qed
qed simp

lemma PruneExpired_map_of:
  assumes "distinct (map fst (failures r))" "map_of (failures r) ip = Some st" "\<not> ip_expired now r st"
  shows "map_of (failures (snd (PruneExpired now r))) ip = Some st"
proof -
  obtain m r' where p: "prune_ips now (failures r) 0 r = (m, r')" by fastforce
  have "st' = st" if "(ip, st') \<in> set (failures r)" for st'
    using that assms(1,2) by simp
  then show ?thesis
    using prune_ips_map_of [OF p, of ip] p assms(2,3) by (auto simp: PruneExpired_def)
qed

lemma prune_ips_distinct:
  "distinct (map fst (failures r)) \<Longrightarrow> distinct (map fst (failures (snd (prune_ips now es n r))))"
  by (induction now es n r rule: prune_ips.induct) (auto simp: distinct_delete)

definition limiter_ok :: "rate_limiter \<Rightarrow> bool" where
  "limiter_ok r \<longleftrightarrow> distinct (map fst (failures r))"

lemma RecordFailure_map_of:
  "map_of (failures (snd (RecordFailure now ip r))) ip' =
     (if ip' = ip
      then Some (snd (record_state now r (case map_of (failures r) ip of
             Some st \<Rightarrow> st | None \<Rightarrow> \<lparr>ip_count = 0, windowStart = now, blockedUntil = 0\<rparr>)))
      else map_of (failures r) ip')"
  by (simp add: RecordFailure_def Let_def update_conv split: prod.splits)

lemma RecordFailure_params [simp]:
  "rl_limit (snd (RecordFailure now ip r)) = rl_limit r"
  "rl_window (snd (RecordFailure now ip r)) = rl_window r"
  "rl_block (snd (RecordFailure now ip r)) = rl_block r"
  by (simp_all add: RecordFailure_def Let_def split: prod.splits)

lemma limiter_ok_do: "limiter_ok r \<Longrightarrow> limiter_ok (limiter_do x r)"
  by (cases x)
    (auto simp: limiter_ok_def RecordFailure_def PruneExpired_def Let_def distinct_update
      prune_ips_distinct split: prod.splits)

lemma limiter_do_blocked:
  assumes "limiter_ok r" "map_of (failures r) ip = Some st" "limiter_time x < blockedUntil st"
  shows "map_of (failures (limiter_do x r)) ip = Some st"
proof (cases x)
  case (Fails t ip')
  then show ?thesis
    using assms by (cases "ip' = ip") (simp_all add: RecordFailure_map_of record_state_def time_before_def)
next
  case (Sweep t)
  then have "\<not> ip_expired t r st" using assms(3) by (simp add: ip_expired_def time_after_def)
  then show ?thesis using PruneExpired_map_of assms Sweep by (simp add: limiter_ok_def)
qed

lemma limiter_blocked_fold:
  "limiter_ok r \<Longrightarrow> map_of (failures r) ip = Some st \<Longrightarrow> (\<forall>x \<in> set ops. limiter_time x < blockedUntil st) \<Longrightarrow>
   map_of (failures (fold limiter_do ops r)) ip = Some st"
  by (induction ops arbitrary: r) (simp_all add: limiter_ok_do limiter_do_blocked)

text \<open>C35: when a failure puts an address into a block, the address is blocked for the whole block
  duration: no further failure of any address and no sweep before its end shortens it, extends it or
  forgets it.\<close>

theorem block_lasts:
  assumes "limiter_ok r" "RecordFailure t ip r = (True, r1)"
    and "\<forall>x \<in> set ops. limiter_time x < t + rl_block r"
  shows "Blocked u ip (fold limiter_do ops r1) \<longleftrightarrow> u < t + rl_block r"
proof -
  define st where "st = snd (record_state t r (case map_of (failures r) ip of
     Some st \<Rightarrow> st | None \<Rightarrow> \<lparr>ip_count = 0, windowStart = t, blockedUntil = 0\<rparr>))"
  have r1: "r1 = limiter_do (Fails t ip) r" using assms(2) by simp
  have "map_of (failures r1) ip = Some st"
    using RecordFailure_map_of [of t ip r ip] r1 by (simp add: st_def)
  moreover have "blockedUntil st = t + rl_block r"
    using assms(2) unfolding st_def RecordFailure_def Let_def
    by (auto simp: record_state_def Let_def time_add_def split: if_splits prod.splits)
  ultimately have "map_of (failures (fold limiter_do ops r1)) ip = Some st"
    using limiter_blocked_fold [of r1 ip st ops] limiter_ok_do [OF assms(1), of "Fails t ip"] assms(3) r1 by simp
  then show ?thesis using \<open>blockedUntil st = _\<close> by (simp add: Blocked_def time_before_def)
qed

definition failure_times :: "string \<Rightarrow> (gotime \<times> string) list \<Rightarrow> gotime list" where
  "failure_times ip ops = map fst (filter (\<lambda>(t, ip'). ip' = ip) ops)"

definition fail_all :: "(gotime \<times> string) list \<Rightarrow> rate_limiter \<Rightarrow> rate_limiter" where
  "fail_all ops r = fold (\<lambda>(t, ip) r. snd (RecordFailure t ip r)) ops r"

lemma fail_all_snoc: "fail_all (ops @ [(t, ip)]) r = snd (RecordFailure t ip (fail_all ops r))"
  by (simp add: fail_all_def)

lemma fail_all_params [simp]:
  "rl_limit (fail_all ops r) = rl_limit r" "rl_window (fail_all ops r) = rl_window r"
  "rl_block (fail_all ops r) = rl_block r"
  by (induction ops rule: rev_induct) (auto simp: fail_all_def split_beta)

lemma failure_times_snoc:
  "failure_times ip (ops @ [(t, ip')]) = (if ip' = ip then failure_times ip ops @ [t] else failure_times ip ops)"
  by (simp add: failure_times_def)

definition in_window :: "rate_limiter \<Rightarrow> gotime list \<Rightarrow> bool" where
  "in_window r ts \<longleftrightarrow> 0 \<le> hd ts \<and> (\<forall>t \<in> set ts. hd ts \<le> t \<and> t - hd ts \<le> rl_window r)"

lemma in_window_snoc: "ts \<noteq> [] \<Longrightarrow> in_window r (ts @ [t]) \<Longrightarrow> in_window r ts \<and> hd ts \<le> t \<and> t - hd ts \<le> rl_window r"
  by (auto simp: in_window_def)

lemma record_state_counts:
  assumes "0 \<le> t" "t0 \<le> t" "t - t0 \<le> rl_window r"
  shows "snd (record_state t r \<lparr>ip_count = c, windowStart = t0, blockedUntil = 0\<rparr>) =
    \<lparr>ip_count = c + 1, windowStart = t0, blockedUntil = (if rl_limit r \<le> c + 1 then t + rl_block r else 0)\<rparr>"
proof -
  have "time_sub t t0 \<le> rl_window r" using assms(2,3) by (simp add: time_sub_def unit_defs)
  then show ?thesis using assms(1) by (simp add: record_state_def time_before_def time_add_def)
qed

lemma no_failures:
  "failure_times ip ops = [] \<Longrightarrow> map_of (failures (fail_all ops r)) ip = map_of (failures r) ip"
proof (induction ops rule: rev_induct)
  case (snoc x ops)
  then show ?case
    by (cases x) (auto simp: fail_all_snoc failure_times_snoc RecordFailure_map_of split: if_splits)
qed (simp add: fail_all_def)

lemma failures_counted:
  assumes "map_of (failures r) ip = None" "in_window r (failure_times ip ops)" "failure_times ip ops \<noteq> []"
    and "int (length (failure_times ip ops)) \<le> rl_limit r" "0 < rl_limit r"
  shows "map_of (failures (fail_all ops r)) ip =
    Some \<lparr>ip_count = int (length (failure_times ip ops)), windowStart = hd (failure_times ip ops),
      blockedUntil = (if int (length (failure_times ip ops)) = rl_limit r
                      then last (failure_times ip ops) + rl_block r else 0)\<rparr>"
  using assms
proof (induction ops rule: rev_induct)
  case Nil
  then show ?case by (simp add: failure_times_def)
next
  case (snoc x ops)
  obtain t ip' where x: "x = (t, ip')" by fastforce
  let ?ts = "failure_times ip ops"
  show ?case
  proof (cases "ip' = ip")
    case False
    then show ?thesis
      using snoc x by (simp add: fail_all_snoc RecordFailure_map_of failure_times_snoc)
  next
    case True
    show ?thesis
    proof (cases "?ts = []")
      case e: True
      have "map_of (failures (fail_all ops r)) ip = None"
        using snoc.prems(1) e no_failures by simp
      then show ?thesis
        using snoc.prems x True e record_state_counts [of t t r 0]
        by (simp add: fail_all_snoc RecordFailure_map_of failure_times_snoc in_window_def
            record_state_def time_before_def time_add_def time_sub_def unit_defs)
    next
      case ne: False
      note w = in_window_snoc [OF ne, of r t]
      have iw: "in_window r ?ts" "hd ?ts \<le> t" "t - hd ?ts \<le> rl_window r" "0 \<le> hd ?ts"
        using w snoc.prems(2) x True by (simp_all add: failure_times_snoc in_window_def)
      have len: "int (length ?ts) < rl_limit r" using snoc.prems(4) x True by (simp add: failure_times_snoc)
      have "map_of (failures (fail_all ops r)) ip =
          Some \<lparr>ip_count = int (length ?ts), windowStart = hd ?ts, blockedUntil = 0\<rparr>"
        using snoc.IH [OF snoc.prems(1) iw(1) ne _ snoc.prems(5)] len by simp
      then show ?thesis
        using x True ne iw len record_state_counts [of t "hd ?ts" "fail_all ops r" "int (length ?ts)"]
        by (simp add: fail_all_snoc RecordFailure_map_of failure_times_snoc)
    qed
  qed
qed

text \<open>An address without history is blocked exactly by its \<open>limit\<close>-th failure within one window,
  however the failures of other addresses interleave: fewer failures do not block it, and the
  \<open>limit\<close>-th blocks it until the block duration after that failure.\<close>

theorem block_threshold:
  assumes "map_of (failures r) ip = None" "0 < rl_limit r" "0 \<le> u"
    and "in_window r (failure_times ip ops)" "failure_times ip ops \<noteq> []"
    and "int (length (failure_times ip ops)) \<le> rl_limit r"
  shows "Blocked u ip (fail_all ops r) \<longleftrightarrow>
    int (length (failure_times ip ops)) = rl_limit r \<and> u < last (failure_times ip ops) + rl_block r"
  using failures_counted [OF assms(1,4,5,6,2)] assms(3) by (auto simp: Blocked_def time_before_def)

theorem block_threshold_witness:
  "Blocked 69 ''a'' (fail_all [(10, ''a''), (12, ''b''), (20, ''a'')] (NewRateLimiter 2 100 50)) \<and>
   \<not> Blocked 70 ''a'' (fail_all [(10, ''a''), (12, ''b''), (20, ''a'')] (NewRateLimiter 2 100 50))"
  using block_threshold [of "NewRateLimiter 2 100 50" "''a''" 69 "[(10, ''a''), (12, ''b''), (20, ''a'')]"]
    block_threshold [of "NewRateLimiter 2 100 50" "''a''" 70 "[(10, ''a''), (12, ''b''), (20, ''a'')]"]
  by (simp add: NewRateLimiter_def failure_times_def in_window_def)

theorem block_lasts_witness:
  "Blocked 49 ''a'' (fold limiter_do [Fails 10 ''a'', Sweep 40]
     (snd (RecordFailure 0 ''a'' (NewRateLimiter 1 100 50))))"
proof -
  have r: "RecordFailure 0 ''a'' (NewRateLimiter 1 100 50) =
      (True, snd (RecordFailure 0 ''a'' (NewRateLimiter 1 100 50)))"
    by (simp add: NewRateLimiter_def RecordFailure_def record_state_def time_defs unit_defs)
  show ?thesis
    using block_lasts [OF _ r, of "[Fails 10 ''a'', Sweep 40]" 49]
    by (simp add: limiter_ok_def NewRateLimiter_def)
qed

end
