(* ===== verification/Go_Lib.thy ===== *)
theory Go_Lib
  imports NLM_Prelude
begin

unbundle bit_operations_syntax

text \<open>
  The functions of Go's standard library the controller and the configuration use: decimal
  printing and parsing (\<open>strconv.Itoa\<close>, \<open>strconv.Atoi\<close>), \<open>Time.Format\<close> with the layout SQLite
  understands, \<open>encoding/hex\<close>, \<open>crypto/sha256\<close> and \<open>crypto/subtle.ConstantTimeCompare\<close>.
\<close>

section \<open>Decimal numbers\<close>

definition digit_char :: "nat \<Rightarrow> char" where
  "digit_char d = char_of (48 + d)"

fun nat_digits :: "nat \<Rightarrow> string" where
  "nat_digits n = (if n < 10 then [digit_char n] else nat_digits (n div 10) @ [digit_char (n mod 10)])"

declare nat_digits.simps [simp del]

definition itoa :: "int \<Rightarrow> string" where
  "itoa i = (if i < 0 then CHR ''-'' # nat_digits (nat (- i)) else nat_digits (nat i))"

definition is_digit :: "char \<Rightarrow> bool" where
  "is_digit c \<longleftrightarrow> 48 \<le> (of_char c :: nat) \<and> (of_char c :: nat) \<le> 57"

definition digit_val :: "char \<Rightarrow> int" where
  "digit_val c = int (of_char c) - 48"

definition digits_val :: "string \<Rightarrow> int" where
  "digits_val s = foldl (\<lambda>v c. v * 10 + digit_val c) 0 s"

text \<open>\<open>Atoi\<close>: an optional sign, then decimal digits, and the value must fit 64 bits.\<close>

datatype atoi_error = ErrSyntax | ErrRange

definition atoi :: "string \<Rightarrow> atoi_error + go_int" where
  "atoi s =
     (let (neg, ds) = (case s of
              c # cs \<Rightarrow> if c = CHR ''-'' then (True, cs) else if c = CHR ''+'' then (False, cs) else (False, s)
            | [] \<Rightarrow> (False, []))
      in if ds = [] \<or> \<not> list_all is_digit ds then Inl ErrSyntax
         else (let v = (if neg then - digits_val ds else digits_val ds)
               in if int64 v then Inr v else Inl ErrRange))"

lemma digits_val_snoc: "digits_val (ds @ [c]) = digits_val ds * 10 + digit_val c"
  by (simp add: digits_val_def)

lemma digit_char_val:
  assumes "d < 10"
  shows "digit_val (digit_char d) = int d \<and> is_digit (digit_char d)"
proof -
  have "(of_char (digit_char d) :: nat) = 48 + d"
    using assms by (simp add: digit_char_def)
  then show ?thesis using assms by (simp add: digit_val_def is_digit_def)
qed

lemma nat_digits_val: "digits_val (nat_digits n) = int n \<and> list_all is_digit (nat_digits n) \<and> nat_digits n \<noteq> []"
proof (induction n rule: nat_digits.induct)
  case (1 n)
  show ?case
  proof (cases "n < 10")
    case True
    then show ?thesis
      using digit_char_val [OF True] by (simp add: nat_digits.simps [of n] digits_val_def)
  next
    case False
    have "int (n div 10) * 10 + int (n mod 10) = int n" 
      by (metis div_mult_mod_eq of_nat_add of_nat_mult of_nat_numeral)
    then show ?thesis
      using 1 False digit_char_val [of "n mod 10"]
      by (simp add: nat_digits.simps [of n] digits_val_snoc)
  qed
qed

lemma nat_digits_no_sign: "hd (nat_digits n) \<noteq> CHR ''-'' \<and> hd (nat_digits n) \<noteq> CHR ''+''"
proof -
  obtain c cs where c: "nat_digits n = c # cs" "is_digit c"
    using nat_digits_val [of n] by (cases "nat_digits n") auto
  then show ?thesis by (auto simp: is_digit_def)
qed

lemma atoi_itoa:
  assumes "int64 i"
  shows "atoi (itoa i) = Inr i"
proof (cases "i < 0")
  case True
  then show ?thesis
    using assms nat_digits_val [of "nat (- i)"] by (simp add: atoi_def itoa_def)
next
  case False
  obtain c cs where c: "nat_digits (nat i) = c # cs"
    using nat_digits_val [of "nat i"] by (cases "nat_digits (nat i)") auto
  then show ?thesis
    using assms False nat_digits_val [of "nat i"] nat_digits_no_sign [of "nat i"]
    by (simp add: atoi_def itoa_def)
qed

lemma atoi_int64: "atoi s = Inr i \<Longrightarrow> int64 i"
  by (auto simp: atoi_def Let_def split: list.splits if_splits prod.splits)

section \<open>Dates\<close>

text \<open>The civil date of a day counted from 0001-01-01: years of 400-year cycles that begin in March.\<close>

definition civil :: "int \<Rightarrow> int \<times> int \<times> int" where
  "civil days =
     (let z = days + 306; era = z div 146097; doe = z mod 146097;
          yoe = (doe - doe div 1460 + doe div 36524 - doe div 146096) div 365;
          doy = doe - (365 * yoe + yoe div 4 - yoe div 100);
          mp = (5 * doy + 2) div 153;
          d = doy - (153 * mp + 2) div 5 + 1;
          m = (if mp < 10 then mp + 3 else mp - 9)
      in (yoe + era * 400 + (if m \<le> 2 then 1 else 0), m, d))"

definition pad :: "nat \<Rightarrow> int \<Rightarrow> string" where
  "pad k i = (let ds = nat_digits (nat \<bar>i\<bar>)
              in (if i < 0 then ''-'' else '''') @ replicate (k - length ds) (CHR ''0'') @ ds)"

text \<open>\<open>t.UTC().Format("2006-01-02 15:04:05")\<close>.\<close>

definition format_datetime :: "gotime \<Rightarrow> string" where
  "format_datetime t =
     (let secs = t div second; days = secs div 86400; s = secs mod 86400; (y, m, d) = civil days
      in pad 4 y @ ''-'' @ pad 2 m @ ''-'' @ pad 2 d @ '' '' @
         pad 2 (s div 3600) @ '':'' @ pad 2 (s div 60 mod 60) @ '':'' @ pad 2 (s mod 60))"

section \<open>Host and port\<close>

definition last_index :: "string \<Rightarrow> char \<Rightarrow> int" where
  "last_index s c = (let i = index_byte (rev s) c in if i < 0 then -1 else int (length s) - 1 - i)"

text \<open>The host \<open>net.SplitHostPort\<close> returns; \<open>None\<close> stands for its errors.\<close>

definition splitHostPort :: "string \<Rightarrow> string option" where
  "splitHostPort hp =
     (let i = last_index hp (CHR '':'') in
      if i < 0 then None
      else if hp \<noteq> [] \<and> hd hp = CHR ''['' then
        (let e = index_byte hp (CHR '']'') in
         if e < 0 then None
         else if e + 1 \<noteq> i then None
         else if CHR ''['' \<in> set (drop 1 hp) \<or> CHR '']'' \<in> set (drop (nat e + 1) hp) then None
         else Some (take (nat e - 1) (drop 1 hp)))
      else
        (let host = take (nat i) hp in
         if CHR '':'' \<in> set host \<or> CHR ''['' \<in> set hp \<or> CHR '']'' \<in> set hp then None else Some host))"

section \<open>Hexadecimal\<close>

definition hex_char :: "nat \<Rightarrow> char" where
  "hex_char d = ''0123456789abcdef'' ! (d mod 16)"

fun hex_encode :: "string \<Rightarrow> string" where
  "hex_encode [] = []"
| "hex_encode (c # s) = hex_char (of_char c div 16) # hex_char (of_char c mod 16) # hex_encode s"

definition from_hex :: "char \<Rightarrow> nat option" where
  "from_hex c =
     (let n = of_char c in
      if 48 \<le> n \<and> n \<le> 57 then Some (n - 48)
      else if 97 \<le> n \<and> n \<le> 102 then Some (n - 87)
      else if 65 \<le> n \<and> n \<le> 70 then Some (n - 55)
      else None)"

text \<open>\<open>hex.DecodeString\<close>; \<open>None\<close> stands for its two errors, an odd length and an invalid byte.\<close>

fun hex_decode :: "string \<Rightarrow> string option" where
  "hex_decode [] = Some []"
| "hex_decode [c] = None"
| "hex_decode (c # d # s) =
     (case (from_hex c, from_hex d, hex_decode s) of
        (Some a, Some b, Some r) \<Rightarrow> Some (char_of (a * 16 + b) # r)
      | _ \<Rightarrow> None)"

lemma from_hex_char:
  assumes "d < 16"
  shows "from_hex (hex_char d) = Some d"
proof -
  have "d \<in> {0,1,2,3,4,5,6,7,8,9,10,11,12,13,14,15}" using assms by (auto simp: numeral_eq_Suc less_Suc_eq)
  then show ?thesis by (auto simp: from_hex_def hex_char_def)
qed

lemma hex_roundtrip: "hex_decode (hex_encode s) = Some s"
proof (induction s)
  case (Cons c s)
  have "of_char c div 16 < (16::nat)" using nat_of_char_less_256 [of c] by linarith
  then show ?case using Cons by (simp add: from_hex_char)
qed simp

section \<open>SHA-256\<close>

definition sha_k :: "32 word list" where
  "sha_k = [
     1116352408, 1899447441, 3049323471, 3921009573, 961987163, 1508970993, 2453635748,
     2870763221, 3624381080, 310598401, 607225278, 1426881987, 1925078388, 2162078206,
     2614888103, 3248222580, 3835390401, 4022224774, 264347078, 604807628, 770255983,
     1249150122, 1555081692, 1996064986, 2554220882, 2821834349, 2952996808, 3210313671,
     3336571891, 3584528711, 113926993, 338241895, 666307205, 773529912, 1294757372,
     1396182291, 1695183700, 1986661051, 2177026350, 2456956037, 2730485921, 2820302411,
     3259730800, 3345764771, 3516065817, 3600352804, 4094571909, 275423344, 430227734,
     506948616, 659060556, 883997877, 958139571, 1322822218, 1537002063, 1747873779,
     1955562222, 2024104815, 2227730452, 2361852424, 2428436474, 2756734187, 3204031479,
     3329325298]"

definition sha_init :: "32 word list" where
  "sha_init = [1779033703, 3144134277, 1013904242, 2773480762,
               1359893119, 2600822924, 528734635, 1541459225]"

definition rotr :: "nat \<Rightarrow> 32 word \<Rightarrow> 32 word" where
  "rotr n x = (drop_bit n x) OR (push_bit (32 - n) x)"

definition be_bytes :: "nat \<Rightarrow> nat \<Rightarrow> string" where
  "be_bytes k n = map (\<lambda>i. char_of (n div 256 ^ (k - 1 - i))) [0..<k]"

definition sha_pad :: "string \<Rightarrow> string" where
  "sha_pad s = s @ [char_of (128::nat)] @
     replicate ((119 - length s mod 64) mod 64) (char_of (0::nat)) @ be_bytes 8 (length s * 8)"

fun be_words :: "string \<Rightarrow> 32 word list" where
  "be_words (a # b # c # d # s) =
     of_nat (((of_char a * 256 + of_char b) * 256 + of_char c) * 256 + of_char d) # be_words s"
| "be_words _ = []"

text \<open>The message schedule: the sixteen words of the block, extended to sixty-four.\<close>

definition sha_extend :: "32 word list \<Rightarrow> nat \<Rightarrow> 32 word list" where
  "sha_extend w i =
     (let x = w ! (i - 15); y = w ! (i - 2);
          s0 = rotr 7 x XOR rotr 18 x XOR drop_bit 3 x;
          s1 = rotr 17 y XOR rotr 19 y XOR drop_bit 10 y
      in w @ [w ! (i - 16) + s0 + w ! (i - 7) + s1])"

definition sha_schedule :: "32 word list \<Rightarrow> 32 word list" where
  "sha_schedule blk = foldl sha_extend blk [16..<64]"

fun sha_round :: "32 word list \<Rightarrow> 32 word \<times> 32 word \<Rightarrow> 32 word list" where
  "sha_round [a, b, c, d, e, f, g, h] (k, w) =
     (let t1 = h + (rotr 6 e XOR rotr 11 e XOR rotr 25 e) + ((e AND f) XOR ((NOT e) AND g)) + k + w;
          t2 = (rotr 2 a XOR rotr 13 a XOR rotr 22 a) + ((a AND b) XOR (a AND c) XOR (b AND c))
      in [t1 + t2, a, b, c, d + t1, e, f, g])"
| "sha_round v _ = v"

definition sha_block :: "32 word list \<Rightarrow> 32 word list \<Rightarrow> 32 word list" where
  "sha_block h blk = map2 (+) h (foldl sha_round h (zip sha_k (sha_schedule blk)))"

fun sha_blocks :: "nat \<Rightarrow> 32 word list \<Rightarrow> 32 word list \<Rightarrow> 32 word list" where
  "sha_blocks 0 h ws = h"
| "sha_blocks (Suc n) h ws = sha_blocks n (sha_block h (take 16 ws)) (drop 16 ws)"

definition sha256 :: "string \<Rightarrow> string" where
  "sha256 s = (let ws = be_words (sha_pad s)
               in concat (map (\<lambda>x. be_bytes 4 (unat x)) (sha_blocks (length ws div 16) sha_init ws)))"

section \<open>Constant-time comparison\<close>

text \<open>The byte-wise accumulation of differences, as \<open>subtle.ConstantTimeCompare\<close> and the code's own
  comparisons write it.\<close>

definition byte :: "char \<Rightarrow> 8 word" where
  "byte c = word_of_nat (of_char c)"

fun xor_fold :: "8 word \<Rightarrow> string \<Rightarrow> string \<Rightarrow> 8 word" where
  "xor_fold v (a # as) (b # bs) = xor_fold (v OR (byte a XOR byte b)) as bs"
| "xor_fold v _ _ = v"

definition constant_time_eq :: "string \<Rightarrow> string \<Rightarrow> bool" where
  "constant_time_eq a b \<longleftrightarrow> length a = length b \<and> xor_fold 0 a b = 0"

lemma byte_inj: "byte a = byte b \<longleftrightarrow> a = b"
proof -
  have "unat (byte c) = of_char c" for c
    using nat_of_char_less_256 [of c] by (simp add: byte_def unat_of_nat take_bit_eq_mod)
  then show ?thesis by (metis of_char_eq_iff)
qed

lemma byte_or_xor_0: "v OR (x XOR y) = 0 \<longleftrightarrow> v = 0 \<and> x = (y :: 8 word)"
proof
  assume h: "v OR (x XOR y) = 0"
  have "bit (v OR (x XOR y)) n = False" for n by (simp add: h)
  then have "\<not> bit v n \<and> bit x n = bit y n" for n by (simp only: bit_or_iff bit_xor_iff) blast
  then show "v = 0 \<and> x = y" by (simp only: bit_eq_iff bit_0_eq) auto
qed simp

lemma xor_fold_0: "length a = length b \<Longrightarrow> xor_fold v a b = 0 \<longleftrightarrow> v = 0 \<and> a = b"
proof (induction a b arbitrary: v rule: list_induct2)
  case (Cons x xs y ys)
  show ?case by (simp only: xor_fold.simps Cons.IH byte_or_xor_0 byte_inj list.inject) blast
qed simp

lemma constant_time_eq_iff [simp]: "constant_time_eq a b \<longleftrightarrow> a = b"
  by (auto simp: constant_time_eq_def xor_fold_0)

end
