(* ===== verification/Node_Store.thy ===== *)
theory Node_Store
  imports Go_Lib
begin

text \<open>
  The controller's database (\<open>internal/controller/migrations\<close>) and its registry of nodes
  (\<open>internal/controller/nodes.go\<close>). A table is the list of its rows; the constraints of the
  schema are enforced by the statements that could violate them: \<open>nodes.id\<close> is the primary key,
  \<open>nodes.role\<close> has a CHECK, and \<open>probe_results.source_id\<close> references \<open>nodes.id\<close> (foreign keys
  are switched on when the database is opened).
\<close>

section \<open>Data\<close>

definition RoleSpoke :: string where "RoleSpoke = ''spoke''"
definition RoleHub :: string where "RoleHub = ''hub''"
definition RoleListener :: string where "RoleListener = ''listener''"

lemmas role_defs = RoleSpoke_def RoleHub_def RoleListener_def

record node =
  nd_ID :: string
  nd_Role :: string
  nd_SecretHash :: string
  nd_Address :: string
  nd_Disabled :: bool

definition zero_node :: node where
  "zero_node = \<lparr>nd_ID = [], nd_Role = [], nd_SecretHash = [], nd_Address = [], nd_Disabled = False\<rparr>"

record node_row =
  nr_id :: string
  nr_role :: string
  nr_secret_hash :: string
  nr_address :: "string option"
  nr_disabled :: go_int
  nr_created_at :: string
  nr_last_seen_at :: "string option"
  nr_spool_depth :: go_int
  nr_spool_oldest_ts :: "string option"
  nr_spool_drops_total :: go_int
  nr_spool_updated_at :: "string option"

record result_row =
  rr_id :: go_int
  rr_source :: string
  rr_run :: string
  rr_target :: string
  rr_observed_at :: string
  rr_latency :: "rat option"
  rr_error :: "string option"
  rr_received_at :: string

record ctl_db =
  cd_nodes :: "node_row list"
  cd_results :: "result_row list"
  cd_next_id :: go_int
  cd_meta :: "string \<rightharpoonup> go_int"
  cd_calls :: nat

record spool_stats =
  ss_Depth :: go_int
  ss_OldestAgeSecs :: go_int
  ss_DropsTotal :: go_int
  ss_ObservedAt :: gotime
  ss_HasOldest :: bool

datatype ctl_error = ErrUnknownNode | ErrNoRows | CtlErr string string | DbErr string

text \<open>The tables after the migrations \<open>0001_init\<close> and \<open>0002_targets\<close> on an empty file.\<close>

definition ctl_init :: ctl_db where
  "ctl_init = \<lparr>cd_nodes = [], cd_results = [], cd_next_id = 1, cd_meta = [''targets_version'' \<mapsto> 1], cd_calls = 0\<rparr>"

section \<open>External calls\<close>

definition cd_call :: "world \<Rightarrow> ctl_db \<Rightarrow> string option \<times> ctl_db" where
  "cd_call w db = (fault w (cd_calls db), db\<lparr>cd_calls := Suc (cd_calls db)\<rparr>)"

definition cd_now :: "world \<Rightarrow> ctl_db \<Rightarrow> gotime \<times> ctl_db" where
  "cd_now w db = (clk w (cd_calls db), db\<lparr>cd_calls := Suc (cd_calls db)\<rparr>)"

definition cd_query :: "world \<Rightarrow> 'a list \<Rightarrow> ctl_db \<Rightarrow> 'a query_result \<times> ctl_db" where
  "cd_query w xs db =
     (case sql_query w xs (cd_calls db) of (r, n) \<Rightarrow> (r, db\<lparr>cd_calls := n\<rparr>))"

section \<open>Secrets\<close>

definition HashSecret :: "string \<Rightarrow> string" where
  "HashSecret secret = hex_encode (sha256 secret)"

definition VerifySecret :: "node \<Rightarrow> string \<Rightarrow> bool" where
  "VerifySecret n presented =
     (case hex_decode (nd_SecretHash n) of
        None \<Rightarrow> False
      | Some want \<Rightarrow> constant_time_eq want (sha256 presented))"

section \<open>Reading nodes\<close>

definition node_of :: "node_row \<Rightarrow> node" where
  "node_of r = \<lparr>nd_ID = nr_id r, nd_Role = nr_role r, nd_SecretHash = nr_secret_hash r,
     nd_Address = (case nr_address r of Some a \<Rightarrow> a | None \<Rightarrow> []), nd_Disabled = (nr_disabled r \<noteq> 0)\<rparr>"

definition find_node :: "string \<Rightarrow> node_row list \<Rightarrow> node_row option" where
  "find_node i rs = List.find (\<lambda>r. nr_id r = i) rs"

definition node_Get :: "world \<Rightarrow> string \<Rightarrow> ctl_db \<Rightarrow> (ctl_error + node) \<times> ctl_db" where
  "node_Get w i db =
     (case cd_call w db of
        (Some e, db1) \<Rightarrow> (Inl (CtlErr ''controller: get node'' e), db1)
      | (None, db1) \<Rightarrow>
          (case find_node i (cd_nodes db1) of
             None \<Rightarrow> (Inl ErrUnknownNode, db1)
           | Some r \<Rightarrow> (Inr (node_of r), db1)))"

definition node_List :: "world \<Rightarrow> ctl_db \<Rightarrow> (node list \<times> ctl_error option) \<times> ctl_db" where
  "node_List w db =
     (case cd_query w (sort_key nr_id (cd_nodes db)) db of
        (Inl (QSelect, e, _), db1) \<Rightarrow> (([], Some (CtlErr ''controller: list nodes'' e)), db1)
      | (Inl (QScan, e, _), db1) \<Rightarrow> (([], Some (CtlErr ''controller: scan node'' e)), db1)
      | (Inl (QRows, e, rs), db1) \<Rightarrow> ((map node_of rs, Some (DbErr e)), db1)
      | (Inr rs, db1) \<Rightarrow> ((map node_of rs, None), db1))"

section \<open>The targets version\<close>

definition TargetsVersion :: "world \<Rightarrow> ctl_db \<Rightarrow> (ctl_error + go_int) \<times> ctl_db" where
  "TargetsVersion w db =
     (case cd_call w db of
        (Some e, db1) \<Rightarrow> (Inl (CtlErr ''controller: targets_version'' e), db1)
      | (None, db1) \<Rightarrow>
          (case cd_meta db1 ''targets_version'' of
             None \<Rightarrow> (Inl (CtlErr ''controller: targets_version'' ''sql: no rows in result set''), db1)
           | Some v \<Rightarrow> (Inr v, db1)))"

definition bumpTargetsVersion :: "world \<Rightarrow> ctl_db \<Rightarrow> ctl_error option \<times> ctl_db" where
  "bumpTargetsVersion w db =
     (case cd_call w db of
        (Some e, db1) \<Rightarrow> (Some (CtlErr ''controller: bump targets_version'' e), db1)
      | (None, db1) \<Rightarrow>
          (None, (case cd_meta db1 ''targets_version'' of
                    None \<Rightarrow> db1
                  | Some v \<Rightarrow> db1\<lparr>cd_meta := (cd_meta db1)(''targets_version'' \<mapsto> v + 1)\<rparr>)))"

definition hub_row :: "string \<Rightarrow> node_row \<Rightarrow> bool" where
  "hub_row nodeID r \<longleftrightarrow>
     nr_role r = ''hub'' \<and> nr_disabled r = 0 \<and> nr_address r \<noteq> None \<and> nr_address r \<noteq> Some [] \<and> nr_id r \<noteq> nodeID"

definition hub_node :: "node_row \<Rightarrow> node" where
  "hub_node r = zero_node\<lparr>nd_ID := nr_id r, nd_Role := nr_role r,
     nd_Address := (case nr_address r of Some a \<Rightarrow> a | None \<Rightarrow> [])\<rparr>"

definition hub_rows :: "string \<Rightarrow> ctl_db \<Rightarrow> node_row list" where
  "hub_rows nodeID db = sort_key nr_id (filter (hub_row nodeID) (cd_nodes db))"

definition HubTargetsFor :: "world \<Rightarrow> string \<Rightarrow> ctl_db \<Rightarrow> (ctl_error + node list \<times> go_int) \<times> ctl_db" where
  "HubTargetsFor w nodeID db =
     (case cd_query w (hub_rows nodeID db) db of
        (Inl (QSelect, e, _), db1) \<Rightarrow> (Inl (CtlErr ''controller: hub targets'' e), db1)
      | (Inl (QScan, e, _), db1) \<Rightarrow> (Inl (DbErr e), db1)
      | (Inl (QRows, e, _), db1) \<Rightarrow> (Inl (DbErr e), db1)
      | (Inr rs, db1) \<Rightarrow>
          (case TargetsVersion w db1 of
             (Inl e, db2) \<Rightarrow> (Inl e, db2)
           | (Inr v, db2) \<Rightarrow> (Inr (map hub_node rs, v), db2)))"

section \<open>Changing nodes\<close>

text \<open>\<open>DELETE FROM nodes WHERE id = ?\<close>: refused while results reference the node.\<close>

definition delete_node_stmt :: "world \<Rightarrow> string \<Rightarrow> ctl_db \<Rightarrow> (string + go_int) \<times> ctl_db" where
  "delete_node_stmt w i db =
     (case cd_call w db of
        (Some e, db1) \<Rightarrow> (Inl e, db1)
      | (None, db1) \<Rightarrow>
          (let n = length (filter (\<lambda>r. nr_id r = i) (cd_nodes db1)) in
           if n > 0 \<and> i \<in> rr_source ` set (cd_results db1) then (Inl (foreign_key_err w), db1)
           else (Inr (int n), db1\<lparr>cd_nodes := filter (\<lambda>r. nr_id r \<noteq> i) (cd_nodes db1)\<rparr>)))"

definition node_Delete :: "world \<Rightarrow> string \<Rightarrow> ctl_db \<Rightarrow> ctl_error option \<times> ctl_db" where
  "node_Delete w i db =
     (case node_Get w i db of
        (Inl e, db1) \<Rightarrow> (Some e, db1)
      | (Inr prior, db1) \<Rightarrow>
          (case delete_node_stmt w i db1 of
             (Inl e, db2) \<Rightarrow> (Some (CtlErr ''controller: delete node'' e), db2)
           | (Inr n, db2) \<Rightarrow>
               (case cd_call w db2 of
                  (Some e, db3) \<Rightarrow> (Some (CtlErr ''controller: delete rows'' e), db3)
                | (None, db3) \<Rightarrow>
                    if n = 0 then (Some ErrNoRows, db3)
                    else if nd_Role prior = RoleHub \<and> \<not> nd_Disabled prior
                    then (None, snd (bumpTargetsVersion w db3))
                    else (None, db3))))"

definition hubSetChanged :: "node \<Rightarrow> node \<Rightarrow> bool \<Rightarrow> bool" where
  "hubSetChanged prior nxt priorMissing =
     (let priorActive = (\<not> priorMissing \<and> nd_Role prior = RoleHub \<and> \<not> nd_Disabled prior \<and> nd_Address prior \<noteq> []);
          nextActive = (nd_Role nxt = RoleHub \<and> \<not> nd_Disabled nxt \<and> nd_Address nxt \<noteq> [])
      in if priorActive \<noteq> nextActive then True
         else if priorActive \<and> nextActive \<and> nd_Address prior \<noteq> nd_Address nxt then True
         else False)"

definition set_node :: "node \<Rightarrow> node_row \<Rightarrow> node_row" where
  "set_node n r = r\<lparr>nr_role := nd_Role n, nr_secret_hash := nd_SecretHash n,
     nr_address := (if nd_Address n \<noteq> [] then Some (nd_Address n) else None),
     nr_disabled := (if nd_Disabled n then 1 else 0)\<rparr>"

definition fresh_node_row :: "string \<Rightarrow> string \<Rightarrow> node_row" where
  "fresh_node_row ts i = \<lparr>nr_id = i, nr_role = [], nr_secret_hash = [], nr_address = None, nr_disabled = 0,
     nr_created_at = ts, nr_last_seen_at = None, nr_spool_depth = 0, nr_spool_oldest_ts = None,
     nr_spool_drops_total = 0, nr_spool_updated_at = None\<rparr>"

text \<open>\<open>INSERT ... ON CONFLICT(id) DO UPDATE\<close>, with the CHECK on the role.\<close>

definition upsert_stmt :: "world \<Rightarrow> node \<Rightarrow> ctl_db \<Rightarrow> string option \<times> ctl_db" where
  "upsert_stmt w n db =
     (case cd_call w db of
        (Some e, db1) \<Rightarrow> (Some e, db1)
      | (None, db1) \<Rightarrow>
          if nd_Role n \<notin> {''spoke'', ''hub'', ''listener''} then (Some (check_err w), db1)
          else if find_node (nd_ID n) (cd_nodes db1) \<noteq> None
          then (None, db1\<lparr>cd_nodes := map (\<lambda>r. if nr_id r = nd_ID n then set_node n r else r) (cd_nodes db1)\<rparr>)
          else (None, db1\<lparr>cd_nodes := cd_nodes db1 @
                  [set_node n (fresh_node_row (current_timestamp w (clk w (cd_calls db))) (nd_ID n))]\<rparr>))"

definition node_Upsert :: "world \<Rightarrow> node \<Rightarrow> ctl_db \<Rightarrow> ctl_error option \<times> ctl_db" where
  "node_Upsert w n db =
     (case node_Get w (nd_ID n) db of (got, db1) \<Rightarrow>
       (let priorMissing = (got = Inl ErrUnknownNode);
            prior = (case got of Inr p \<Rightarrow> p | Inl _ \<Rightarrow> zero_node)
        in case (got, priorMissing) of
             (Inl e, False) \<Rightarrow> (Some e, db1)
           | _ \<Rightarrow>
               (case upsert_stmt w n db1 of
                  (Some e, db2) \<Rightarrow> (Some (CtlErr ''controller: upsert node'' e), db2)
                | (None, db2) \<Rightarrow>
                    if hubSetChanged prior n priorMissing
                    then (None, snd (bumpTargetsVersion w db2))
                    else (None, db2))))"

definition set_spool_stats :: "spool_stats \<Rightarrow> node_row \<Rightarrow> node_row" where
  "set_spool_stats st r =
     (let oldest = (if ss_HasOldest st
                    then Some (format_datetime (time_add (ss_ObservedAt st)
                            (wrap64 (wrap64 (- ss_OldestAgeSecs st) * second))))
                    else None);
          now = format_datetime (ss_ObservedAt st)
      in r\<lparr>nr_spool_depth := ss_Depth st, nr_spool_oldest_ts := oldest,
           nr_spool_drops_total := ss_DropsTotal st, nr_spool_updated_at := Some now,
           nr_last_seen_at := Some now\<rparr>)"

definition UpdateSpoolStats :: "world \<Rightarrow> string \<Rightarrow> spool_stats \<Rightarrow> ctl_db \<Rightarrow> ctl_error option \<times> ctl_db" where
  "UpdateSpoolStats w i st db =
     (case cd_call w db of
        (Some e, db1) \<Rightarrow> (Some (CtlErr ''controller: update spool stats'' e), db1)
      | (None, db1) \<Rightarrow>
          (let n = length (filter (\<lambda>r. nr_id r = i) (cd_nodes db1));
               db2 = db1\<lparr>cd_nodes := map (\<lambda>r. if nr_id r = i then set_spool_stats st r else r) (cd_nodes db1)\<rparr>
           in case cd_call w db2 of
                (Some e, db3) \<Rightarrow> (Some (CtlErr ''controller: update spool stats rows'' e), db3)
              | (None, db3) \<Rightarrow> (if n = 0 then (Some ErrNoRows, db3) else (None, db3))))"

end
