(* ===== verification/Litestream.thy ===== *)
theory Litestream
  imports Go_Lib
begin

text \<open>
  Replication health: the tracker (\<open>internal/litestream/litestream.go\<close>), which the readiness check
  and the metrics read, and the watcher (\<open>internal/litestream/watcher.go\<close>), which feeds it from
  \<open>systemctl\<close> and the journal. A method of the tracker holds its lock and is one step; it takes the
  clock reading it makes. The watcher's clock readings are those of the world, and the commands it
  runs are a parameter \<open>query\<close> with a state of its own.
\<close>

section \<open>The tracker\<close>

record ls_status =
  LastSyncAt :: gotime
  ServiceActive :: bool
  Errors :: "64 word"
  LagMax :: duration

type_synonym tracker = ls_status

definition NewTracker :: "duration \<Rightarrow> tracker" where
  "NewTracker maxLag = \<lparr>LastSyncAt = 0, ServiceActive = False, Errors = 0, LagMax = maxLag\<rparr>"

definition RecordSync :: "gotime \<Rightarrow> gotime \<Rightarrow> tracker \<Rightarrow> tracker" where
  "RecordSync now at0 t =
     (let at1 = (if time_is_zero at0 then now else at0)
      in if time_after at1 (LastSyncAt t) then t\<lparr>LastSyncAt := at1\<rparr> else t)"

definition RecordError :: "tracker \<Rightarrow> tracker" where
  "RecordError t = t\<lparr>Errors := Errors t + 1\<rparr>"

definition SetServiceActive :: "bool \<Rightarrow> tracker \<Rightarrow> tracker" where
  "SetServiceActive active t = t\<lparr>ServiceActive := active\<rparr>"

definition tracker_Status :: "tracker \<Rightarrow> ls_status" where
  "tracker_Status t = t"

definition Lag :: "gotime \<Rightarrow> tracker \<Rightarrow> duration" where
  "Lag now t = (if time_is_zero (LastSyncAt t) then 2 ^ 62 - 1 else time_sub now (LastSyncAt t))"

definition Healthy :: "gotime \<Rightarrow> duration \<Rightarrow> tracker \<Rightarrow> bool" where
  "Healthy now maxLag t =
     (if \<not> ServiceActive t then False
      else if time_is_zero (LastSyncAt t) then False
      else time_sub now (LastSyncAt t) \<le> maxLag)"

section \<open>The watcher\<close>

record watcher_config =
  wc_Service :: string
  wc_PollInterval :: duration
  wc_InitialLookback :: duration

record watcher =
  wa_tracker :: tracker
  wa_service :: string
  wa_pollInterval :: duration
  wa_initialLookback :: duration
  wa_lastPoll :: gotime
  wa_calls :: nat

definition NewWatcher :: "tracker \<Rightarrow> watcher_config \<Rightarrow> watcher" where
  "NewWatcher t cfg =
     (let service = (if wc_Service cfg = [] then ''nlm-litestream.service'' else wc_Service cfg);
          interval = (if wc_PollInterval cfg \<le> 0 then 30 * second else wc_PollInterval cfg);
          lookback = (if wc_InitialLookback cfg \<le> 0 then interval else wc_InitialLookback cfg)
      in \<lparr>wa_tracker = t, wa_service = service, wa_pollInterval = interval, wa_initialLookback = lookback,
          wa_lastPoll = 0, wa_calls = 0\<rparr>)"

definition line_is_error :: "string \<Rightarrow> bool" where
  "line_is_error line =
     (let lower = to_lower line
      in str_contains lower ''error'' \<or> str_contains lower ''failed'' \<or> str_contains lower ''fatal'')"

definition line_is_sync :: "string \<Rightarrow> bool" where
  "line_is_sync line =
     (let lower = to_lower line
      in \<not> line_is_error line \<and>
         (str_contains lower ''snapshot'' \<or> str_contains lower ''wal segment'' \<or>
          str_contains lower ''replicated'' \<or> str_contains lower ''synced''))"

definition wa_now :: "world \<Rightarrow> watcher \<Rightarrow> gotime \<times> watcher" where
  "wa_now w wa = (clk w (wa_calls wa), wa\<lparr>wa_calls := Suc (wa_calls wa)\<rparr>)"

definition parseLine :: "world \<Rightarrow> string \<Rightarrow> watcher \<Rightarrow> watcher" where
  "parseLine w line wa =
     (if line_is_error line then wa\<lparr>wa_tracker := RecordError (wa_tracker wa)\<rparr>
      else if line_is_sync line
      then (case wa_now w wa of (now, wa1) \<Rightarrow> wa1\<lparr>wa_tracker := RecordSync now 0 (wa_tracker wa1)\<rparr>)
      else wa)"

text \<open>\<open>bufio.Scanner\<close> by lines: a final empty line is not a token, a carriage return before the
  line break is dropped, and a line that does not fit the 64 KiB buffer ends the scan.\<close>

definition drop_cr :: "string \<Rightarrow> string" where
  "drop_cr s = (if s \<noteq> [] \<and> last s = CHR 0x0D then butlast s else s)"

definition scan_lines :: "string \<Rightarrow> string list" where
  "scan_lines out =
     (let ls = split_on (CHR 0x0A) out;
          ls' = (if last ls = [] then butlast ls else ls)
      in map drop_cr (takeWhile (\<lambda>l. length l < 65536) ls'))"

text \<open>A \<open>Querier\<close> runs a command and returns its output and its error; \<open>zone\<close> is the offset of the
  local time zone, in which \<open>journalctl\<close> reads \<open>--since\<close>.\<close>

type_synonym 'q querier = "'q \<Rightarrow> string list \<Rightarrow> (string \<times> string option) \<times> 'q"

definition FormatSince :: "(gotime \<Rightarrow> duration) \<Rightarrow> gotime \<Rightarrow> string" where
  "FormatSince zone t = format_datetime (t + zone t)"

definition poll :: "world \<Rightarrow> (gotime \<Rightarrow> duration) \<Rightarrow> 'q querier \<Rightarrow> 'q \<Rightarrow> watcher \<Rightarrow> 'q \<times> watcher" where
  "poll w zone query q wa =
     (case query q [''systemctl'', ''is-active'', ''--quiet'', wa_service wa] of ((_, err), q1) \<Rightarrow>
       (let wa1 = wa\<lparr>wa_tracker := SetServiceActive (err = None) (wa_tracker wa)\<rparr>;
            since0 = wa_lastPoll wa1;
            (now, wa2) = wa_now w wa1;
            wa3 = wa2\<lparr>wa_lastPoll := now\<rparr>;
            since = (if time_is_zero since0 then time_add now (wrap64 (- wa_initialLookback wa3)) else since0)
        in case query q1 [''journalctl'', ''-u'', wa_service wa3, ''--since'', FormatSince zone since,
                          ''--no-pager'', ''-o'', ''short-iso''] of
             ((out, err2), q2) \<Rightarrow>
               if err2 \<noteq> None \<or> out = [] then (q2, wa3)
               else (q2, fold (parseLine w) (scan_lines out) wa3)))"

text \<open>\<open>Run\<close> polls once and then at every tick until the context is cancelled, here after \<open>n\<close> ticks.\<close>

fun watcher_Run :: "world \<Rightarrow> (gotime \<Rightarrow> duration) \<Rightarrow> 'q querier \<Rightarrow> nat \<Rightarrow> 'q \<Rightarrow> watcher \<Rightarrow> 'q \<times> watcher" where
  "watcher_Run w zone query 0 q wa = poll w zone query q wa"
| "watcher_Run w zone query (Suc n) q wa =
     (case watcher_Run w zone query n q wa of (q1, wa1) \<Rightarrow> poll w zone query q1 wa1)"

definition ServiceName :: "watcher \<Rightarrow> string" where
  "ServiceName wa = wa_service wa"

section \<open>Properties of the tracker\<close>

lemma Healthy_iff_Lag:
  "Healthy now maxLag t \<longleftrightarrow> ServiceActive t \<and> \<not> time_is_zero (LastSyncAt t) \<and> Lag now t \<le> maxLag"
  by (simp add: Healthy_def Lag_def)

lemma RecordSync_effect:
  "LastSyncAt (RecordSync now at0 t) = max (LastSyncAt t) (if at0 = 0 then now else at0)"
  "ServiceActive (RecordSync now at0 t) = ServiceActive t" "Errors (RecordSync now at0 t) = Errors t"
  "LagMax (RecordSync now at0 t) = LagMax t"
  by (auto simp: RecordSync_def Let_def time_defs max_def)

section \<open>Properties of a poll\<close>

lemma parseLine_effect:
  "Errors (wa_tracker (parseLine w l wa)) = Errors (wa_tracker wa) + (if line_is_error l then 1 else 0)"
  "LastSyncAt (wa_tracker (parseLine w l wa)) =
     (if line_is_sync l then max (LastSyncAt (wa_tracker wa)) (clk w (wa_calls wa)) else LastSyncAt (wa_tracker wa))"
  "ServiceActive (wa_tracker (parseLine w l wa)) = ServiceActive (wa_tracker wa)"
  by (auto simp: parseLine_def wa_now_def RecordError_def RecordSync_effect line_is_sync_def Let_def)

lemma fold_parseLine:
  assumes "\<forall>n. clk w n = now"
  shows "Errors (wa_tracker (fold (parseLine w) ls wa)) =
           Errors (wa_tracker wa) + of_nat (length (filter line_is_error ls)) \<and>
         LastSyncAt (wa_tracker (fold (parseLine w) ls wa)) =
           (if \<exists>l \<in> set ls. line_is_sync l then max (LastSyncAt (wa_tracker wa)) now
            else LastSyncAt (wa_tracker wa)) \<and>
         ServiceActive (wa_tracker (fold (parseLine w) ls wa)) = ServiceActive (wa_tracker wa)"
proof (induction ls arbitrary: wa)
  case (Cons l ls)
  show ?case
    using Cons.IH [of "parseLine w l wa"] parseLine_effect [of w l wa] assms
    by (auto simp: max_def)
qed simp

text \<open>C40: one poll that runs at time \<open>now\<close> sets the active flag from the exit status of \<open>systemctl\<close>, adds
  the number of error lines of the journal to the error counter, and, if the journal shows a sync,
  stamps the last sync with \<open>now\<close> whatever time the journal line itself carries.\<close>

theorem poll_effect:
  assumes "\<forall>n. clk w n = now"
    and "query q [''systemctl'', ''is-active'', ''--quiet'', wa_service wa] = ((o1, err), q1)"
    and "since = (if wa_lastPoll wa = 0 then now + wrap64 (- wa_initialLookback wa) else wa_lastPoll wa)"
    and "query q1 [''journalctl'', ''-u'', wa_service wa, ''--since'', FormatSince zone since, ''--no-pager'',
           ''-o'', ''short-iso''] = ((out, None), q2)" "out \<noteq> []"
    and "poll w zone query q wa = (q', wa')"
  shows "ServiceActive (wa_tracker wa') = (err = None) \<and>
    Errors (wa_tracker wa') = Errors (wa_tracker wa) + of_nat (length (filter line_is_error (scan_lines out))) \<and>
    LastSyncAt (wa_tracker wa') =
      (if \<exists>l \<in> set (scan_lines out). line_is_sync l then max (LastSyncAt (wa_tracker wa)) now
       else LastSyncAt (wa_tracker wa))"
proof -
  let ?wa = "wa\<lparr>wa_tracker := SetServiceActive (err = None) (wa_tracker wa), wa_calls := Suc (wa_calls wa),
    wa_lastPoll := now\<rparr>"
  have "wa' = fold (parseLine w) (scan_lines out) ?wa"
    using assms
    by (cases "wa_lastPoll wa = 0") (simp_all add: poll_def wa_now_def Let_def time_is_zero_def time_add_def)
  then show ?thesis
    using fold_parseLine [OF assms(1), of "scan_lines out" ?wa] by (simp add: SetServiceActive_def)
qed

definition sample_query :: "nat querier" where
  "sample_query q args =
     (if q = 0 then (([], None), 1) else ((''synced'' @ [CHR 0x0A] @ ''Fatal'' @ [CHR 0x0A], None), q + 1))"

definition sample_watcher :: watcher where
  "sample_watcher = NewWatcher (NewTracker 300) \<lparr>wc_Service = [], wc_PollInterval = 0, wc_InitialLookback = 0\<rparr>"

lemma sample_scan: "scan_lines (''synced'' @ [CHR 0x0A] @ ''Fatal'' @ [CHR 0x0A]) = [''synced'', ''Fatal'']"
  by (simp add: scan_lines_def drop_cr_def)

lemma sample_lines: "line_is_sync ''synced''" "line_is_error ''Fatal''" "\<not> line_is_error ''synced''"
  by code_simp+

theorem poll_effect_witness:
  "LastSyncAt (wa_tracker (snd (poll sample_world (\<lambda>_. 0) sample_query 0 sample_watcher))) = 5000 \<and>
   Errors (wa_tracker (snd (poll sample_world (\<lambda>_. 0) sample_query 0 sample_watcher))) = 1"
proof -
  have q: "sample_query 0 args = (([], None), 1)"
    "sample_query 1 args = ((''synced'' @ [CHR 0x0A] @ ''Fatal'' @ [CHR 0x0A], None), 2)" for args
    by (simp_all add: sample_query_def)
  have t: "wa_tracker sample_watcher = NewTracker 300"
    by (simp add: sample_watcher_def NewWatcher_def Let_def)
  have n: "''synced'' @ [CHR 0x0A] @ ''Fatal'' @ [CHR 0x0A] \<noteq> []" by simp
  show ?thesis
    using poll_effect [of sample_world 5000 sample_query 0 sample_watcher, OF _ q(1) refl q(2) n surjective_pairing,
        of "\<lambda>_. 0"]
    unfolding sample_scan by (simp add: sample_lines t) (simp add: NewTracker_def)
qed

end
