(* ===== verification/Server.thy ===== *)
theory Server
  imports Node_Store Ticket Litestream
begin

text \<open>
  The controller's \<open>Server\<close> (\<open>internal/controller/server.go\<close>): its state, the requests and
  responses of its handlers, the Prometheus metrics they update (\<open>internal/metrics\<close>), the hub that
  fans messages out to browsers (\<open>internal/controller/ws_hub.go\<close>) and the clock query
  (\<open>internal/chrony\<close>). A handler is a function of the request and of the server's state.
\<close>

section \<open>Clock drift\<close>

text \<open>A \<open>float64\<close> that may be infinite or not a number; comparisons with \<open>NaN\<close> are false.\<close>

datatype f64 = Fin rat | PosInf | NegInf | NaN

fun f64_less :: "f64 \<Rightarrow> f64 \<Rightarrow> bool" where
  "f64_less (Fin a) (Fin b) = (a < b)"
| "f64_less NaN _ = False"
| "f64_less _ NaN = False"
| "f64_less NegInf b = (b \<noteq> NegInf)"
| "f64_less a PosInf = (a \<noteq> PosInf)"
| "f64_less _ _ = False"

fun f64_neg :: "f64 \<Rightarrow> f64" where
  "f64_neg (Fin a) = Fin (- a)" | "f64_neg PosInf = NegInf" | "f64_neg NegInf = PosInf" | "f64_neg NaN = NaN"

definition f64_times :: "world \<Rightarrow> rat \<Rightarrow> f64 \<Rightarrow> f64" where
  "f64_times w k x = (case x of Fin a \<Rightarrow> Fin (round64 w (k * a)) | _ \<Rightarrow> x)"

fun fields_acc :: "string \<Rightarrow> string \<Rightarrow> string list" where
  "fields_acc acc [] = (if acc = [] then [] else [acc])"
| "fields_acc acc (c # s) =
     (if go_space c then (if acc = [] then fields_acc [] s else acc # fields_acc [] s)
      else fields_acc (acc @ [c]) s)"

text \<open>\<open>strings.Fields\<close>.\<close>

definition fields :: "string \<Rightarrow> string list" where
  "fields s = fields_acc [] s"

datatype chrony_error = UnexpectedLine string | ParseOffset string string | NoSystemTime | ChronycFails string string

text \<open>\<open>pf\<close> is \<open>strconv.ParseFloat(_, 64)\<close>; the factor 1000 is positive, so infinities keep their sign.\<close>

fun parse_tracking_lines :: "world \<Rightarrow> (string \<Rightarrow> string + f64) \<Rightarrow> string list \<Rightarrow> chrony_error + f64" where
  "parse_tracking_lines w pf [] = Inl NoSystemTime"
| "parse_tracking_lines w pf (l # ls) =
     (let line = trim_space l in
      if \<not> has_prefix line ''System time'' then parse_tracking_lines w pf ls
      else
        (let colon = index_byte line (CHR '':'') in
         if colon < 0 then parse_tracking_lines w pf ls
         else
           (let fs = fields (drop (nat colon + 1) line) in
            if length fs < 2 then Inl (UnexpectedLine line)
            else
              (case pf (fs ! 0) of
                 Inl e \<Rightarrow> Inl (ParseOffset (fs ! 0) e)
               | Inr secs \<Rightarrow>
                   (let secs1 = (if f64_less secs (Fin 0) then f64_neg secs else secs)
                    in Inr (f64_times w 1000 secs1))))))"

definition ParseTracking :: "world \<Rightarrow> (string \<Rightarrow> string + f64) \<Rightarrow> string \<Rightarrow> chrony_error + f64" where
  "ParseTracking w pf out = parse_tracking_lines w pf (split_on (CHR 0x0A) out)"

text \<open>\<open>CommandQuerier.Drift\<close>: \<open>run\<close> runs a binary with a timeout and returns its output or an error.\<close>

record chrony_querier =
  cq_Binary :: string
  cq_Timeout :: duration

definition NewCommandQuerier :: chrony_querier where
  "NewCommandQuerier = \<lparr>cq_Binary = ''chronyc'', cq_Timeout = 2 * second\<rparr>"

definition Drift :: "world \<Rightarrow> (string \<Rightarrow> string + f64) \<Rightarrow> (string \<Rightarrow> duration \<Rightarrow> string + string) \<Rightarrow>
    chrony_querier \<Rightarrow> chrony_error + f64" where
  "Drift w pf run c =
     (let bin = (if cq_Binary c = [] then ''chronyc'' else cq_Binary c);
          timeout = (if cq_Timeout c \<le> 0 then 2 * second else cq_Timeout c)
      in case run bin timeout of
           Inl e \<Rightarrow> Inl (ChronycFails bin e)
         | Inr out \<Rightarrow> ParseTracking w pf out)"

section \<open>The browser hub\<close>

text \<open>A connected browser: the buffered channel of capacity 64 and whether its reader is done. Clients
  are identified by the order of their connection.\<close>

record ui_client =
  uc_send :: "string list"
  uc_done :: bool

record ws_hub =
  clients :: "(nat \<times> ui_client) list"
  next_client :: nat

definition newWSHub :: ws_hub where
  "newWSHub = \<lparr>clients = [], next_client = 0\<rparr>"

definition newUIClient :: ui_client where
  "newUIClient = \<lparr>uc_send = [], uc_done = False\<rparr>"

definition hub_register :: "ws_hub \<Rightarrow> nat \<times> ws_hub" where
  "hub_register h = (next_client h,
     \<lparr>clients = (next_client h, newUIClient) # clients h, next_client = Suc (next_client h)\<rparr>)"

definition hub_unregister :: "nat \<Rightarrow> ws_hub \<Rightarrow> ws_hub" where
  "hub_unregister c h = h\<lparr>clients := AList.delete c (clients h)\<rparr>"

definition send_or_skip :: "string \<Rightarrow> ui_client \<Rightarrow> ui_client" where
  "send_or_skip msg c = (if length (uc_send c) < 64 then c\<lparr>uc_send := uc_send c @ [msg]\<rparr> else c)"

definition Broadcast :: "string \<Rightarrow> ws_hub \<Rightarrow> ws_hub" where
  "Broadcast msg h = h\<lparr>clients := map (map_prod id (send_or_skip msg)) (clients h)\<rparr>"

section \<open>Metrics\<close>

text \<open>The metrics the handlers update: counters and gauges with the label they are kept under. A
  gauge that has not been set is absent.\<close>

record metrics =
  IngestTotal :: "string \<times> string \<Rightarrow> go_int"
  IngestLatency :: "duration list"
  NodeSpoolDepth :: "string \<rightharpoonup> go_int"
  NodeSpoolOldestAgeSecs :: "string \<rightharpoonup> go_int"
  NodeSpoolDropsTotal :: "string \<Rightarrow> go_int"
  NodeLastSeenSeconds :: "string \<rightharpoonup> go_int"
  ClockDriftMS :: f64
  LitestreamLastSyncTimestamp :: go_int
  LitestreamLagSeconds :: duration
  ActiveWebSocketConnections :: go_int
  WSTicketsIssued :: go_int
  WSTicketsUsed :: go_int
  WSTicketsRejected :: "string \<Rightarrow> go_int"
  DBSizeBytes :: go_int
  ProbeResultsTotal :: go_int

definition new_metrics :: metrics where
  "new_metrics = \<lparr>IngestTotal = (\<lambda>_. 0), IngestLatency = [], NodeSpoolDepth = Map.empty,
     NodeSpoolOldestAgeSecs = Map.empty, NodeSpoolDropsTotal = (\<lambda>_. 0), NodeLastSeenSeconds = Map.empty,
     ClockDriftMS = Fin 0, LitestreamLastSyncTimestamp = 0, LitestreamLagSeconds = 0,
     ActiveWebSocketConnections = 0, WSTicketsIssued = 0, WSTicketsUsed = 0, WSTicketsRejected = (\<lambda>_. 0),
     DBSizeBytes = 0, ProbeResultsTotal = 0\<rparr>"

section \<open>The server\<close>

record server =
  sv_db :: ctl_db
  sv_dbPath :: string
  sv_chrony :: "chrony_querier option"
  sv_maxDriftMS :: rat
  sv_litestream :: "tracker option"
  sv_maxLag :: duration
  sv_tickets :: ticket_store
  sv_wsRateLimit :: "rate_limiter option"
  sv_metrics :: "metrics option"
  sv_metricsToken :: string
  sv_adminToken :: string
  sv_wsHub :: ws_hub
  sv_wsAllowedOrigins :: "string list"
  sv_lastDrops :: "string \<Rightarrow> go_int"
  sv_dropsMu :: bool
  sv_hubMu :: bool
  sv_connBusy :: bool

text \<open>\<open>sv_dropsMu\<close>, \<open>sv_hubMu\<close>: whether \<open>dropsMu\<close> and the mutex of the hub are locked; \<open>sv_connBusy\<close>: whether the
  only connection of the database is in use. A handler that runs alone finds the last two free, and takes and
  returns them around every call; the theory \<open>Concurrency\<close> makes these steps explicit.

  \<open>Options\<close>; absent parts are \<open>None\<close>.\<close>

record options =
  op_DBPath :: string
  op_Chrony :: "chrony_querier option"
  op_MaxClockDriftMS :: rat
  op_Litestream :: "tracker option"
  op_MaxLitestreamLag :: duration
  op_Tickets :: "ticket_store option"
  op_WSRateLimit :: "rate_limiter option"
  op_Metrics :: "metrics option"
  op_MetricsToken :: string
  op_AdminToken :: string
  op_WSAllowedOrigins :: "string list"

definition NewWithOptions :: "ctl_db \<Rightarrow> options \<Rightarrow> server" where
  "NewWithOptions db opt =
     \<lparr>sv_db = db, sv_dbPath = op_DBPath opt, sv_chrony = op_Chrony opt, sv_maxDriftMS = op_MaxClockDriftMS opt,
      sv_litestream = op_Litestream opt, sv_maxLag = op_MaxLitestreamLag opt,
      sv_tickets = (case op_Tickets opt of Some t \<Rightarrow> t | None \<Rightarrow> NewStore 0),
      sv_wsRateLimit = op_WSRateLimit opt, sv_metrics = op_Metrics opt, sv_metricsToken = op_MetricsToken opt,
      sv_adminToken = op_AdminToken opt, sv_wsHub = newWSHub, sv_wsAllowedOrigins = op_WSAllowedOrigins opt,
      sv_lastDrops = (\<lambda>_. 0), sv_dropsMu = False, sv_hubMu = False, sv_connBusy = False\<rparr>"

definition default_options :: options where
  "default_options = \<lparr>op_DBPath = [], op_Chrony = None, op_MaxClockDriftMS = 0, op_Litestream = None,
     op_MaxLitestreamLag = 0, op_Tickets = None, op_WSRateLimit = None, op_Metrics = None,
     op_MetricsToken = [], op_AdminToken = [], op_WSAllowedOrigins = []\<rparr>"

definition server_New :: "ctl_db \<Rightarrow> server" where
  "server_New db = NewWithOptions db (default_options\<lparr>op_Tickets := Some (NewStore 0)\<rparr>)"

section \<open>Requests and responses\<close>

text \<open>What the handlers read of a request; an absent header or form value is the empty string, as
  \<open>Header.Get\<close> and \<open>FormValue\<close> return it.\<close>

record request =
  rq_method :: string
  rq_header :: "string \<Rightarrow> string"
  rq_path_id :: string
  rq_ticket :: string
  rq_form :: "string \<Rightarrow> string"
  rq_cookie :: "string option"
  rq_host :: string
  rq_remote :: string
  rq_tls :: bool
  rq_body :: string

record observation =
  TargetID :: string
  LatencyMs :: "rat option"
  ObsError :: string

record spool_metadata =
  SpoolDepth :: go_int
  SpoolOldestAgeSeconds :: go_int
  SpoolDropsTotal :: go_int
  DrainAttempt :: go_int

record results_request =
  SourceID :: string
  ProbeRunID :: string
  ObservedAt :: gotime
  Results :: "observation list"
  SpoolMetadata :: spool_metadata

record target_entry =
  te_ID :: string
  te_Address :: string

record admin_node =
  an_ID :: string
  an_Role :: string
  an_Address :: string
  an_Disabled :: bool

record admin_create =
  ac_ID :: string
  ac_Role :: string
  ac_Address :: string
  ac_Disabled :: bool
  ac_Secret :: string

record admin_patch =
  ap_Role :: "string option"
  ap_Address :: "string option"
  ap_Disabled :: "bool option"
  ap_Secret :: "string option"

record probe_event =
  pe_Type :: string
  pe_SourceID :: string
  pe_TargetID :: string
  pe_LatencyMS :: rat
  pe_Error :: string

record node_info =
  ni_ID :: string
  ni_Role :: string
  ni_Address :: string
  ni_Disabled :: bool
  ni_SpoolDepth :: go_int
  ni_LastSeen :: gotime

record matrix_entry =
  me_SourceID :: string
  me_TargetID :: string
  me_AvgLatMS :: rat
  me_MinLatMS :: rat
  me_MaxLatMS :: rat
  me_Samples :: go_int
  me_HasError :: bool
  me_LastSeen :: gotime

record latency_matrix =
  lm_Nodes :: "string list"
  lm_Entries :: "matrix_entry list"

datatype results_error =
    SourceIDRequired | SourceIDMismatch | RunIDRequired | ObservedAtRequired | ResultsEmpty
  | TargetIDRequired nat | DuplicateTargetID nat string | LatencyOrErrorRequired nat | NegativeLatency nat

text \<open>The two entries of \<open>checks\<close> in the answer of \<open>/readyz\<close>; durations are written in seconds.\<close>

datatype chrony_check =
    ChronyUnconfigured
  | ChronyError chrony_error
  | DriftExceeded f64 rat
  | DriftOk f64

datatype litestream_check = LitestreamBad bool duration duration | LitestreamOk duration

text \<open>The session cookie a response sets.\<close>

record set_cookie =
  ck_Value :: string
  ck_MaxAge :: go_int
  ck_HttpOnly :: bool
  ck_SameSiteStrict :: bool
  ck_Secure :: bool

text \<open>What a handler writes: the JSON values, the HTML components and the plain texts of the code.\<close>

datatype body =
    BError string
  | BInvalid results_error
  | BStatus "go_int option"
  | BHealth
  | BReady string chrony_check "litestream_check option"
  | BTargets "target_entry list" go_int
  | BNodes "admin_node list"
  | BNode admin_node
  | BCreated admin_node string
  | BTicket string gotime
  | BMetrics
  | BEmpty
  | BText string
  | BLogin string
  | BDashboard latency_matrix
  | BMatrixTable latency_matrix
  | BNodesPage "node_info list" string
  | BNodeForm
  | BNodeRow node_info

record response =
  rs_status :: go_int
  rs_body :: body
  rs_location :: "string option"
  rs_cookie :: "set_cookie option"

definition writeJSON :: "go_int \<Rightarrow> body \<Rightarrow> response" where
  "writeJSON status b = \<lparr>rs_status = status, rs_body = b, rs_location = None, rs_cookie = None\<rparr>"

definition writeJSONError :: "go_int \<Rightarrow> string \<Rightarrow> response" where
  "writeJSONError status msg = writeJSON status (BError msg)"

text \<open>A handler that panics or never returns writes nothing: the client gets no response.\<close>

definition no_answer :: response where
  "no_answer = writeJSON 0 BEmpty"

lemma rs_status_writeJSON [simp]:
  "rs_status (writeJSON st b) = st" "rs_body (writeJSON st b) = b"
  "rs_status (writeJSONError st m) = st" "rs_body (writeJSONError st m) = BError m"
  "rs_status no_answer = 0" "rs_body no_answer = BEmpty"
  by (simp_all add: writeJSON_def writeJSONError_def no_answer_def)

text \<open>\<open>encoding/json\<close> at the program's types: decoding of request bodies with unknown fields refused
  (\<open>Inl\<close> is the decoder's error) and encoding of what goes onto the wire.\<close>

record codec =
  json_results :: "string \<Rightarrow> string + results_request"
  json_create :: "string \<Rightarrow> string + admin_create"
  json_patch :: "string \<Rightarrow> string + admin_patch"
  json_event :: "probe_event \<Rightarrow> string"
  json_payload :: "results_request \<Rightarrow> string + string"
  json_body :: "body \<Rightarrow> string"
  json_version :: "string \<Rightarrow> go_int option"
  json_targets :: "string \<Rightarrow> string + target_entry list \<times> go_int"

text \<open>The handlers' view of the database and of the metrics.\<close>

definition on_db :: "(ctl_db \<Rightarrow> 'a \<times> ctl_db) \<Rightarrow> server \<Rightarrow> 'a \<times> server" where
  "on_db f s = (case f (sv_db s) of (r, db) \<Rightarrow> (r, s\<lparr>sv_db := db\<rparr>))"

definition on_metrics :: "(metrics \<Rightarrow> metrics) \<Rightarrow> server \<Rightarrow> server" where
  "on_metrics f s = s\<lparr>sv_metrics := map_option f (sv_metrics s)\<rparr>"

lemma on_db_result: "on_db f s = (r, s') \<longleftrightarrow> (\<exists>db. f (sv_db s) = (r, db) \<and> s' = s\<lparr>sv_db := db\<rparr>)"
  by (auto simp: on_db_def split: prod.splits)

lemma on_metrics_sel [simp]:
  "sv_db (on_metrics f s) = sv_db s" "sv_tickets (on_metrics f s) = sv_tickets s"
  "sv_wsHub (on_metrics f s) = sv_wsHub s" "sv_lastDrops (on_metrics f s) = sv_lastDrops s"
  "sv_wsRateLimit (on_metrics f s) = sv_wsRateLimit s" "sv_adminToken (on_metrics f s) = sv_adminToken s"
  "sv_metrics (on_metrics f s) = map_option f (sv_metrics s)" "sv_dropsMu (on_metrics f s) = sv_dropsMu s"
  "sv_hubMu (on_metrics f s) = sv_hubMu s" "sv_connBusy (on_metrics f s) = sv_connBusy s"
  by (simp_all add: on_metrics_def)

end
