(* ===== verification/Results.thy ===== *)
theory Results
  imports Server
begin

text \<open>
  Ingest of probe results (\<open>internal/controller/results.go\<close>): validation, the transaction that
  stores a batch, the bookkeeping around it and the answer to the agent; and the fan-out of the
  observations to browsers (\<open>broadcastResults\<close> of \<open>internal/controller/ui.go\<close>).
\<close>

section \<open>Validation\<close>

fun validate_obs :: "nat \<Rightarrow> string list \<Rightarrow> observation list \<Rightarrow> results_error option" where
  "validate_obs i seen [] = None"
| "validate_obs i seen (r # rs) =
     (if TargetID r = [] then Some (TargetIDRequired i)
      else if TargetID r \<in> set seen then Some (DuplicateTargetID i (TargetID r))
      else if LatencyMs r = None \<and> ObsError r = [] then Some (LatencyOrErrorRequired i)
      else if (case LatencyMs r of Some l \<Rightarrow> l < 0 | None \<Rightarrow> False) then Some (NegativeLatency i)
      else validate_obs (Suc i) (TargetID r # seen) rs)"

definition validateResultsRequest :: "string \<Rightarrow> results_request \<Rightarrow> results_error option" where
  "validateResultsRequest authNodeID req =
     (if SourceID req = [] then Some SourceIDRequired
      else if SourceID req \<noteq> authNodeID then Some SourceIDMismatch
      else if ProbeRunID req = [] then Some RunIDRequired
      else if time_is_zero (ObservedAt req) then Some ObservedAtRequired
      else if Results req = [] then Some ResultsEmpty
      else validate_obs 0 [] (Results req))"

section \<open>The transaction\<close>

text \<open>\<open>INSERT INTO probe_results\<close>: the UNIQUE key and the foreign key are checked, in this order.\<close>

definition obs_row :: "results_request \<Rightarrow> string \<Rightarrow> go_int \<Rightarrow> observation \<Rightarrow> result_row" where
  "obs_row req ts i obs = \<lparr>rr_id = i, rr_source = SourceID req, rr_run = ProbeRunID req, rr_target = TargetID obs,
     rr_observed_at = format_datetime (ObservedAt req), rr_latency = LatencyMs obs,
     rr_error = (if ObsError obs \<noteq> [] then Some (ObsError obs) else None), rr_received_at = ts\<rparr>"

definition insert_obs :: "world \<Rightarrow> results_request \<Rightarrow> observation \<Rightarrow> ctl_db \<Rightarrow> string option \<times> ctl_db" where
  "insert_obs w req obs db =
     (case cd_call w db of
        (Some e, db1) \<Rightarrow> (Some e, db1)
      | (None, db1) \<Rightarrow>
          if \<exists>r \<in> set (cd_results db1). rr_source r = SourceID req \<and> rr_run r = ProbeRunID req \<and> rr_target r = TargetID obs
          then (Some (unique_err w), db1)
          else if SourceID req \<notin> nr_id ` set (cd_nodes db1) then (Some (foreign_key_err w), db1)
          else (None, db1\<lparr>cd_results := cd_results db1 @
                             [obs_row req (current_timestamp w (clk w (cd_calls db))) (cd_next_id db1) obs],
                          cd_next_id := cd_next_id db1 + 1\<rparr>))"

datatype persist_error = BeginTx string | PrepareInsert string | InsertObservation string | CommitTx string

fun insert_loop :: "world \<Rightarrow> results_request \<Rightarrow> observation list \<Rightarrow> ctl_db \<Rightarrow>
    (persist_error + go_int) option \<times> ctl_db" where
  "insert_loop w req [] tx = (None, tx)"
| "insert_loop w req (obs # os) tx =
     (case insert_obs w req obs tx of
        (Some e, tx1) \<Rightarrow>
          (if isUniqueViolation e then (Some (Inr 409), tx1) else (Some (Inl (InsertObservation e)), tx1))
      | (None, tx1) \<Rightarrow> insert_loop w req os tx1)"

text \<open>A transaction works on its own copy; the deferred rollback leaves the tables as they were.\<close>

definition persistResults :: "world \<Rightarrow> results_request \<Rightarrow> ctl_db \<Rightarrow> (persist_error + go_int) \<times> ctl_db" where
  "persistResults w req db =
     (case cd_call w db of
        (Some e, db1) \<Rightarrow> (Inl (BeginTx e), db1)
      | (None, db1) \<Rightarrow>
          (case cd_call w db1 of
             (Some e, db2) \<Rightarrow> (Inl (PrepareInsert e), db2)
           | (None, db2) \<Rightarrow>
               (case insert_loop w req (Results req) db2 of
                  (Some r, tx) \<Rightarrow> (r, db\<lparr>cd_calls := cd_calls tx\<rparr>)
                | (None, tx) \<Rightarrow>
                    (case cd_call w tx of
                       (Some e, tx1) \<Rightarrow>
                         (Inl (CommitTx e), if commit_lands w (cd_calls tx) then tx1 else db\<lparr>cd_calls := cd_calls tx1\<rparr>)
                     | (None, tx1) \<Rightarrow> (Inr 201, tx1)))))"

section \<open>Bookkeeping\<close>

definition statusLabel :: "go_int \<Rightarrow> string" where
  "statusLabel status =
     (if status = 201 then ''201''
      else if status = 409 then ''409''
      else if 400 \<le> status \<and> status < 500 then ''4xx''
      else if 500 \<le> status then ''5xx''
      else itoa status)"

definition observeIngest :: "world \<Rightarrow> string \<Rightarrow> go_int \<Rightarrow> gotime \<Rightarrow> server \<Rightarrow> server" where
  "observeIngest w nodeID status start s =
     (if sv_metrics s = None then s
      else case on_db (cd_now w) s of (now, s1) \<Rightarrow>
        on_metrics (\<lambda>m. m\<lparr>IngestTotal := (IngestTotal m)((nodeID, statusLabel status) :=
                               IngestTotal m (nodeID, statusLabel status) + 1),
                          IngestLatency := IngestLatency m @ [time_sub now start]\<rparr>) s1)"

definition probe_event_of :: "string \<Rightarrow> observation \<Rightarrow> probe_event" where
  "probe_event_of sourceID obs =
     \<lparr>pe_Type = ''probe_result'', pe_SourceID = sourceID, pe_TargetID = TargetID obs,
      pe_LatencyMS = (case LatencyMs obs of Some l \<Rightarrow> l | None \<Rightarrow> 0), pe_Error = ObsError obs\<rparr>"

definition broadcastResults :: "codec \<Rightarrow> string \<Rightarrow> observation list \<Rightarrow> server \<Rightarrow> server" where
  "broadcastResults c sourceID obs s =
     s\<lparr>sv_wsHub := fold (\<lambda>ob. Broadcast (json_event c (probe_event_of sourceID ob))) obs (sv_wsHub s)\<rparr>"

text \<open>The gauges of the node.\<close>

definition set_gauges :: "string \<Rightarrow> results_request \<Rightarrow> server \<Rightarrow> server" where
  "set_gauges nodeID req =
     (let md = SpoolMetadata req in
      on_metrics (\<lambda>m. m\<lparr>NodeSpoolDepth := (NodeSpoolDepth m)(nodeID \<mapsto> SpoolDepth md),
                        NodeSpoolOldestAgeSecs := (NodeSpoolOldestAgeSecs m)(nodeID \<mapsto> SpoolOldestAgeSeconds md),
                        NodeLastSeenSeconds := (NodeLastSeenSeconds m)(nodeID \<mapsto> 0)\<rparr>))"

text \<open>The section under \<open>dropsMu\<close>. The difference is an \<open>int64\<close>, and \<open>Counter.Add\<close> panics on a negative value; the
  panic skips the \<open>Unlock\<close>, which is not deferred. \<open>None\<close>: it panics.\<close>

definition drops_delta :: "string \<Rightarrow> go_int \<Rightarrow> server \<Rightarrow> go_int" where
  "drops_delta nodeID reported s = wrap64 (reported - sv_lastDrops s nodeID)"

definition drops_section :: "string \<Rightarrow> go_int \<Rightarrow> server \<Rightarrow> server option" where
  "drops_section nodeID reported s =
     (if reported > sv_lastDrops s nodeID
      then if drops_delta nodeID reported s < 0 then None
           else Some ((on_metrics (\<lambda>m. m\<lparr>NodeSpoolDropsTotal := (NodeSpoolDropsTotal m)(nodeID :=
                         NodeSpoolDropsTotal m nodeID + drops_delta nodeID reported s)\<rparr>) s)
                      \<lparr>sv_lastDrops := (sv_lastDrops s)(nodeID := reported)\<rparr>)
      else Some (s\<lparr>sv_lastDrops := (sv_lastDrops s)(nodeID := reported)\<rparr>))"

text \<open>\<open>Lock\<close>, the section, \<open>Unlock\<close>. The first component is false when the handler gets no further: it waits for a
  mutex that nobody will unlock, or it panics and leaves the mutex locked.\<close>

definition drops_metric :: "string \<Rightarrow> go_int \<Rightarrow> server \<Rightarrow> bool \<times> server" where
  "drops_metric nodeID reported s =
     (if sv_dropsMu s then (False, s)
      else case drops_section nodeID reported (s\<lparr>sv_dropsMu := True\<rparr>) of
             None \<Rightarrow> (False, s\<lparr>sv_dropsMu := True\<rparr>)
           | Some s1 \<Rightarrow> (True, s1\<lparr>sv_dropsMu := False\<rparr>))"

definition count_results :: "results_request \<Rightarrow> go_int \<Rightarrow> server \<Rightarrow> server" where
  "count_results req status s =
     (if status = 201
      then on_metrics (\<lambda>m. m\<lparr>ProbeResultsTotal := ProbeResultsTotal m + int (length (Results req))\<rparr>) s
      else s)"

text \<open>Gauges, drops and the counter of stored results.\<close>

definition record_ingest :: "string \<Rightarrow> results_request \<Rightarrow> go_int \<Rightarrow> server \<Rightarrow> bool \<times> server" where
  "record_ingest nodeID req status s =
     (if sv_metrics s = None then (True, s)
      else
        (case drops_metric nodeID (SpoolDropsTotal (SpoolMetadata req)) (set_gauges nodeID req s) of
           (False, s1) \<Rightarrow> (False, s1)
         | (True, s1) \<Rightarrow> (True, count_results req status s1)))"

definition request_stats :: "results_request \<Rightarrow> gotime \<Rightarrow> spool_stats" where
  "request_stats req now =
     (let md = SpoolMetadata req
      in \<lparr>ss_Depth = SpoolDepth md, ss_OldestAgeSecs = SpoolOldestAgeSeconds md, ss_DropsTotal = SpoolDropsTotal md,
          ss_ObservedAt = now, ss_HasOldest = (SpoolDepth md > 0)\<rparr>)"

section \<open>The handler\<close>

text \<open>What follows a stored or replayed batch: the node's spool snapshot, the metrics, the broadcast, the
  ingest counters and the answer with the current \<open>targets_version\<close>.\<close>

definition finish_results :: "world \<Rightarrow> codec \<Rightarrow> string \<Rightarrow> results_request \<Rightarrow> go_int \<Rightarrow> gotime \<Rightarrow> server \<Rightarrow>
    response \<times> server" where
  "finish_results w c nodeID req status start s =
     (let (now, s1) = on_db (cd_now w) s;
          (_, s2) = on_db (UpdateSpoolStats w nodeID (request_stats req now)) s1
      in case record_ingest nodeID req status s2 of
           (False, s3) \<Rightarrow> (no_answer, s3)
         | (True, s3) \<Rightarrow>
             (let s4 = (if status = 201 then broadcastResults c nodeID (Results req) s3 else s3);
                  s5 = observeIngest w nodeID status start s4;
                  (v, s6) = on_db (TargetsVersion w) s5
              in (writeJSON status (BStatus (case v of Inr x \<Rightarrow> Some x | Inl _ \<Rightarrow> None)), s6)))"

definition handleResults :: "world \<Rightarrow> codec \<Rightarrow> node option \<Rightarrow> request \<Rightarrow> server \<Rightarrow> response \<times> server" where
  "handleResults w c ctx_node r s =
     (let (start, s0) = on_db (cd_now w) s in
      case ctx_node of
        None \<Rightarrow> (writeJSONError 401 ''unauthorized'', s0)
      | Some nd \<Rightarrow>
          (let nodeID = nd_ID nd in
           case json_results c (rq_body r) of
             Inl e \<Rightarrow> (writeJSONError 422 (''invalid json: '' @ e), observeIngest w nodeID 422 start s0)
           | Inr req \<Rightarrow>
               (case validateResultsRequest nodeID req of
                  Some e \<Rightarrow> (writeJSON 422 (BInvalid e), observeIngest w nodeID 422 start s0)
                | None \<Rightarrow>
                    (case on_db (persistResults w req) s0 of
                       (Inl e, s1) \<Rightarrow> (writeJSONError 500 ''internal error'', observeIngest w nodeID 500 start s1)
                     | (Inr status, s1) \<Rightarrow> finish_results w c nodeID req status start s1))))"

end
