(* ===== verification/Auth_Admin.thy ===== *)
theory Auth_Admin
  imports Results
begin

text \<open>
  Authentication of agents and of the operator, and the admin API
  (\<open>internal/controller/auth.go\<close>, \<open>admin.go\<close>, \<open>targets.go\<close>). A middleware is a function from the
  handler it guards to a handler; the guarded handler of the agents receives the authenticated node
  that the code passes through the request's context.
\<close>

section \<open>Bearer authentication of agents\<close>

definition parseBearer :: "string \<Rightarrow> string option" where
  "parseBearer h =
     (if length h \<le> 7 \<or> \<not> equal_fold (take 7 h) ''Bearer '' then None
      else Some (trim_space (drop 7 h)))"

definition clientIP :: "request \<Rightarrow> string" where
  "clientIP r =
     (let v = rq_header r ''X-Forwarded-For'' in
      if v \<noteq> [] then
        (let i = index_byte v (CHR '','')
         in if i \<ge> 0 then trim_space (take (nat i) v) else trim_space v)
      else case splitHostPort (rq_remote r) of Some host \<Rightarrow> host | None \<Rightarrow> rq_remote r)"

type_synonym handler = "request \<Rightarrow> server \<Rightarrow> response \<times> server"
type_synonym node_handler = "node option \<Rightarrow> handler"

definition bearerAuth :: "world \<Rightarrow> node_handler \<Rightarrow> handler" where
  "bearerAuth w nxt r s =
     (let nodeID = rq_header r ''X-NLM-Node-Id'' in
      case parseBearer (rq_header r ''Authorization'') of
        None \<Rightarrow> (writeJSONError 401 ''unauthorized'', s)
      | Some token \<Rightarrow>
          if nodeID = [] then (writeJSONError 401 ''unauthorized'', s)
          else
            (case on_db (node_Get w nodeID) s of
               (Inl ErrUnknownNode, s1) \<Rightarrow> (writeJSONError 401 ''unauthorized'', s1)
             | (Inl _, s1) \<Rightarrow> (writeJSONError 500 ''internal error'', s1)
             | (Inr nd, s1) \<Rightarrow>
                 if \<not> VerifySecret nd token then (writeJSONError 401 ''unauthorized'', s1)
                 else nxt (Some nd) r s1))"

section \<open>Targets\<close>

definition handleTargets :: "world \<Rightarrow> node_handler" where
  "handleTargets w ctx_node r s =
     (case ctx_node of
        None \<Rightarrow> (writeJSONError 401 ''unauthorized'', s)
      | Some nd \<Rightarrow>
          (case on_db (HubTargetsFor w (nd_ID nd)) s of
             (Inl _, s1) \<Rightarrow> (writeJSONError 500 ''internal error'', s1)
           | (Inr (hubs, v), s1) \<Rightarrow>
               (writeJSON 200 (BTargets (map (\<lambda>h. \<lparr>te_ID = nd_ID h, te_Address = nd_Address h\<rparr>) hubs) v), s1)))"

section \<open>Operator authentication\<close>

definition constantTimeStringEq :: "string \<Rightarrow> string \<Rightarrow> bool" where
  "constantTimeStringEq a b \<longleftrightarrow> (if length a \<noteq> length b then False else xor_fold 0 a b = 0)"

definition adminAuth :: "handler \<Rightarrow> handler" where
  "adminAuth nxt r s =
     (if sv_adminToken s = [] then (writeJSONError 503 ''admin api disabled (NLM_ADMIN_TOKEN not set)'', s)
      else
        (let hdr = rq_header r ''Authorization'' in
         if length hdr \<le> 7 \<or> \<not> equal_fold (take 7 hdr) ''Bearer '' then (writeJSONError 401 ''missing bearer'', s)
         else if \<not> constantTimeStringEq (trim_space (drop 7 hdr)) (sv_adminToken s)
         then (writeJSONError 401 ''bad admin token'', s)
         else nxt r s))"

section \<open>The admin API\<close>

definition validateAdminNodeFields :: "string \<Rightarrow> string \<Rightarrow> string \<Rightarrow> string option" where
  "validateAdminNodeFields i role address =
     (if i = [] then Some ''id required''
      else if role \<noteq> RoleSpoke \<and> role \<noteq> RoleHub \<and> role \<noteq> RoleListener
      then Some ''role must be one of spoke, hub, listener''
      else if role = RoleHub \<and> address = [] then Some ''hub role requires address (host:port)''
      else None)"

definition mintSecret :: "rand_read \<Rightarrow> string + string" where
  "mintSecret rnd = (case rnd of Inl e \<Rightarrow> Inl e | Inr buf \<Rightarrow> Inr (base64_raw_url buf))"

definition admin_node_of :: "node \<Rightarrow> admin_node" where
  "admin_node_of n = \<lparr>an_ID = nd_ID n, an_Role = nd_Role n, an_Address = nd_Address n, an_Disabled = nd_Disabled n\<rparr>"

definition handleAdminListNodes :: "world \<Rightarrow> handler" where
  "handleAdminListNodes w r s =
     (case on_db (node_List w) s of
        ((_, Some e), s1) \<Rightarrow> (writeJSONError 500 ''internal error'', s1)
      | ((ns, None), s1) \<Rightarrow> (writeJSON 200 (BNodes (map admin_node_of ns)), s1))"

text \<open>The text of an error of the store, as \<open>err.Error()\<close> gives it.\<close>

definition ctl_error_text :: "ctl_error \<Rightarrow> string" where
  "ctl_error_text e =
     (case e of ErrUnknownNode \<Rightarrow> ''controller: unknown node'' | ErrNoRows \<Rightarrow> ''sql: no rows in result set''
      | CtlErr site x \<Rightarrow> site @ '': '' @ x | DbErr x \<Rightarrow> x)"

definition handleAdminCreateNode :: "world \<Rightarrow> codec \<Rightarrow> rand_read \<Rightarrow> handler" where
  "handleAdminCreateNode w c rnd r s =
     (case json_create c (rq_body r) of
        Inl e \<Rightarrow> (writeJSONError 422 (''invalid json: '' @ e), s)
      | Inr req \<Rightarrow>
          (case validateAdminNodeFields (ac_ID req) (ac_Role req) (ac_Address req) of
             Some e \<Rightarrow> (writeJSONError 422 e, s)
           | None \<Rightarrow>
               (case on_db (node_Get w (ac_ID req)) s of
                  (Inr _, s1) \<Rightarrow> (writeJSONError 409 ''node already exists'', s1)
                | (Inl e, s1) \<Rightarrow>
                    if e \<noteq> ErrUnknownNode then (writeJSONError 500 (ctl_error_text e), s1)
                    else
                      (case (if ac_Secret req = [] then mintSecret rnd else Inr (ac_Secret req)) of
                         Inl _ \<Rightarrow> (writeJSONError 500 ''internal error'', s1)
                       | Inr secret \<Rightarrow>
                           (let n = \<lparr>nd_ID = ac_ID req, nd_Role = ac_Role req, nd_SecretHash = HashSecret secret,
                                     nd_Address = ac_Address req, nd_Disabled = ac_Disabled req\<rparr>
                            in case on_db (node_Upsert w n) s1 of
                                 (Some _, s2) \<Rightarrow> (writeJSONError 500 ''internal error'', s2)
                               | (None, s2) \<Rightarrow> (writeJSON 201 (BCreated (admin_node_of n) secret), s2))))))"

definition apply_patch :: "admin_patch \<Rightarrow> node \<Rightarrow> node" where
  "apply_patch req cur =
     (let n1 = (case ap_Role req of Some x \<Rightarrow> cur\<lparr>nd_Role := x\<rparr> | None \<Rightarrow> cur);
          n2 = (case ap_Address req of Some x \<Rightarrow> n1\<lparr>nd_Address := x\<rparr> | None \<Rightarrow> n1);
          n3 = (case ap_Disabled req of Some x \<Rightarrow> n2\<lparr>nd_Disabled := x\<rparr> | None \<Rightarrow> n2)
      in case ap_Secret req of
           Some x \<Rightarrow> (if x \<noteq> [] then n3\<lparr>nd_SecretHash := HashSecret x\<rparr> else n3)
         | None \<Rightarrow> n3)"

definition handleAdminPatchNode :: "world \<Rightarrow> codec \<Rightarrow> handler" where
  "handleAdminPatchNode w c r s =
     (let i = rq_path_id r in
      if i = [] then (writeJSONError 422 ''missing id'', s)
      else
        (case on_db (node_Get w i) s of
           (Inl ErrUnknownNode, s1) \<Rightarrow> (writeJSONError 404 ''unknown node'', s1)
         | (Inl e, s1) \<Rightarrow> (writeJSONError 500 (ctl_error_text e), s1)
         | (Inr cur, s1) \<Rightarrow>
             (case json_patch c (rq_body r) of
                Inl e \<Rightarrow> (writeJSONError 422 (''invalid json: '' @ e), s1)
              | Inr req \<Rightarrow>
                  (let nxt = apply_patch req cur in
                   case validateAdminNodeFields (nd_ID nxt) (nd_Role nxt) (nd_Address nxt) of
                     Some e \<Rightarrow> (writeJSONError 422 e, s1)
                   | None \<Rightarrow>
                       (case on_db (node_Upsert w nxt) s1 of
                          (Some _, s2) \<Rightarrow> (writeJSONError 500 ''internal error'', s2)
                        | (None, s2) \<Rightarrow> (writeJSON 200 (BNode (admin_node_of nxt)), s2))))))"

definition handleAdminDeleteNode :: "world \<Rightarrow> handler" where
  "handleAdminDeleteNode w r s =
     (let i = rq_path_id r in
      if i = [] then (writeJSONError 422 ''missing id'', s)
      else
        (case on_db (node_Delete w i) s of
           (Some e, s1) \<Rightarrow>
             (if e = ErrUnknownNode \<or> e = ErrNoRows then (writeJSONError 404 ''unknown node'', s1)
              else (writeJSONError 500 ''internal error'', s1))
         | (None, s1) \<Rightarrow> (writeJSON 204 BEmpty, s1)))"

end
