(* ===== verification/Node_Props.thy ===== *)
theory Node_Props
  imports Node_Store
begin

text \<open>
  The registry of nodes is a finite map from ids to nodes, whatever its rows look like, and its
  \<open>targets_version\<close> grows whenever the list of targets of any node changes.
\<close>

section \<open>The invariant of the controller's database\<close>

definition result_key :: "result_row \<Rightarrow> string \<times> string \<times> string" where
  "result_key r = (rr_source r, rr_run r, rr_target r)"

definition ctl_inv :: "ctl_db \<Rightarrow> bool" where
  "ctl_inv db \<longleftrightarrow>
     distinct (map nr_id (cd_nodes db)) \<and>
     (\<forall>r \<in> set (cd_nodes db). nr_role r \<in> {''spoke'', ''hub'', ''listener''}) \<and>
     distinct (map result_key (cd_results db)) \<and>
     (\<forall>r \<in> set (cd_results db). rr_id r < cd_next_id db \<and> rr_source r \<in> nr_id ` set (cd_nodes db)) \<and>
     distinct (map rr_id (cd_results db)) \<and>
     (\<exists>v \<ge> 1. cd_meta db ''targets_version'' = Some v)"

definition version :: "ctl_db \<Rightarrow> go_int" where
  "version db = (case cd_meta db ''targets_version'' of Some v \<Rightarrow> v | None \<Rightarrow> 0)"

definition same_ctl :: "ctl_db \<Rightarrow> ctl_db \<Rightarrow> bool" where
  "same_ctl db db' \<longleftrightarrow> cd_nodes db' = cd_nodes db \<and> cd_results db' = cd_results db \<and>
     cd_next_id db' = cd_next_id db \<and> cd_meta db' = cd_meta db"

named_theorems ctl_frame \<open>what the operations leave unchanged\<close>

lemma ctl_inv_init [simp]: "ctl_inv ctl_init"
  by (simp add: ctl_inv_def ctl_init_def)

lemma same_ctl_refl [simp]: "same_ctl db db"
  by (simp add: same_ctl_def)

lemma same_ctl_calls [simp]:
  "same_ctl db (db'\<lparr>cd_calls := n\<rparr>) = same_ctl db db'" "same_ctl (db\<lparr>cd_calls := n\<rparr>) db' = same_ctl db db'"
  by (simp_all add: same_ctl_def)

lemma same_ctl_trans: "same_ctl a b \<Longrightarrow> same_ctl b c \<Longrightarrow> same_ctl a c"
  by (simp add: same_ctl_def)

lemma ctl_inv_same: "same_ctl db db' \<Longrightarrow> ctl_inv db' = ctl_inv db"
  by (simp add: same_ctl_def ctl_inv_def)

lemma cd_call_frame [ctl_frame]: "cd_call w db = (f, db') \<Longrightarrow> same_ctl db db'"
  by (auto simp: cd_call_def)

lemma cd_now_frame [ctl_frame]: "cd_now w db = (t, db') \<Longrightarrow> same_ctl db db'"
  by (auto simp: cd_now_def)

lemma cd_query_frame [ctl_frame]: "cd_query w xs db = (r, db') \<Longrightarrow> same_ctl db db'"
  by (auto simp: cd_query_def split: prod.splits)

lemma cd_query_Inr: "cd_query w xs db = (Inr ys, db') \<Longrightarrow> ys = xs"
  by (auto simp: cd_query_def dest: sql_query_Inr split: prod.splits)

lemma node_Get_frame [ctl_frame]: "node_Get w i db = (r, db') \<Longrightarrow> same_ctl db db'"
  by (auto simp: node_Get_def cd_call_def split: option.splits)

lemma node_List_frame [ctl_frame]: "node_List w db = (r, db') \<Longrightarrow> same_ctl db db'"
  by (auto simp: node_List_def dest!: cd_query_frame split: prod.splits sum.splits query_stage.splits)

lemma TargetsVersion_frame [ctl_frame]: "TargetsVersion w db = (r, db') \<Longrightarrow> same_ctl db db'"
  by (auto simp: TargetsVersion_def cd_call_def split: option.splits)

lemma HubTargetsFor_frame [ctl_frame]:
  assumes "HubTargetsFor w i db = (r, db')"
  shows "same_ctl db db'"
proof -
  obtain q db1 where q: "cd_query w (hub_rows i db) db = (q, db1)" by fastforce
  obtain v db2 where v: "TargetsVersion w db1 = (v, db2)" by fastforce
  have "db' = db1 \<or> db' = db2"
    using assms q v
    by (auto simp: HubTargetsFor_def split: sum.splits query_stage.splits prod.splits)
  then show ?thesis
    using cd_query_frame [OF q] TargetsVersion_frame [OF v] same_ctl_trans by blast
qed

section \<open>The registry as a map\<close>

definition registry :: "ctl_db \<Rightarrow> string \<rightharpoonup> node" where
  "registry db = (\<lambda>i. map_option node_of (find_node i (cd_nodes db)))"

lemma find_node_Some: "find_node i rs = Some r \<Longrightarrow> r \<in> set rs \<and> nr_id r = i"
  by (auto simp: find_node_def find_Some_iff)

lemma find_node_None: "find_node i rs = None \<longleftrightarrow> i \<notin> nr_id ` set rs"
  by (auto simp: find_node_def find_None_iff)

lemma find_node_distinct:
  "distinct (map nr_id rs) \<Longrightarrow> r \<in> set rs \<Longrightarrow> find_node (nr_id r) rs = Some r"
  by (induction rs) (auto simp: find_node_def)

lemma find_node_map:
  "(\<And>r. nr_id (f r) = nr_id r) \<Longrightarrow> find_node i (map f rs) = map_option f (find_node i rs)"
  by (induction rs) (auto simp: find_node_def)

lemma find_node_append:
  "find_node i (rs @ [r]) = (case find_node i rs of Some x \<Rightarrow> Some x | None \<Rightarrow> if nr_id r = i then Some r else None)"
  by (induction rs) (auto simp: find_node_def)

lemma find_node_filter: "find_node i (filter (\<lambda>r. nr_id r \<noteq> j) rs) = (if i = j then None else find_node i rs)"
  by (induction rs) (auto simp: find_node_def)

lemma nr_id_set_node [simp]: "nr_id (set_node n r) = nr_id r"
  by (simp add: set_node_def)

lemma nr_id_set_spool_stats [simp]: "nr_id (set_spool_stats st r) = nr_id r"
  by (simp add: set_spool_stats_def Let_def)

lemma node_of_set_node: "nr_id r = nd_ID n \<Longrightarrow> node_of (set_node n r) = n"
  by (simp add: node_of_def set_node_def)

lemma node_of_set_spool_stats [simp]: "node_of (set_spool_stats st r) = node_of r"
  by (simp add: node_of_def set_spool_stats_def Let_def)

lemma registry_same: "same_ctl db db' \<Longrightarrow> registry db' = registry db"
  by (simp add: registry_def same_ctl_def)

lemma registry_nodes: "cd_nodes db' = cd_nodes db \<Longrightarrow> registry db' = registry db"
  by (simp add: registry_def)

lemma bumpTargetsVersion_effect:
  assumes "bumpTargetsVersion w db = (r, db')"
  shows "cd_nodes db' = cd_nodes db" "cd_results db' = cd_results db" "cd_next_id db' = cd_next_id db"
    "version db' = (if r = None \<and> cd_meta db ''targets_version'' \<noteq> None then version db + 1 else version db)"
    "cd_meta db ''targets_version'' \<noteq> None \<Longrightarrow> cd_meta db' ''targets_version'' \<noteq> None"
  using assms
  by (auto simp: bumpTargetsVersion_def cd_call_def version_def split: option.splits)

lemma upsert_stmt_effect:
  assumes "upsert_stmt w n db = (r, db')"
  shows "cd_results db' = cd_results db" "cd_next_id db' = cd_next_id db" "cd_meta db' = cd_meta db"
    "r = None \<Longrightarrow> registry db' = (registry db)(nd_ID n \<mapsto> n)" "r \<noteq> None \<Longrightarrow> cd_nodes db' = cd_nodes db"
proof -
  show "cd_results db' = cd_results db" "cd_next_id db' = cd_next_id db" "cd_meta db' = cd_meta db"
    "r \<noteq> None \<Longrightarrow> cd_nodes db' = cd_nodes db"
    using assms by (auto simp: upsert_stmt_def cd_call_def split: option.splits if_splits)
  assume "r = None"
  let ?f = "\<lambda>r. if nr_id r = nd_ID n then set_node n r else r"
  let ?new = "set_node n (fresh_node_row (current_timestamp w (clk w (cd_calls db))) (nd_ID n))"
  show "registry db' = (registry db)(nd_ID n \<mapsto> n)"
  proof (cases "find_node (nd_ID n) (cd_nodes db)")
    case None
    then have "cd_nodes db' = cd_nodes db @ [?new]"
      using assms \<open>r = None\<close> by (auto simp: upsert_stmt_def cd_call_def split: option.splits if_splits)
    then show ?thesis
      using None node_of_set_node [of "fresh_node_row (current_timestamp w (clk w (cd_calls db))) (nd_ID n)" n]
      by (auto simp: registry_def fun_eq_iff find_node_append fresh_node_row_def split: option.splits)
  next
    case (Some x)
    then have "cd_nodes db' = map ?f (cd_nodes db)"
      using assms \<open>r = None\<close> by (auto simp: upsert_stmt_def cd_call_def split: option.splits if_splits)
    then have e: "find_node i (cd_nodes db') = map_option ?f (find_node i (cd_nodes db))" for i
      using find_node_map [of ?f i "cd_nodes db"] by simp
    have "registry db' i = ((registry db)(nd_ID n \<mapsto> n)) i" for i
    proof (cases "find_node i (cd_nodes db)")
      case None
      then show ?thesis using e Some by (auto simp: registry_def)
    next
      case r: (Some r)
      then show ?thesis using e find_node_Some [OF r] by (auto simp: registry_def node_of_set_node)
    qed
    then show ?thesis by (rule ext)
  qed
qed

lemma node_Get_result:
  assumes "node_Get w i db = (r, db')"
  shows "(\<exists>e. r = Inl (CtlErr ''controller: get node'' e)) \<or>
         r = (case registry db i of None \<Rightarrow> Inl ErrUnknownNode | Some n \<Rightarrow> Inr n)"
  using assms by (auto simp: node_Get_def registry_def cd_call_def split: option.splits)

text \<open>The two ways through \<open>Upsert\<close> that reach the statement: the node is new or it replaces a prior
  one.\<close>

lemma node_Upsert_cases:
  assumes "node_Upsert w n db = (r, db')"
  obtains (fails) e where "r = Some e" "cd_nodes db' = cd_nodes db" "cd_results db' = cd_results db"
      "cd_next_id db' = cd_next_id db" "cd_meta db' = cd_meta db"
  | (bumps) db1 db2 b where "r = None" "same_ctl db db1" "upsert_stmt w n db1 = (None, db2)"
      "hubSetChanged (case registry db (nd_ID n) of Some p \<Rightarrow> p | None \<Rightarrow> zero_node) n (registry db (nd_ID n) = None)"
      "bumpTargetsVersion w db2 = (b, db')"
  | (quiet) db1 where "r = None" "same_ctl db db1" "upsert_stmt w n db1 = (None, db')"
      "\<not> hubSetChanged (case registry db (nd_ID n) of Some p \<Rightarrow> p | None \<Rightarrow> zero_node) n (registry db (nd_ID n) = None)"
proof -
  obtain got db1 where g: "node_Get w (nd_ID n) db = (got, db1)" by fastforce
  note fr = node_Get_frame [OF g]
  obtain u db2 where u: "upsert_stmt w n db1 = (u, db2)" by fastforce
  note ue = upsert_stmt_effect [OF u]
  obtain b db3 where b: "bumpTargetsVersion w db2 = (b, db3)" by fastforce
  from node_Get_result [OF g] consider
      (err) e where "got = Inl (CtlErr ''controller: get node'' e)"
    | (missing) "got = Inl ErrUnknownNode" "registry db (nd_ID n) = None"
    | (found) p where "got = Inr p" "registry db (nd_ID n) = Some p"
    by (auto split: option.splits)
  then show thesis
  proof cases
    case err
    then show thesis
      using assms g fr by (intro fails) (auto simp: node_Upsert_def same_ctl_def)
  next
    case missing
    show thesis
    proof (cases u)
      case (Some e)
      then show thesis
        using assms g u fr missing ue by (intro fails) (auto simp: node_Upsert_def same_ctl_def)
    next
      case None
      then show thesis
        using assms g u b fr missing
        by (cases "hubSetChanged zero_node n True")
          (auto simp: node_Upsert_def intro: bumps quiet)
    qed
  next
    case found
    show thesis
    proof (cases u)
      case (Some e)
      then show thesis
        using assms g u fr found ue by (intro fails) (auto simp: node_Upsert_def same_ctl_def)
    next
      case None
      then show thesis
        using assms g u b fr found
        by (cases "hubSetChanged p n False") (auto simp: node_Upsert_def intro: bumps quiet)
    qed
  qed
qed

lemma node_Delete_cases:
  assumes "node_Delete w i db = (r, db')"
  obtains (kept) e where "r = Some e" "cd_nodes db' = cd_nodes db" "cd_results db' = cd_results db"
      "cd_next_id db' = cd_next_id db" "cd_meta db' = cd_meta db"
  | (uncertain) e where "r = Some (CtlErr ''controller: delete rows'' e)" "registry db i \<noteq> None"
      "i \<notin> rr_source ` set (cd_results db)"
      "cd_nodes db' = filter (\<lambda>r. nr_id r \<noteq> i) (cd_nodes db)" "cd_results db' = cd_results db"
      "cd_next_id db' = cd_next_id db" "cd_meta db' = cd_meta db" "\<exists>n. fault w n = Some e"
  | (bumps) db2 b p where "r = None" "registry db i = Some p" "nd_Role p = RoleHub" "\<not> nd_Disabled p"
      "i \<notin> rr_source ` set (cd_results db)" "cd_nodes db2 = filter (\<lambda>r. nr_id r \<noteq> i) (cd_nodes db)"
      "cd_results db2 = cd_results db" "cd_next_id db2 = cd_next_id db" "cd_meta db2 = cd_meta db"
      "bumpTargetsVersion w db2 = (b, db')"
  | (quiet) p where "r = None" "registry db i = Some p" "\<not> (nd_Role p = RoleHub \<and> \<not> nd_Disabled p)"
      "i \<notin> rr_source ` set (cd_results db)" "cd_nodes db' = filter (\<lambda>r. nr_id r \<noteq> i) (cd_nodes db)"
      "cd_results db' = cd_results db" "cd_next_id db' = cd_next_id db" "cd_meta db' = cd_meta db"
proof -
  obtain got db1 where g: "node_Get w i db = (got, db1)" by fastforce
  note fr = node_Get_frame [OF g, unfolded same_ctl_def]
  show thesis
  proof (cases got)
    case (Inl e)
    then show thesis using assms g fr by (intro kept) (auto simp: node_Delete_def)
  next
    case (Inr p)
    then have reg: "registry db i = Some p" using node_Get_result [OF g] by (auto split: option.splits)
    then have pos: "0 < length (filter (\<lambda>r. nr_id r = i) (cd_nodes db))"
      by (auto simp: registry_def filter_empty_conv dest: find_node_Some)
    obtain x db2 where x: "delete_node_stmt w i db1 = (x, db2)" by fastforce
    show thesis
    proof (cases x)
      case xe: (Inl e)
      have "cd_nodes db2 = cd_nodes db1 \<and> cd_results db2 = cd_results db1 \<and> cd_next_id db2 = cd_next_id db1 \<and>
          cd_meta db2 = cd_meta db1"
        using x xe by (auto simp: delete_node_stmt_def cd_call_def Let_def split: option.splits if_splits)
      then show thesis using assms g Inr x xe fr by (intro kept) (auto simp: node_Delete_def)
    next
      case xr: (Inr k)
      have del: "k \<noteq> 0" "i \<notin> rr_source ` set (cd_results db)"
        "cd_nodes db2 = filter (\<lambda>r. nr_id r \<noteq> i) (cd_nodes db)" "cd_results db2 = cd_results db"
        "cd_next_id db2 = cd_next_id db" "cd_meta db2 = cd_meta db"
        using x xr pos fr by (auto simp: delete_node_stmt_def cd_call_def Let_def split: option.splits if_splits)
      obtain f db3 where f: "cd_call w db2 = (f, db3)" by fastforce
      note f3 = cd_call_frame [OF f, unfolded same_ctl_def]
      obtain b db4 where b: "bumpTargetsVersion w db3 = (b, db4)" by fastforce
      show thesis
      proof (cases f)
        case (Some e)
        moreover have "\<exists>n. fault w n = Some e" using f Some by (auto simp: cd_call_def)
        ultimately show thesis
          using assms g Inr x xr f f3 del reg by (intro uncertain) (auto simp: node_Delete_def)
      next
        case None
        then show thesis
          using assms g Inr x xr f f3 del reg b
          by (cases "nd_Role p = RoleHub \<and> \<not> nd_Disabled p")
            (auto simp: node_Delete_def intro: bumps quiet)
      qed
    qed
  qed
qed

section \<open>The interface of the registry\<close>

text \<open>
  What the handlers rely on: the registry is a map; an upsert that returns no error has replaced the
  node under its id and nothing else, a failed one has changed nothing; a delete that returns no error
  has removed the id and nothing else; a lookup reads the map or fails.
\<close>

locale node_registry =
  fixes view :: "'s \<Rightarrow> string \<rightharpoonup> node"
    and get :: "string \<Rightarrow> 's \<Rightarrow> (ctl_error + node) \<times> 's"
    and upsert :: "node \<Rightarrow> 's \<Rightarrow> ctl_error option \<times> 's"
    and del :: "string \<Rightarrow> 's \<Rightarrow> ctl_error option \<times> 's"
  assumes get_view: "get i s = (r, s') \<Longrightarrow> view s' = view s"
    and get_found: "get i s = (Inr n, s') \<Longrightarrow> view s i = Some n"
    and get_unknown: "get i s = (Inl ErrUnknownNode, s') \<Longrightarrow> view s i = None"
    and upsert_ok: "upsert n s = (None, s') \<Longrightarrow> view s' = (view s)(nd_ID n \<mapsto> n)"
    and upsert_err: "upsert n s = (Some e, s') \<Longrightarrow> view s' = view s"
    and del_ok: "del i s = (None, s') \<Longrightarrow> view s' = (view s)(i := None)"
begin

lemma get_after_upsert:
  assumes "upsert n s = (None, s1)" "get (nd_ID n) s1 = (r, s2)"
  shows "r = Inr n \<or> (\<exists>e. r = Inl e \<and> e \<noteq> ErrUnknownNode)"
proof (cases r)
  case (Inl e)
  then show ?thesis using get_unknown [of "nd_ID n" s1 s2] upsert_ok [OF assms(1)] assms(2) by auto
next
  case (Inr m)
  then show ?thesis using get_found [of "nd_ID n" s1 m s2] upsert_ok [OF assms(1)] assms(2) by auto
qed

lemma get_after_del:
  assumes "del i s = (None, s1)" "get i s1 = (r, s2)"
  shows "\<exists>e. r = Inl e"
  using get_found [of i s1 _ s2] del_ok [OF assms(1)] assms(2) by (cases r) auto

lemma upsert_other:
  assumes "upsert n s = (r, s')" "i \<noteq> nd_ID n"
  shows "view s' i = view s i"
  using assms upsert_ok [of n s s'] upsert_err [of n s _ s'] by (cases r) auto

end

lemma node_Upsert_registry:
  assumes "node_Upsert w n db = (r, db')"
  shows "registry db' = (if r = None then (registry db)(nd_ID n \<mapsto> n) else registry db)"
  using assms
proof (cases rule: node_Upsert_cases)
  case fails
  then show ?thesis by (simp add: registry_def)
next
  case (bumps db1 db2 b)
  then show ?thesis
    using upsert_stmt_effect(4) [OF bumps(3)] registry_same [OF bumps(2)]
      registry_nodes [OF bumpTargetsVersion_effect(1) [OF bumps(5)]] by simp
next
  case (quiet db1)
  then show ?thesis
    using upsert_stmt_effect(4) [OF quiet(3)] registry_same [OF quiet(2)] by simp
qed

lemma registry_filter:
  "cd_nodes db' = filter (\<lambda>r. nr_id r \<noteq> i) (cd_nodes db) \<Longrightarrow> registry db' = (registry db)(i := None)"
  by (auto simp: registry_def find_node_filter fun_eq_iff)

lemma node_Delete_registry:
  assumes "node_Delete w i db = (None, db')"
  shows "registry db' = (registry db)(i := None)"
  using assms
proof (cases rule: node_Delete_cases)
  case (bumps db2 b p)
  then show ?thesis
    using registry_filter [OF bumps(6)] registry_nodes [OF bumpTargetsVersion_effect(1) [OF bumps(10)]] by simp
next
  case (quiet p)
  then show ?thesis using registry_filter [OF quiet(5)] by simp
qed simp_all

interpretation reg: node_registry registry "node_Get w" "node_Upsert w" "node_Delete w" for w
proof
  fix i s r s' n
  show "node_Get w i s = (r, s') \<Longrightarrow> registry s' = registry s"
    by (rule registry_same [OF node_Get_frame])
  show "node_Get w i s = (Inr n, s') \<Longrightarrow> registry s i = Some n"
    by (auto dest: node_Get_result split: option.splits)
  show "node_Get w i s = (Inl ErrUnknownNode, s') \<Longrightarrow> registry s i = None"
    by (auto dest: node_Get_result split: option.splits)
  show "node_Delete w i s = (None, s') \<Longrightarrow> registry s' = (registry s)(i := None)"
    by (rule node_Delete_registry)
qed (auto dest: node_Upsert_registry)

section \<open>The targets version\<close>

definition hub_list :: "string \<Rightarrow> ctl_db \<Rightarrow> node list" where
  "hub_list x db = map hub_node (hub_rows x db)"

lemma insort_map_key:
  "(\<And>y. y \<in> insert x (set xs) \<Longrightarrow> k (f y) = k y) \<Longrightarrow> insort_key k (f x) (map f xs) = map f (insort_key k x xs)"
  by (induction xs) auto

lemma sort_map_key: "(\<And>y. y \<in> set xs \<Longrightarrow> k (f y) = k y) \<Longrightarrow> sort_key k (map f xs) = map f (sort_key k xs)"
proof (induction xs)
  case (Cons x xs)
  then show ?case using insort_map_key [of x "sort_key k xs" k f] by simp
qed simp

lemma hub_list_map:
  assumes "cd_nodes db' = map f (cd_nodes db)"
    and f: "\<And>r. r \<in> set (cd_nodes db) \<Longrightarrow>
      nr_id (f r) = nr_id r \<and> hub_row x (f r) = hub_row x r \<and> (hub_row x r \<longrightarrow> hub_node (f r) = hub_node r)"
  shows "hub_list x db' = hub_list x db"
proof -
  have "filter (hub_row x) (map f (cd_nodes db)) = map f (filter (hub_row x) (cd_nodes db))"
    using f by (simp add: filter_map comp_def cong: filter_cong)
  moreover have "sort_key nr_id (map f (filter (hub_row x) (cd_nodes db))) =
      map f (sort_key nr_id (filter (hub_row x) (cd_nodes db)))"
    using f by (intro sort_map_key) auto
  ultimately show ?thesis using f by (simp add: hub_list_def hub_rows_def assms(1))
qed

lemma hub_row_iff:
  "hub_row x r \<longleftrightarrow> nd_Role (node_of r) = RoleHub \<and> \<not> nd_Disabled (node_of r) \<and> nd_Address (node_of r) \<noteq> [] \<and> nr_id r \<noteq> x"
  by (auto simp: hub_row_def node_of_def RoleHub_def split: option.splits)

lemma hub_node_eq: "hub_row x r \<Longrightarrow> hub_node r = (node_of r)\<lparr>nd_SecretHash := [], nd_Disabled := False\<rparr>"
  by (simp add: hub_node_def node_of_def zero_node_def)

lemma hub_list_upsert:
  assumes "upsert_stmt w n db = (None, db')" "ctl_inv db"
    and h: "\<not> hubSetChanged (case registry db (nd_ID n) of Some p \<Rightarrow> p | None \<Rightarrow> zero_node) n (registry db (nd_ID n) = None)"
  shows "hub_list x db' = hub_list x db"
proof (cases "find_node (nd_ID n) (cd_nodes db)")
  case None
  let ?new = "set_node n (fresh_node_row (current_timestamp w (clk w (cd_calls db))) (nd_ID n))"
  have "cd_nodes db' = cd_nodes db @ [?new]"
    using assms(1) None by (auto simp: upsert_stmt_def cd_call_def split: option.splits if_splits)
  moreover have "\<not> hub_row x ?new"
    using h None node_of_set_node [of "fresh_node_row (current_timestamp w (clk w (cd_calls db))) (nd_ID n)" n]
    by (auto simp: hub_row_iff registry_def hubSetChanged_def fresh_node_row_def split: if_splits)
  ultimately show ?thesis by (simp add: hub_list_def hub_rows_def)
next
  case (Some r0)
  let ?f = "\<lambda>r. if nr_id r = nd_ID n then set_node n r else r"
  have reg: "registry db (nd_ID n) = Some (node_of r0)" using Some by (simp add: registry_def)
  show ?thesis
  proof (rule hub_list_map [of _ ?f])
    show "cd_nodes db' = map ?f (cd_nodes db)"
      using assms(1) Some by (auto simp: upsert_stmt_def cd_call_def split: option.splits if_splits)
    fix r assume r: "r \<in> set (cd_nodes db)"
    show "nr_id (?f r) = nr_id r \<and> hub_row x (?f r) = hub_row x r \<and> (hub_row x r \<longrightarrow> hub_node (?f r) = hub_node r)"
    proof (cases "nr_id r = nd_ID n")
      case True
      have "r0 = r" using find_node_distinct [of "cd_nodes db" r] r assms(2) Some True by (simp add: ctl_inv_def)
      moreover have "node_of (set_node n r) = n" by (rule node_of_set_node [OF True])
      ultimately show ?thesis
        using h reg True
        by (auto simp: hub_row_iff hub_node_eq [of x] hubSetChanged_def Let_def node_of_def split: if_splits)
    qed simp
  qed
qed

lemma hub_list_same: "cd_nodes db' = cd_nodes db \<Longrightarrow> hub_list x db' = hub_list x db"
  by (simp add: hub_list_def hub_rows_def)

lemma hub_list_delete:
  assumes "cd_nodes db' = filter (\<lambda>r. nr_id r \<noteq> i) (cd_nodes db)" "ctl_inv db" "registry db i = Some p"
    and "\<not> (nd_Role p = RoleHub \<and> \<not> nd_Disabled p)"
  shows "hub_list x db' = hub_list x db"
proof -
  have "\<not> hub_row x r" if r: "r \<in> set (cd_nodes db)" "nr_id r = i" for r
  proof -
    have "node_of r = p"
      using find_node_distinct [of "cd_nodes db" r] r assms(2,3) by (simp add: ctl_inv_def registry_def)
    then show ?thesis using assms(4) by (auto simp: hub_row_iff)
  qed
  then have "filter (hub_row x) (filter (\<lambda>r. nr_id r \<noteq> i) (cd_nodes db)) = filter (hub_row x) (cd_nodes db)"
    by (auto simp: filter_filter intro: filter_cong)
  then show ?thesis by (simp add: hub_list_def hub_rows_def assms(1))
qed

lemma UpdateSpoolStats_effect:
  assumes "UpdateSpoolStats w i st db = (r, db')"
  shows "cd_results db' = cd_results db \<and> cd_next_id db' = cd_next_id db \<and> cd_meta db' = cd_meta db \<and>
    (cd_nodes db' = cd_nodes db \<or>
     cd_nodes db' = map (\<lambda>r. if nr_id r = i then set_spool_stats st r else r) (cd_nodes db))"
  using assms by (auto simp: UpdateSpoolStats_def cd_call_def Let_def split: option.splits if_splits)

lemma UpdateSpoolStats_keeps:
  assumes "UpdateSpoolStats w i st db = (r, db')"
  shows "registry db' = registry db" "version db' = version db" "hub_list x db' = hub_list x db"
    "map nr_id (cd_nodes db') = map nr_id (cd_nodes db)"
proof -
  let ?f = "\<lambda>r. if nr_id r = i then set_spool_stats st r else r"
  note e = UpdateSpoolStats_effect [OF assms]
  have fm: "find_node j (map ?f (cd_nodes db)) = map_option ?f (find_node j (cd_nodes db))" for j
    by (rule find_node_map) simp
  have nf: "node_of (?f r) = node_of r" for r by simp
  have "map_option node_of (map_option ?f z) = map_option node_of z" for z
    by (cases z) (simp_all add: nf)
  then show "registry db' = registry db" using e fm by (auto simp: registry_def)
  show "version db' = version db" using e by (simp add: version_def)
  show "map nr_id (cd_nodes db') = map nr_id (cd_nodes db)" using e by auto
  have "hub_node (?f r) = hub_node r" for r by (simp add: hub_node_def set_spool_stats_def Let_def)
  moreover have "hub_row x (?f r) = hub_row x r" for r by (simp add: hub_row_def set_spool_stats_def Let_def)
  ultimately have "hub_list x db' = hub_list x db" if "cd_nodes db' = map ?f (cd_nodes db)"
    using that by (intro hub_list_map [of _ ?f]) auto
  then show "hub_list x db' = hub_list x db" using e hub_list_same by blast
qed

text \<open>The operations that change the registry.\<close>

inductive node_step :: "world \<Rightarrow> ctl_db \<Rightarrow> ctl_db \<Rightarrow> bool" for w where
  upsert: "node_Upsert w n db = (r, db') \<Longrightarrow> node_step w db db'"
| delete: "node_Delete w i db = (r, db') \<Longrightarrow> node_step w db db'"
| stats: "UpdateSpoolStats w i st db = (r, db') \<Longrightarrow> node_step w db db'"

lemma version_meta: "cd_meta db' = cd_meta db \<Longrightarrow> version db' = version db"
  by (simp add: version_def)

lemma ctl_inv_version: "ctl_inv db \<Longrightarrow> cd_meta db ''targets_version'' \<noteq> None"
  by (auto simp: ctl_inv_def)

lemma bump_faultless:
  assumes "faultless w" "bumpTargetsVersion w db = (b, db')" "cd_meta db ''targets_version'' \<noteq> None"
  shows "version db' = version db + 1"
proof -
  have "b = None" using assms(1,2) by (auto simp: bumpTargetsVersion_def cd_call_def)
  then show ?thesis using bumpTargetsVersion_effect(4) [OF assms(2)] assms(3) by simp
qed

text \<open>C6: every operation on the registry that changes the list of hubs some node has to probe raises
  \<open>targets_version\<close>, provided the database does not fail: an agent that compares versions never
  misses a change.\<close>

theorem hub_change_raises_version:
  assumes "faultless w" "ctl_inv db" "node_step w db db'" "hub_list x db' \<noteq> hub_list x db"
  shows "version db < version db'"
  using assms(3)
proof (cases rule: node_step.cases)
  case (upsert n r)
  from upsert show ?thesis
  proof (cases rule: node_Upsert_cases)
    case fails
    then show ?thesis using assms(4) hub_list_same by blast
  next
    case (bumps db1 db2 b)
    have m: "cd_meta db2 = cd_meta db"
      using bumps(2) upsert_stmt_effect(3) [OF bumps(3)] by (simp add: same_ctl_def)
    then have "version db' = version db2 + 1"
      using bump_faultless [OF assms(1) bumps(5)] ctl_inv_version [OF assms(2)] by simp
    then show ?thesis using version_meta [OF m] by simp
  next
    case (quiet db1)
    have "hub_list x db' = hub_list x db1"
      using quiet ctl_inv_same [OF quiet(2)] registry_same [OF quiet(2)] assms(2)
      by (intro hub_list_upsert [OF quiet(3)]) simp_all
    then show ?thesis using quiet(2) assms(4) hub_list_same [of db1 db x] by (simp add: same_ctl_def)
  qed
next
  case (delete i r)
  from delete show ?thesis
  proof (cases rule: node_Delete_cases)
    case kept
    then show ?thesis using assms(4) hub_list_same by blast
  next
    case uncertain
    then show ?thesis using assms(1) by simp
  next
    case (bumps db2 b p)
    then have "version db' = version db2 + 1"
      using bump_faultless [OF assms(1) bumps(10)] ctl_inv_version [OF assms(2)] by simp
    then show ?thesis using version_meta [OF bumps(9)] by simp
  next
    case (quiet p)
    then show ?thesis using hub_list_delete [OF quiet(5) assms(2) quiet(2,3)] assms(4) by blast
  qed
next
  case (stats i st r)
  then show ?thesis using UpdateSpoolStats_keeps(3) assms(4) by blast
qed

definition sample_hub :: node where
  "sample_hub = \<lparr>nd_ID = ''h1'', nd_Role = ''hub'', nd_SecretHash = ''00'', nd_Address = ''a:1'', nd_Disabled = False\<rparr>"

lemma sample_hub_upsert:
  "\<exists>db'. node_Upsert sample_world sample_hub ctl_init = (None, db') \<and>
     hub_list ''x'' db' = [sample_hub\<lparr>nd_SecretHash := []\<rparr>]"
  by (simp add: node_Upsert_def node_Get_def upsert_stmt_def cd_call_def bumpTargetsVersion_def
      sample_hub_def ctl_init_def find_node_def hubSetChanged_def RoleHub_def hub_list_def hub_rows_def
      hub_row_def hub_node_def set_node_def fresh_node_row_def zero_node_def)

theorem hub_change_raises_version_witness:
  "\<exists>db'. node_Upsert sample_world sample_hub ctl_init = (None, db') \<and> version ctl_init < version db'"
proof -
  obtain db' where u: "node_Upsert sample_world sample_hub ctl_init = (None, db')"
    and h: "hub_list ''x'' db' = [sample_hub\<lparr>nd_SecretHash := []\<rparr>]" using sample_hub_upsert by blast
  have "hub_list ''x'' db' \<noteq> hub_list ''x'' ctl_init"
    using h by (simp add: hub_list_def hub_rows_def ctl_init_def)
  then have "version ctl_init < version db'"
    by (rule hub_change_raises_version [OF sample_world_faultless ctl_inv_init node_step.upsert [OF u]])
  then show ?thesis using u by blast
qed

section \<open>Preservation of the invariant\<close>

lemma ctl_inv_bump:
  assumes "ctl_inv db" "bumpTargetsVersion w db = (b, db')"
  shows "ctl_inv db'"
  using assms by (auto simp: bumpTargetsVersion_def cd_call_def ctl_inv_def split: option.splits)

lemma ctl_inv_upsert_stmt:
  assumes "ctl_inv db" "upsert_stmt w n db = (r, db')"
  shows "ctl_inv db'"
proof -
  let ?f = "\<lambda>r. if nr_id r = nd_ID n then set_node n r else r"
  consider "same_ctl db db'"
    | ts where "cd_nodes db' = cd_nodes db @ [set_node n (fresh_node_row ts (nd_ID n))]"
        "nd_Role n \<in> {''spoke'', ''hub'', ''listener''}" "nd_ID n \<notin> nr_id ` set (cd_nodes db)"
    | "cd_nodes db' = map ?f (cd_nodes db)" "nd_Role n \<in> {''spoke'', ''hub'', ''listener''}"
    using assms(2) find_node_None [of "nd_ID n" "cd_nodes db"]
    by (auto simp: upsert_stmt_def cd_call_def same_ctl_def split: option.splits if_splits)
  then show ?thesis
  proof cases
    case 1
    then show ?thesis using assms(1) ctl_inv_same by blast
  next
    case 2
    then show ?thesis
      using assms(1) upsert_stmt_effect(1-3) [OF assms(2)]
      by (auto simp: ctl_inv_def fresh_node_row_def set_node_def)
  next
    case 3
    have "map nr_id (map ?f (cd_nodes db)) = map nr_id (cd_nodes db)" by simp
    then have "distinct (map nr_id (cd_nodes db'))" "nr_id ` set (cd_nodes db') = nr_id ` set (cd_nodes db)"
      using assms(1) 3 by (metis ctl_inv_def, metis list.set_map)
    then show ?thesis
      using assms(1) upsert_stmt_effect(1-3) [OF assms(2)] 3
      by (auto simp: ctl_inv_def set_node_def)
  qed
qed

lemma ctl_inv_node_Upsert:
  assumes "ctl_inv db" "node_Upsert w n db = (r, db')"
  shows "ctl_inv db'"
  using assms(2)
proof (cases rule: node_Upsert_cases)
  case fails
  then show ?thesis using assms(1) by (simp add: ctl_inv_def)
next
  case (bumps db1 db2 b)
  then show ?thesis using assms(1) ctl_inv_same ctl_inv_upsert_stmt ctl_inv_bump by metis
next
  case (quiet db1)
  then show ?thesis using assms(1) ctl_inv_same ctl_inv_upsert_stmt by metis
qed

lemma ctl_inv_filter:
  assumes "ctl_inv db" "i \<notin> rr_source ` set (cd_results db)"
    and "cd_nodes db' = filter (\<lambda>r. nr_id r \<noteq> i) (cd_nodes db)" "cd_results db' = cd_results db"
    and "cd_next_id db' = cd_next_id db" "cd_meta db' = cd_meta db"
  shows "ctl_inv db'"
proof -
  have "rr_source r \<in> nr_id ` set (cd_nodes db')" if "r \<in> set (cd_results db)" for r
  proof -
    obtain n where "n \<in> set (cd_nodes db)" "nr_id n = rr_source r"
      using assms(1) \<open>r \<in> _\<close> by (auto simp: ctl_inv_def)
    moreover have "rr_source r \<noteq> i" using assms(2) \<open>r \<in> _\<close> by auto
    ultimately show ?thesis using assms(3) by force
  qed
  then show ?thesis using assms by (simp add: ctl_inv_def distinct_map_filter_neq)
qed

lemma ctl_inv_node_Delete:
  assumes "ctl_inv db" "node_Delete w i db = (r, db')"
  shows "ctl_inv db'"
  using assms(2)
proof (cases rule: node_Delete_cases)
  case kept
  then show ?thesis using assms(1) by (simp add: ctl_inv_def)
next
  case uncertain
  then show ?thesis using ctl_inv_filter [OF assms(1)] by blast
next
  case (bumps db2 b p)
  have "ctl_inv db2" using bumps by (intro ctl_inv_filter [OF assms(1) bumps(5)]) simp_all
  then show ?thesis using bumps(10) by (rule ctl_inv_bump)
next
  case quiet
  then show ?thesis using ctl_inv_filter [OF assms(1)] by blast
qed

lemma ctl_inv_UpdateSpoolStats:
  assumes "ctl_inv db" "UpdateSpoolStats w i st db = (r, db')"
  shows "ctl_inv db'"
proof -
  have ids: "map nr_id (cd_nodes db') = map nr_id (cd_nodes db)" by (rule UpdateSpoolStats_keeps(4) [OF assms(2)])
  then have "nr_id ` set (cd_nodes db') = nr_id ` set (cd_nodes db)" by (metis list.set_map)
  moreover have "map nr_role (cd_nodes db') = map nr_role (cd_nodes db)"
    using UpdateSpoolStats_effect [OF assms(2)] by (auto simp: set_spool_stats_def Let_def)
  then have "nr_role ` set (cd_nodes db') = nr_role ` set (cd_nodes db)" by (metis list.set_map)
  then have "\<forall>x \<in> nr_role ` set (cd_nodes db'). x \<in> {''spoke'', ''hub'', ''listener''}"
    using assms(1) by (simp add: ctl_inv_def)
  then have "\<forall>r \<in> set (cd_nodes db'). nr_role r \<in> {''spoke'', ''hub'', ''listener''}" by simp
  ultimately show ?thesis
    using UpdateSpoolStats_effect [OF assms(2)] assms(1) ids by (simp add: ctl_inv_def)
qed

section \<open>What the store promises\<close>

text \<open>C18: the store refines a map from ids to nodes. Whatever the database does, an upsert that reports
  success has set exactly the given node and one that reports an error has changed nothing; a delete
  that reports success has removed exactly the id; and a lookup that does not fail returns what the
  map holds.\<close>

theorem node_store_refines_map:
  "registry (snd (node_Upsert w n db)) =
     (if fst (node_Upsert w n db) = None then (registry db)(nd_ID n \<mapsto> n) else registry db) \<and>
   registry (snd (node_Delete w i db)) \<in>
     (if fst (node_Delete w i db) = None then {(registry db)(i := None)}
      else {registry db, (registry db)(i := None)}) \<and>
   registry (snd (node_Get w i db)) = registry db \<and>
   fst (node_Get w i db) \<in> insert (case registry db i of None \<Rightarrow> Inl ErrUnknownNode | Some m \<Rightarrow> Inr m)
                               (range (\<lambda>e. Inl (CtlErr ''controller: get node'' e))) \<and>
   registry (snd (UpdateSpoolStats w i st db)) = registry db"
proof (intro conjI)
  show "registry (snd (node_Upsert w n db)) =
     (if fst (node_Upsert w n db) = None then (registry db)(nd_ID n \<mapsto> n) else registry db)"
    by (rule node_Upsert_registry) simp
  obtain r db' where d: "node_Delete w i db = (r, db')" by fastforce
  show "registry (snd (node_Delete w i db)) \<in>
     (if fst (node_Delete w i db) = None then {(registry db)(i := None)}
      else {registry db, (registry db)(i := None)})"
    using d
  proof (cases rule: node_Delete_cases)
    case kept
    then show ?thesis using d registry_nodes [OF kept(2)] by simp
  next
    case uncertain
    then show ?thesis using d registry_filter [OF uncertain(4)] by simp
  next
    case bumps
    then show ?thesis using node_Delete_registry [of w i db db'] d by simp
  next
    case quiet
    then show ?thesis using node_Delete_registry [of w i db db'] d by simp
  qed
  show "registry (snd (node_Get w i db)) = registry db"
    by (rule registry_same, rule node_Get_frame [of w i db "fst (node_Get w i db)"]) simp
  show "fst (node_Get w i db) \<in> insert (case registry db i of None \<Rightarrow> Inl ErrUnknownNode | Some m \<Rightarrow> Inr m)
                               (range (\<lambda>e. Inl (CtlErr ''controller: get node'' e)))"
    using node_Get_result [of w i db "fst (node_Get w i db)" "snd (node_Get w i db)"] by auto
  show "registry (snd (UpdateSpoolStats w i st db)) = registry db"
    by (rule UpdateSpoolStats_keeps(1) [of w i st db "fst (UpdateSpoolStats w i st db)"]) simp
qed

text \<open>C39: in a database that does not fail, deleting a node has exactly three outcomes: the id is
  unknown, which is reported as \<open>ErrUnknownNode\<close> (the comment promises \<open>sql.ErrNoRows\<close>); or the node has reported results, and then the foreign key refuses the delete and nothing
  changes; or the node is gone and everything else is as before.\<close>

theorem node_Delete_outcomes:
  assumes "faultless w"
  shows "(case registry db i of
            None \<Rightarrow> fst (node_Delete w i db) = Some ErrUnknownNode \<and> same_ctl db (snd (node_Delete w i db))
          | Some n \<Rightarrow>
              if i \<in> rr_source ` set (cd_results db)
              then fst (node_Delete w i db) = Some (CtlErr ''controller: delete node'' (foreign_key_err w)) \<and>
                   same_ctl db (snd (node_Delete w i db))
              else fst (node_Delete w i db) = None \<and>
                   registry (snd (node_Delete w i db)) = (registry db)(i := None) \<and>
                   cd_results (snd (node_Delete w i db)) = cd_results db)"
proof (cases "find_node i (cd_nodes db)")
  case None
  then show ?thesis using assms by (simp add: registry_def node_Delete_def node_Get_def cd_call_def)
next
  case (Some r)
  have pos: "filter (\<lambda>r. nr_id r = i) (cd_nodes db) \<noteq> []"
    using find_node_Some [OF Some] by (auto simp: filter_empty_conv)
  show ?thesis
  proof (cases "i \<in> rr_source ` set (cd_results db)")
    case True
    then show ?thesis
      using assms Some pos
      by (simp add: registry_def node_Delete_def node_Get_def cd_call_def delete_node_stmt_def)
  next
    case False
    have res: "fst (node_Delete w i db) = None"
      using assms Some pos False
      by (simp add: node_Delete_def node_Get_def cd_call_def delete_node_stmt_def bumpTargetsVersion_def)
    have "cd_results (snd (node_Delete w i db)) = cd_results db"
      using assms Some pos False
      by (simp add: node_Delete_def node_Get_def cd_call_def delete_node_stmt_def bumpTargetsVersion_def
          split: option.splits)
    then show ?thesis
      using res Some False node_Delete_registry [of w i db "snd (node_Delete w i db)"]
      by (simp add: registry_def prod_eq_iff)
  qed
qed

theorem node_Delete_outcomes_witness:
  "fst (node_Delete sample_world ''h1'' (ctl_init\<lparr>cd_nodes := [set_node sample_hub (fresh_node_row ''9'' ''h1'')],
     cd_results := [\<lparr>rr_id = 1, rr_source = ''h1'', rr_run = ''r'', rr_target = ''t'', rr_observed_at = ''9'',
       rr_latency = None, rr_error = Some ''e'', rr_received_at = ''9''\<rparr>]\<rparr>))
   = Some (CtlErr ''controller: delete node'' ''FOREIGN KEY constraint failed'')"
  using node_Delete_outcomes [OF sample_world_faultless, of "''h1''" "ctl_init\<lparr>cd_nodes := [set_node sample_hub (fresh_node_row ''9'' ''h1'')],
     cd_results := [\<lparr>rr_id = 1, rr_source = ''h1'', rr_run = ''r'', rr_target = ''t'', rr_observed_at = ''9'',
       rr_latency = None, rr_error = Some ''e'', rr_received_at = ''9''\<rparr>]\<rparr>"]
  by (simp add: registry_def find_node_def fresh_node_row_def)

text \<open>A presented secret verifies exactly if its SHA-256 is the stored digest, so the secret a node was registered
  with does.\<close>

lemma VerifySecret_iff: "VerifySecret n p \<longleftrightarrow> hex_decode (nd_SecretHash n) = Some (sha256 p)"
  by (auto simp: VerifySecret_def split: option.splits)

lemma HashSecret_decodes [simp]: "hex_decode (HashSecret s) = Some (sha256 s)"
  by (simp add: HashSecret_def hex_roundtrip)

lemma VerifySecret_HashSecret [simp]: "nd_SecretHash n = HashSecret s \<Longrightarrow> VerifySecret n s"
  by (simp add: VerifySecret_iff)

end
