(* ===== verification/Results_Props.thy ===== *)
theory Results_Props
  imports Results Node_Props
begin

text \<open>
  A batch is stored completely or not at all, a replay is recognised and changes nothing, and every
  stored row belongs to the node that authenticated the request.
\<close>

section \<open>Validation\<close>

lemma validate_obs_None:
  "validate_obs i seen rs = None \<longleftrightarrow>
     distinct (map TargetID rs) \<and> set seen \<inter> set (map TargetID rs) = {} \<and>
     (\<forall>r \<in> set rs. TargetID r \<noteq> [] \<and> (LatencyMs r \<noteq> None \<or> ObsError r \<noteq> []) \<and>
        (\<forall>l. LatencyMs r = Some l \<longrightarrow> 0 \<le> l))"
  by (induction i seen rs rule: validate_obs.induct) (auto split: option.splits)

definition obs_ok :: "observation \<Rightarrow> bool" where
  "obs_ok r \<longleftrightarrow> TargetID r \<noteq> [] \<and> (LatencyMs r \<noteq> None \<or> ObsError r \<noteq> []) \<and>
     (case LatencyMs r of None \<Rightarrow> True | Some l \<Rightarrow> 0 \<le> l)"

text \<open>A request passes validation exactly when it names the authenticated node as its source, has a
  run id, a time and at least one observation, the targets are named and pairwise different, and every
  observation has a non-negative latency or an error.\<close>

theorem validateResultsRequest_iff:
  "validateResultsRequest i req = None \<longleftrightarrow>
     i \<noteq> [] \<and> SourceID req = i \<and> ProbeRunID req \<noteq> [] \<and> ObservedAt req \<noteq> 0 \<and> Results req \<noteq> [] \<and>
     distinct (map TargetID (Results req)) \<and>
     list_all obs_ok (Results req)"
  by (auto simp: validateResultsRequest_def time_is_zero_def validate_obs_None list_all_iff obs_ok_def
      split: option.splits)

section \<open>The transaction\<close>

text \<open>\<open>stored req rows\<close>: the rows are the observations of the request, in order.\<close>

definition stored :: "results_request \<Rightarrow> result_row list \<Rightarrow> bool" where
  "stored req rows \<longleftrightarrow>
     map (\<lambda>r. (rr_source r, rr_run r, rr_target r, rr_observed_at r, rr_latency r, rr_error r)) rows =
     map (\<lambda>ob. (SourceID req, ProbeRunID req, TargetID ob, format_datetime (ObservedAt req), LatencyMs ob,
                if ObsError ob = [] then None else Some (ObsError ob))) (Results req)"

definition appends :: "ctl_db \<Rightarrow> result_row list \<Rightarrow> ctl_db \<Rightarrow> bool" where
  "appends db rows db' \<longleftrightarrow> cd_results db' = cd_results db @ rows \<and> cd_nodes db' = cd_nodes db \<and>
     cd_meta db' = cd_meta db \<and> cd_next_id db' = cd_next_id db + int (length rows)"

definition key_taken :: "results_request \<Rightarrow> observation \<Rightarrow> ctl_db \<Rightarrow> bool" where
  "key_taken req ob db \<longleftrightarrow> (SourceID req, ProbeRunID req, TargetID ob) \<in> result_key ` set (cd_results db)"

lemma insert_obs_cases:
  assumes "insert_obs w req ob db = (r, db')"
  obtains (fault) e n where "r = Some e" "same_ctl db db'" "fault w n = Some e"
  | (taken) "r = Some (unique_err w)" "same_ctl db db'" "key_taken req ob db"
  | (no_node) "r = Some (foreign_key_err w)" "same_ctl db db'" "SourceID req \<notin> nr_id ` set (cd_nodes db)"
  | (added) ts where "r = None" "appends db [obs_row req ts (cd_next_id db) ob] db'" "\<not> key_taken req ob db"
      "SourceID req \<in> nr_id ` set (cd_nodes db)"
proof -
  have k: "(\<exists>r \<in> set (cd_results db). rr_source r = SourceID req \<and> rr_run r = ProbeRunID req \<and> rr_target r = TargetID ob)
      \<longleftrightarrow> key_taken req ob db"
    unfolding key_taken_def result_key_def image_iff by (metis prod.inject)
  show thesis
  proof (cases "fault w (cd_calls db)")
    case (Some e)
    then show thesis using assms by (intro fault [of e "cd_calls db"]) (auto simp: insert_obs_def cd_call_def)
  next
    case None
    show thesis
    proof (cases "key_taken req ob db")
      case True
      then show thesis using assms None k taken by (auto simp: insert_obs_def cd_call_def)
    next
      case False
      then have nk: "\<not> (\<exists>r \<in> set (cd_results db). rr_source r = SourceID req \<and> rr_run r = ProbeRunID req \<and>
          rr_target r = TargetID ob)" using k by blast
      show thesis
      proof (cases "SourceID req \<in> nr_id ` set (cd_nodes db)")
        case True
        then show thesis
          using assms None nk False
          by (intro added [of "current_timestamp w (clk w (cd_calls db))"])
            (auto simp: insert_obs_def cd_call_def appends_def simp del: bex_simps)
      next
        case False
        then show thesis using assms None nk no_node by (auto simp: insert_obs_def cd_call_def simp del: bex_simps)
      qed
    qed
  qed
qed

lemma appends_trans: "appends a xs b \<Longrightarrow> appends b ys c \<Longrightarrow> appends a (xs @ ys) c"
  by (simp add: appends_def)

lemma appends_Nil: "appends db [] db' = same_ctl db db'"
  by (auto simp: appends_def same_ctl_def)

lemma appends_same: "same_ctl a b \<Longrightarrow> appends b xs c \<Longrightarrow> appends a xs c"
  by (simp add: appends_def same_ctl_def)

text \<open>The insert loop adds rows for the observations it has reached.\<close>

lemma insert_loop_appends:
  assumes "insert_loop w req obs tx = (r, tx')"
  shows "\<exists>rows. appends tx rows tx' \<and>
    (r = None \<longrightarrow> stored (req\<lparr>Results := obs\<rparr>) rows \<and> (obs = [] \<or> SourceID req \<in> nr_id ` set (cd_nodes tx)))"
  using assms
proof (induction obs arbitrary: tx)
  case Nil
  then show ?case by (auto simp: appends_Nil stored_def intro: exI [of _ "[]"])
next
  case (Cons ob obs)
  obtain x tx1 where x: "insert_obs w req ob tx = (x, tx1)" by fastforce
  from x show ?case
  proof (cases rule: insert_obs_cases)
    case (added ts)
    then have "insert_loop w req obs tx1 = (r, tx')" using Cons.prems x by simp
    from Cons.IH [OF this] obtain rows where rows: "appends tx1 rows tx'"
      "r = None \<longrightarrow> stored (req\<lparr>Results := obs\<rparr>) rows" by blast
    have "appends tx (obs_row req ts (cd_next_id tx) ob # rows) tx'"
      using appends_trans [OF added(2) rows(1)] by simp
    moreover have "r = None \<longrightarrow> stored (req\<lparr>Results := ob # obs\<rparr>) (obs_row req ts (cd_next_id tx) ob # rows)"
      using rows(2) by (auto simp: stored_def obs_row_def)
    ultimately show ?thesis using added(4) by blast
  qed (use Cons.prems x in \<open>auto simp: appends_Nil split: if_splits intro: exI [of _ "[]"]\<close>)
qed

lemma insert_loop_status:
  "insert_loop w req obs tx = (l, tx') \<Longrightarrow> l = Some (Inr 409) \<or> (\<exists>e. l = Some (Inl e)) \<or> l = None"
  by (induction w req obs tx rule: insert_loop.induct) (auto split: prod.splits option.splits if_splits)

lemma persistResults_cases:
  assumes "persistResults w req db = (r, db')"
  obtains (rejected) e where "r = Inl e" "same_ctl db db'"
  | (replay) "r = Inr 409" "same_ctl db db'"
  | (landed) e rows where "r = Inl (CommitTx e)" "appends db rows db'" "stored req rows"
      "Results req = [] \<or> SourceID req \<in> nr_id ` set (cd_nodes db)"
  | (created) rows where "r = Inr 201" "appends db rows db'" "stored req rows"
      "Results req = [] \<or> SourceID req \<in> nr_id ` set (cd_nodes db)"
proof -
  obtain f db1 where f: "cd_call w db = (f, db1)" by fastforce
  obtain g db2 where g: "cd_call w db1 = (g, db2)" by fastforce
  obtain l tx where l: "insert_loop w req (Results req) db2 = (l, tx)" by fastforce
  obtain h tx1 where h: "cd_call w tx = (h, tx1)" by fastforce
  have s2: "same_ctl db db2"
    using cd_call_frame [OF f] cd_call_frame [OF g] by (rule same_ctl_trans)
  from insert_loop_appends [OF l] obtain rows where rows: "appends db2 rows tx"
    "l = None \<longrightarrow> stored req rows \<and> (Results req = [] \<or> SourceID req \<in> nr_id ` set (cd_nodes db2))"
    by (auto simp: stored_def)
  have ap: "appends db rows tx1"
    using appends_same [OF s2 rows(1)] cd_call_frame [OF h] by (simp add: appends_def same_ctl_def)
  have nd: "cd_nodes db2 = cd_nodes db" using s2 by (simp add: same_ctl_def)
  have early: "l = Some (Inr 409) \<or> (\<exists>e. l = Some (Inl e)) \<or> l = None"
    using l by (rule insert_loop_status)
  show thesis
  proof (cases "f = None \<and> g = None \<and> l = None")
    case True
    then show thesis
      using assms f g l h ap rows(2) nd
      by (cases h; cases "commit_lands w (cd_calls tx)")
        (auto simp: persistResults_def intro: rejected landed created)
  next
    case False
    then show thesis
      using assms f g l h early cd_call_frame [OF f] s2
      by (cases f; cases g; cases l) (auto simp: persistResults_def intro: rejected replay)
  qed
qed


lemma stored_keys: "stored req rows \<Longrightarrow>
  map result_key rows = map (\<lambda>ob. (SourceID req, ProbeRunID req, TargetID ob)) (Results req)"
proof -
  assume "stored req rows"
  then have "map (\<lambda>(a, b, c, _). (a, b, c)) (map (\<lambda>r. (rr_source r, rr_run r, rr_target r, rr_observed_at r,
      rr_latency r, rr_error r)) rows) = map (\<lambda>(a, b, c, _). (a, b, c)) (map (\<lambda>ob. (SourceID req, ProbeRunID req,
      TargetID ob, format_datetime (ObservedAt req), LatencyMs ob, if ObsError ob = [] then None
      else Some (ObsError ob))) (Results req))"
    by (simp only: stored_def)
  moreover have "result_key = (\<lambda>r. (rr_source r, rr_run r, rr_target r))" by (rule ext) (rule result_key_def)
  ultimately show ?thesis by (simp add: comp_def)
qed

lemma stored_length: "stored req rows \<Longrightarrow> length rows = length (Results req)"
  unfolding stored_def by (rule map_eq_imp_length_eq)

text \<open>C5: the transaction is atomic. It answers 201 and then exactly the observations of the request have
  been appended; or it answers 409 and nothing has changed; or it reports an error and nothing has
  changed, unless a failing commit took effect, and then the whole batch has been appended.\<close>

theorem persistResults_atomic:
  "(fst (persistResults w req db) = Inr 201 \<and>
      (\<exists>rows. appends db rows (snd (persistResults w req db)) \<and> stored req rows)) \<or>
   (fst (persistResults w req db) = Inr 409 \<and> same_ctl db (snd (persistResults w req db))) \<or>
   (\<exists>e. fst (persistResults w req db) = Inl e) \<and> same_ctl db (snd (persistResults w req db)) \<or>
   (\<exists>e rows. fst (persistResults w req db) = Inl (CommitTx e) \<and>
      appends db rows (snd (persistResults w req db)) \<and> stored req rows)"
proof -
  obtain r db' where p: "persistResults w req db = (r, db')" by fastforce
  then show ?thesis by (cases rule: persistResults_cases) (auto simp: p)
qed

lemma insert_obs_taken:
  assumes "faultless w" "key_taken req ob db"
  shows "fst (insert_obs w req ob db) = Some (unique_err w)"
proof -
  obtain r db' where x: "insert_obs w req ob db = (r, db')" by fastforce
  have "\<exists>r \<in> set (cd_results db). rr_source r = SourceID req \<and> rr_run r = ProbeRunID req \<and> rr_target r = TargetID ob"
    using assms(2) unfolding key_taken_def result_key_def image_iff by (metis prod.inject)
  then show ?thesis using assms(1) by (simp add: insert_obs_def cd_call_def)
qed

lemma persistResults_replay:
  assumes "faultless w" "isUniqueViolation (unique_err w)" "Results req = ob # obs" "key_taken req ob db"
  shows "fst (persistResults w req db) = Inr 409"
proof -
  let ?db2 = "db\<lparr>cd_calls := Suc (Suc (cd_calls db))\<rparr>"
  have "key_taken req ob ?db2" using assms(4) by (simp add: key_taken_def)
  then obtain tx where "insert_obs w req ob ?db2 = (Some (unique_err w), tx)"
    using insert_obs_taken [OF assms(1)] by (metis prod.collapse)
  then show ?thesis
    using assms by (simp add: persistResults_def cd_call_def)
qed

text \<open>C17: storing is idempotent: once a batch has been stored, sending the same run again, with any
  observations that begin with one of the stored targets, is answered 409 and changes nothing.\<close>

theorem persistResults_idempotent:
  assumes "faultless w" "isUniqueViolation (unique_err w)" "Results req \<noteq> []"
    and "persistResults w req db = (Inr 201, db1)"
  shows "fst (persistResults w req db1) = Inr 409 \<and> same_ctl db1 (snd (persistResults w req db1))"
proof -
  obtain ob obs where o: "Results req = ob # obs" using assms(3) by (cases "Results req") auto
  from assms(4) obtain rows where rows: "appends db rows db1" "stored req rows"
    by (cases rule: persistResults_cases) auto
  have "result_key ` set rows = set (map (\<lambda>ob. (SourceID req, ProbeRunID req, TargetID ob)) (Results req))"
    using arg_cong [OF stored_keys [OF rows(2)], of set] by simp
  then have "key_taken req ob db1" using rows(1) o by (auto simp: key_taken_def appends_def)
  from persistResults_replay [OF assms(1,2) o this] have r: "fst (persistResults w req db1) = Inr 409" .
  obtain x db2 where p: "persistResults w req db1 = (x, db2)" by fastforce
  then have "same_ctl db1 db2" using r [unfolded p fst_conv] by (cases rule: persistResults_cases) auto
  then show ?thesis using r p by simp
qed

text \<open>A batch that never was stored and whose node exists is stored, when the database does not fail.\<close>

lemma insert_loop_fresh:
  assumes "faultless w" "SourceID req \<in> nr_id ` set (cd_nodes tx)" "distinct (map TargetID obs)"
    and "\<forall>ob \<in> set obs. \<not> key_taken req ob tx"
  shows "\<exists>tx'. insert_loop w req obs tx = (None, tx')"
  using assms
proof (induction obs arbitrary: tx)
  case (Cons ob obs)
  obtain x tx1 where x: "insert_obs w req ob tx = (x, tx1)" by fastforce
  from x show ?case
  proof (cases rule: insert_obs_cases)
    case (added ts)
    have "\<not> key_taken req ob' tx1" if o: "ob' \<in> set obs" for ob'
    proof -
      have "TargetID ob' \<noteq> TargetID ob" using Cons.prems(3) imageI [OF o, of TargetID] by auto
      then show ?thesis
        using Cons.prems(4) added(2) o
        by (simp add: key_taken_def appends_def result_key_def obs_row_def)
    qed
    then have "\<forall>ob' \<in> set obs. \<not> key_taken req ob' tx1" by blast
    moreover have "cd_nodes tx1 = cd_nodes tx" using added(2) by (simp add: appends_def)
    ultimately show ?thesis using Cons.IH [of tx1] Cons.prems x added(1) by simp
  qed (use Cons.prems in auto)
qed simp

lemma persistResults_fresh:
  assumes "faultless w" "SourceID req \<in> nr_id ` set (cd_nodes db)" "distinct (map TargetID (Results req))"
    and "\<forall>ob \<in> set (Results req). \<not> key_taken req ob db"
  shows "\<exists>db'. persistResults w req db = (Inr 201, db')"
proof -
  let ?db2 = "db\<lparr>cd_calls := Suc (Suc (cd_calls db))\<rparr>"
  have "\<forall>ob \<in> set (Results req). \<not> key_taken req ob ?db2" using assms(4) by (simp add: key_taken_def)
  then obtain tx where "insert_loop w req (Results req) ?db2 = (None, tx)"
    using insert_loop_fresh [OF assms(1), of req ?db2 "Results req"] assms(2,3) by auto
  then show ?thesis using assms(1) by (simp add: persistResults_def cd_call_def)
qed

definition sample_request :: results_request where
  "sample_request = \<lparr>SourceID = ''h1'', ProbeRunID = ''run'', ObservedAt = 5,
     Results = [\<lparr>TargetID = ''t1'', LatencyMs = Some 3, ObsError = []\<rparr>,
                \<lparr>TargetID = ''t2'', LatencyMs = None, ObsError = ''timeout''\<rparr>],
     SpoolMetadata = \<lparr>SpoolDepth = 2, SpoolOldestAgeSeconds = 9, SpoolDropsTotal = 0, DrainAttempt = 1\<rparr>\<rparr>"

definition sample_ctl :: ctl_db where
  "sample_ctl = ctl_init\<lparr>cd_nodes := [set_node sample_hub (fresh_node_row ''9'' ''h1'')]\<rparr>"

lemma sample_ctl_ids: "nr_id ` set (cd_nodes sample_ctl) = {''h1''}"
  by (simp add: sample_ctl_def fresh_node_row_def)

lemma sample_created: "\<exists>db'. persistResults sample_world sample_request sample_ctl = (Inr 201, db')"
  by (rule persistResults_fresh [OF sample_world_faultless])
    (simp_all add: sample_ctl_ids sample_request_def key_taken_def sample_ctl_def ctl_init_def
      fresh_node_row_def)

theorem persistResults_idempotent_witness:
  "\<exists>db1. persistResults sample_world sample_request sample_ctl = (Inr 201, db1) \<and>
     fst (persistResults sample_world sample_request db1) = Inr 409"
proof -
  obtain db1 where p: "persistResults sample_world sample_request sample_ctl = (Inr 201, db1)"
    using sample_created by blast
  have "Results sample_request \<noteq> []" by (simp add: sample_request_def)
  from persistResults_idempotent [OF sample_world_faultless _ this p] show ?thesis using p by simp
qed

section \<open>Preservation of the invariant\<close>

lemma ctl_inv_insert_obs:
  assumes "ctl_inv tx" "insert_obs w req ob tx = (r, tx')"
  shows "ctl_inv tx'"
  using assms(2)
proof (cases rule: insert_obs_cases)
  case (added ts)
  let ?row = "obs_row req ts (cd_next_id tx) ob"
  have "result_key ?row \<notin> result_key ` set (cd_results tx)"
    using added(3) by (simp add: key_taken_def result_key_def obs_row_def)
  moreover have "rr_id ?row \<notin> rr_id ` set (cd_results tx)"
    using assms(1) by (auto simp: ctl_inv_def obs_row_def)
  moreover have "\<forall>r \<in> set (cd_results tx). rr_id r < cd_next_id tx + 1"
    using assms(1) by (fastforce simp: ctl_inv_def)
  moreover have "rr_id ?row = cd_next_id tx" "rr_source ?row = SourceID req" by (simp_all add: obs_row_def)
  ultimately show ?thesis
    using assms(1) added(2,4) by (simp add: ctl_inv_def appends_def)
qed (use assms(1) ctl_inv_same in blast)+

lemma ctl_inv_insert_loop:
  "ctl_inv tx \<Longrightarrow> insert_loop w req obs tx = (r, tx') \<Longrightarrow> ctl_inv tx'"
  by (induction w req obs tx arbitrary: r tx' rule: insert_loop.induct)
    (auto split: prod.splits option.splits if_splits dest: ctl_inv_insert_obs)

lemma ctl_inv_persistResults:
  assumes "ctl_inv db" "persistResults w req db = (r, db')"
  shows "ctl_inv db'"
proof -
  have calls: "ctl_inv (x\<lparr>cd_calls := n\<rparr>) = ctl_inv x" for x n by (simp add: ctl_inv_def)
  have lp: "ctl_inv tx" if "insert_loop w req (Results req) (db\<lparr>cd_calls := n\<rparr>) = (x, tx)" for n x tx
    using ctl_inv_insert_loop [OF _ that] assms(1) calls by simp
  show ?thesis
    using assms lp
    by (auto simp: persistResults_def cd_call_def calls split: option.splits prod.splits if_splits)
qed

section \<open>The handler\<close>

lemma observeIngest_db: "same_ctl (sv_db s) (sv_db (observeIngest w i st t s))"
  by (auto simp: observeIngest_def on_db_def cd_now_def)

lemma set_gauges_sel [simp]:
  "sv_db (set_gauges i req s) = sv_db s" "sv_dropsMu (set_gauges i req s) = sv_dropsMu s"
  "sv_lastDrops (set_gauges i req s) = sv_lastDrops s" "sv_metrics (set_gauges i req s) = None \<longleftrightarrow> sv_metrics s = None"
  by (simp_all add: set_gauges_def Let_def)

lemma count_results_sel [simp]:
  "sv_db (count_results req st s) = sv_db s" "sv_dropsMu (count_results req st s) = sv_dropsMu s"
  "sv_lastDrops (count_results req st s) = sv_lastDrops s"
  by (simp_all add: count_results_def)

lemma drops_section_sel:
  "drops_section i n s = Some s1 \<Longrightarrow>
   sv_db s1 = sv_db s \<and> sv_dropsMu s1 = sv_dropsMu s \<and> sv_lastDrops s1 = (sv_lastDrops s)(i := n) \<and>
   (sv_metrics s1 = None \<longleftrightarrow> sv_metrics s = None)"
  by (auto simp: drops_section_def split: if_splits)

text \<open>When the bookkeeping of a request does not get past \<open>dropsMu\<close>: a panic has left it locked, or this request
  makes the difference of the drops overflow.\<close>

definition ingest_stuck :: "string \<Rightarrow> results_request \<Rightarrow> server \<Rightarrow> bool" where
  "ingest_stuck i req s \<longleftrightarrow> sv_metrics s \<noteq> None \<and>
     (sv_dropsMu s \<or> sv_lastDrops s i < SpoolDropsTotal (SpoolMetadata req) \<and>
        drops_delta i (SpoolDropsTotal (SpoolMetadata req)) s < 0)"

lemma ingest_stuck_db [simp]: "ingest_stuck i req (s\<lparr>sv_db := d\<rparr>) = ingest_stuck i req s"
  by (simp add: ingest_stuck_def drops_delta_def)

lemma record_ingest_outcome:
  assumes "record_ingest i req st s = (b, s1)"
  shows "b \<longleftrightarrow> \<not> ingest_stuck i req s" "sv_db s1 = sv_db s" "\<not> b \<Longrightarrow> sv_dropsMu s1"
  using assms
  by (auto simp: record_ingest_def drops_metric_def drops_section_def drops_delta_def ingest_stuck_def
      split: if_splits option.splits prod.splits bool.splits)

lemma broadcastResults_db [simp]: "sv_db (broadcastResults c i obs s) = sv_db s"
  by (simp add: broadcastResults_def)

text \<open>After the transaction the tables change only in the node's spool columns.\<close>

lemma finish_results_effect:
  assumes "finish_results w c i req st t s = (resp, s')"
  shows "rs_status resp = (if ingest_stuck i req s then 0 else st)" "cd_results (sv_db s') = cd_results (sv_db s)"
    "cd_next_id (sv_db s') = cd_next_id (sv_db s)" "cd_meta (sv_db s') = cd_meta (sv_db s)"
    "registry (sv_db s') = registry (sv_db s)" "ctl_inv (sv_db s) \<Longrightarrow> ctl_inv (sv_db s')"
    "hub_list x (sv_db s') = hub_list x (sv_db s)" "map nr_id (cd_nodes (sv_db s')) = map nr_id (cd_nodes (sv_db s))"
    "faultless w \<Longrightarrow> ctl_inv (sv_db s) \<Longrightarrow> \<not> ingest_stuck i req s \<Longrightarrow> rs_body resp = BStatus (Some (version (sv_db s)))"
    "ingest_stuck i req s \<Longrightarrow> sv_dropsMu s'"
proof -
  obtain now db1 where n: "cd_now w (sv_db s) = (now, db1)" by fastforce
  obtain u db2 where u: "UpdateSpoolStats w i (request_stats req now) db1 = (u, db2)" by fastforce
  obtain b s3 where r: "record_ingest i req st (s\<lparr>sv_db := db2\<rparr>) = (b, s3)" by fastforce
  note r3 = record_ingest_outcome [OF r, simplified]
  define s4 where "s4 = (if st = 201 then broadcastResults c i (Results req) s3 else s3)"
  define s5 where "s5 = observeIngest w i st t s4"
  obtain v db6 where v: "TargetsVersion w (sv_db s5) = (v, db6)" by fastforce
  have out: "if b then s' = s5\<lparr>sv_db := db6\<rparr> \<and> resp = writeJSON st (BStatus (case v of Inr x \<Rightarrow> Some x | Inl _ \<Rightarrow> None))
     else s' = s3 \<and> resp = no_answer"
    using assms n u r v by (auto simp: finish_results_def on_db_def s4_def s5_def Let_def split: bool.splits)
  have "sv_db s4 = db2" using r3(2) by (simp add: s4_def)
  then have s5: "same_ctl db2 (sv_db s5)" using observeIngest_db [of s4 w i st t] by (simp add: s5_def)
  then have "same_ctl db2 db6" using TargetsVersion_frame [OF v] same_ctl_trans by blast
  then have s2: "same_ctl db2 (sv_db s')" using out r3(2) by (cases b) simp_all
  note e = UpdateSpoolStats_effect [OF u] UpdateSpoolStats_keeps [OF u]
  note f1 = cd_now_frame [OF n]
  show "rs_status resp = (if ingest_stuck i req s then 0 else st)" using out r3(1) by (auto split: if_splits)
  show "cd_results (sv_db s') = cd_results (sv_db s)" "cd_next_id (sv_db s') = cd_next_id (sv_db s)"
    "cd_meta (sv_db s') = cd_meta (sv_db s)"
    using e(1) f1 s2 by (simp_all add: same_ctl_def)
  show "registry (sv_db s') = registry (sv_db s)"
    using e(2) registry_same [OF s2] registry_same [OF f1] by simp
  show "hub_list x (sv_db s') = hub_list x (sv_db s)"
    using e(4) [of x] f1 s2 hub_list_same [of "sv_db s'" db2 x] hub_list_same [of db1 "sv_db s" x]
    by (simp add: same_ctl_def)
  show "map nr_id (cd_nodes (sv_db s')) = map nr_id (cd_nodes (sv_db s))"
    using e(5) f1 s2 by (simp add: same_ctl_def)
  show "ctl_inv (sv_db s) \<Longrightarrow> ctl_inv (sv_db s')"
    using ctl_inv_same [OF f1] ctl_inv_UpdateSpoolStats [OF _ u] ctl_inv_same [OF s2] by simp
  show "ingest_stuck i req s \<Longrightarrow> sv_dropsMu s'" using out r3(1,3) by (auto split: if_splits)
  assume a: "faultless w" "ctl_inv (sv_db s)" "\<not> ingest_stuck i req s"
  have m: "cd_meta (sv_db s5) = cd_meta (sv_db s)" using e(1) f1 s5 by (simp add: same_ctl_def)
  show "rs_body resp = BStatus (Some (version (sv_db s)))"
    using v a m r3(1) out ctl_inv_version [OF a(2)] by (auto simp: TargetsVersion_def cd_call_def version_def)
qed

text \<open>The ways through the handler of an authenticated request.\<close>

lemma handleResults_cases:
  assumes "handleResults w c (Some nd) r s = (resp, s')"
  obtains (refused) "rs_status resp = 422" "same_ctl (sv_db s) (sv_db s')"
  | (failed) req x db0 db1 where "rs_status resp = 500" "json_results c (rq_body r) = Inr req"
      "validateResultsRequest (nd_ID nd) req = None" "same_ctl (sv_db s) db0"
      "persistResults w req db0 = (Inl x, db1)" "same_ctl db1 (sv_db s')"
  | (ingested) req st s1 db0 db1 t where "json_results c (rq_body r) = Inr req"
      "validateResultsRequest (nd_ID nd) req = None" "same_ctl (sv_db s) db0"
      "persistResults w req db0 = (Inr st, db1)" "sv_db s1 = db1"
      "finish_results w c (nd_ID nd) req st t s1 = (resp, s')"
      "s1 = s\<lparr>sv_db := db1\<rparr>"
proof -
  obtain t db0 where n: "cd_now w (sv_db s) = (t, db0)" by fastforce
  note f = cd_now_frame [OF n]
  let ?s0 = "s\<lparr>sv_db := db0\<rparr>"
  have o: "same_ctl db0 (sv_db (observeIngest w i k t ?s0))" for i k
    using observeIngest_db [of ?s0] by simp
  show thesis
  proof (cases "json_results c (rq_body r)")
    case (Inl e)
    then show thesis
      using assms n same_ctl_trans [OF f o]
      by (intro refused) (auto simp: handleResults_def on_db_def)
  next
    case (Inr req)
    show thesis
    proof (cases "validateResultsRequest (nd_ID nd) req")
      case (Some e)
      then show thesis
        using assms n Inr same_ctl_trans [OF f o]
        by (intro refused) (auto simp: handleResults_def on_db_def)
    next
      case None
      obtain q db1 where q: "persistResults w req db0 = (q, db1)" by fastforce
      show thesis
      proof (cases q)
        case qe: (Inl x)
        have "same_ctl db1 (sv_db (observeIngest w (nd_ID nd) 500 t (s\<lparr>sv_db := db1\<rparr>)))"
          using observeIngest_db [of "s\<lparr>sv_db := db1\<rparr>"] by simp
        then show thesis
          using assms n Inr None q qe f
          by (intro failed [of req db0 x db1]) (auto simp: handleResults_def on_db_def)
      next
        case qr: (Inr st)
        then show thesis
          using assms n Inr None q f
          by (intro ingested [of req db0 st db1 "s\<lparr>sv_db := db1\<rparr>" t]) (auto simp: handleResults_def on_db_def)
      qed
    qed
  qed
qed

text \<open>C11: the contract of \<open>POST /api/v1/results\<close> with the database. For an authenticated node the answer is
  one of 201, 409, 422 and 500. Answer 201: exactly the observations of the decoded request were
  appended, all under the authenticated node's own id. Answers 409 and 422: no result row was added or
  changed. Answer 500: the same, or a failing commit took effect and the whole batch was appended. A request gets no
  answer at all (status 0) only when it is left at \<open>dropsMu\<close>, which a panic has locked for ever, or when it
  causes that panic itself, because the reported drops exceed the last ones by more than an \<open>int64\<close> holds; its batch
  is then stored as a whole or not at all.\<close>

theorem handleResults_contract:
  assumes "handleResults w c (Some nd) r s = (resp, s')"
  shows "rs_status resp \<in> {0, 201, 409, 422, 500} \<and>
    (rs_status resp \<in> {409, 422} \<longrightarrow> cd_results (sv_db s') = cd_results (sv_db s)) \<and>
    (rs_status resp \<in> {0, 201, 500} \<longrightarrow>
      (rs_status resp \<noteq> 201 \<and> cd_results (sv_db s') = cd_results (sv_db s)) \<or>
      (\<exists>req rows. json_results c (rq_body r) = Inr req \<and> cd_results (sv_db s') = cd_results (sv_db s) @ rows \<and>
         stored req rows \<and> SourceID req = nd_ID nd)) \<and>
    (rs_status resp = 0 \<longrightarrow> sv_dropsMu s' \<and>
      (sv_dropsMu s \<or>
       (\<exists>req. json_results c (rq_body r) = Inr req \<and> sv_lastDrops s (nd_ID nd) < SpoolDropsTotal (SpoolMetadata req) \<and>
          wrap64 (SpoolDropsTotal (SpoolMetadata req) - sv_lastDrops s (nd_ID nd)) < 0)))"
  using assms
proof (cases rule: handleResults_cases)
  case refused
  then show ?thesis by (simp add: same_ctl_def)
next
  case (failed req x db0 db1)
  have "SourceID req = nd_ID nd" using failed(3) by (simp add: validateResultsRequest_def split: if_splits)
  from failed(5) show ?thesis
    using failed \<open>SourceID req = nd_ID nd\<close>
    by (cases rule: persistResults_cases) (auto simp: same_ctl_def appends_def)
next
  case (ingested req st s1 db0 db1 t)
  have "SourceID req = nd_ID nd" using ingested(2) by (simp add: validateResultsRequest_def split: if_splits)
  from ingested(4) show ?thesis
    using ingested(1,3,5,7) finish_results_effect(1,2,10) [OF ingested(6)] \<open>SourceID req = nd_ID nd\<close>
    by (cases rule: persistResults_cases)
      (auto simp: same_ctl_def appends_def ingest_stuck_def drops_delta_def split: if_splits)
qed

lemma ctl_inv_handleResults:
  assumes "ctl_inv (sv_db s)" "handleResults w c (Some nd) r s = (resp, s')"
  shows "ctl_inv (sv_db s')"
  using assms(2)
proof (cases rule: handleResults_cases)
  case refused
  then show ?thesis using assms(1) ctl_inv_same by blast
next
  case (failed req x db0 db1)
  then show ?thesis using assms(1) ctl_inv_same ctl_inv_persistResults by metis
next
  case (ingested req st s1 db0 db1 t)
  have "ctl_inv (sv_db s1)"
    using ctl_inv_persistResults [OF _ ingested(4)] ctl_inv_same [OF ingested(3)] assms(1) ingested(5) by simp
  then show ?thesis by (rule finish_results_effect(6) [OF ingested(6)])
qed

text \<open>In a database that does not fail, a valid batch of a registered node that is not stored yet is
  answered 201, and one whose first target is stored already 409.\<close>

lemma handleResults_fresh:
  assumes "faultless w" "json_results c (rq_body r) = Inr req" "validateResultsRequest (nd_ID nd) req = None"
    and "nd_ID nd \<in> nr_id ` set (cd_nodes (sv_db s))" "\<forall>ob \<in> set (Results req). \<not> key_taken req ob (sv_db s)"
    and "\<not> ingest_stuck (nd_ID nd) req s"
  shows "\<exists>resp s'. handleResults w c (Some nd) r s = (resp, s') \<and> rs_status resp = 201"
proof -
  obtain t db0 where n: "cd_now w (sv_db s) = (t, db0)" by fastforce
  have sm: "cd_nodes db0 = cd_nodes (sv_db s)" "cd_results db0 = cd_results (sv_db s)"
    using cd_now_frame [OF n] by (simp_all add: same_ctl_def)
  have src: "SourceID req = nd_ID nd" and d: "distinct (map TargetID (Results req))"
    using assms(3) by (auto simp: validateResultsRequest_def validate_obs_None split: if_splits)
  have "\<forall>ob \<in> set (Results req). \<not> key_taken req ob db0" using assms(5) sm by (simp add: key_taken_def)
  then obtain db1 where q: "persistResults w req db0 = (Inr 201, db1)"
    using persistResults_fresh [OF assms(1), of req db0] assms(4) d src sm by auto
  obtain resp s' where "finish_results w c (nd_ID nd) req 201 t (s\<lparr>sv_db := db1\<rparr>) = (resp, s')" by fastforce
  then show ?thesis
    using finish_results_effect(1) n q assms(2,3,6) by (fastforce simp: handleResults_def on_db_def)
qed

definition sample_codec :: codec where
  "sample_codec = \<lparr>json_results = (\<lambda>b. if b = ''p'' then Inr sample_request else Inl ''EOF''),
     json_create = (\<lambda>_. Inl ''EOF''), json_patch = (\<lambda>_. Inl ''EOF''), json_event = pe_TargetID,
     json_payload = (\<lambda>_. Inr ''p''),
     json_body = (\<lambda>b. case b of BStatus (Some v) \<Rightarrow> itoa v | _ \<Rightarrow> []),
     json_version = (\<lambda>s. case atoi s of Inr v \<Rightarrow> Some v | Inl _ \<Rightarrow> None),
     json_targets = (\<lambda>_. Inl ''EOF'')\<rparr>"

definition sample_server :: server where
  "sample_server = (server_New sample_ctl)\<lparr>sv_metrics := Some new_metrics\<rparr>"

definition sample_rq :: request where
  "sample_rq = \<lparr>rq_method = ''POST'', rq_header = (\<lambda>_. []), rq_path_id = [], rq_ticket = [], rq_form = (\<lambda>_. []),
     rq_cookie = None, rq_host = ''c'', rq_remote = ''1.2.3.4:5'', rq_tls = False, rq_body = ''p''\<rparr>"

lemma sample_server_db [simp]: "sv_db sample_server = sample_ctl"
  by (simp add: sample_server_def server_New_def NewWithOptions_def)

lemma server_New_drops [simp]: "sv_lastDrops (server_New db) = (\<lambda>_. 0)" "\<not> sv_dropsMu (server_New db)"
  by (simp_all add: server_New_def NewWithOptions_def)

lemma sample_not_stuck [simp]: "\<not> ingest_stuck i sample_request sample_server" "\<not> ingest_stuck i sample_request (server_New db)"
  by (simp_all add: ingest_stuck_def sample_server_def sample_request_def)

theorem handleResults_contract_witness:
  "\<exists>resp s'. handleResults sample_world sample_codec (Some sample_hub) sample_rq sample_server = (resp, s') \<and>
     rs_status resp = 201 \<and> length (cd_results (sv_db s')) = 2"
proof -
  have j: "json_results sample_codec (rq_body sample_rq) = Inr sample_request"
    by (simp add: sample_codec_def sample_rq_def)
  have "validateResultsRequest (nd_ID sample_hub) sample_request = None"
    by (simp add: validateResultsRequest_def sample_request_def sample_hub_def time_is_zero_def)
  moreover have "nd_ID sample_hub \<in> nr_id ` set (cd_nodes (sv_db sample_server))"
    by (simp add: sample_ctl_ids) (simp add: sample_hub_def)
  ultimately obtain resp s' where
    h: "handleResults sample_world sample_codec (Some sample_hub) sample_rq sample_server = (resp, s')"
      "rs_status resp = 201"
    using handleResults_fresh [OF sample_world_faultless j, of sample_hub sample_server]
    by (auto simp: key_taken_def sample_ctl_def ctl_init_def)
  from handleResults_contract [OF h(1)] h(2) j obtain rows where
    "cd_results (sv_db s') = cd_results sample_ctl @ rows" "stored sample_request rows" by auto
  then have "length (cd_results (sv_db s')) = 2"
    using stored_length [of sample_request rows] by (simp add: sample_ctl_def ctl_init_def sample_request_def)
  then show ?thesis using h by blast
qed

section \<open>The counter of drops\<close>

text \<open>The reports of an agent, one after the other.\<close>

definition drops_reports :: "string \<Rightarrow> go_int list \<Rightarrow> server \<Rightarrow> server" where
  "drops_reports i rs s = fold (\<lambda>n s. snd (drops_metric i n s)) rs s"

lemma drops_metric_step:
  assumes "sv_metrics s = Some m" "\<not> sv_dropsMu s" "0 \<le> sv_lastDrops s i" "0 \<le> n" "int64 n"
  obtains m' s' where "drops_metric i n s = (True, s')" "sv_metrics s' = Some m'" "\<not> sv_dropsMu s'" "sv_lastDrops s' i = n"
    "NodeSpoolDropsTotal m' i = NodeSpoolDropsTotal m i + max 0 (n - sv_lastDrops s i)"
proof (cases "sv_lastDrops s i < n")
  case True
  with assms(3-5) have d: "drops_delta i n (s\<lparr>sv_dropsMu := True\<rparr>) = n - sv_lastDrops s i"
    by (simp add: drops_delta_def int64_def)
  show thesis
    by (rule that [where m' = "m\<lparr>NodeSpoolDropsTotal := (NodeSpoolDropsTotal m)(i := NodeSpoolDropsTotal m i + (n - sv_lastDrops s i))\<rparr>"
          and s' = "snd (drops_metric i n s)"])
      (use True d assms(1,2) in \<open>simp_all add: drops_metric_def drops_section_def on_metrics_def\<close>)
next
  case False
  show thesis
    by (rule that [where m' = m and s' = "snd (drops_metric i n s)"]) (use False assms(1,2) in \<open>simp_all add: drops_metric_def drops_section_def\<close>)
qed

text \<open>As long as an agent reports numbers that are not negative the section never panics, the Prometheus counter of its
  drops never decreases, and while its cumulative count does not decrease the counter follows it exactly: its growth is
  the growth of the reported total.\<close>

theorem drops_counter_follows:
  assumes "sv_metrics s = Some m" "\<not> sv_dropsMu s" "0 \<le> sv_lastDrops s i" "list_all (\<lambda>n. 0 \<le> n \<and> int64 n) rs"
  shows "\<exists>m'. sv_metrics (drops_reports i rs s) = Some m' \<and> \<not> sv_dropsMu (drops_reports i rs s) \<and>
    NodeSpoolDropsTotal m i \<le> NodeSpoolDropsTotal m' i \<and>
    (sorted (sv_lastDrops s i # rs) \<longrightarrow>
       NodeSpoolDropsTotal m' i - NodeSpoolDropsTotal m i = last (sv_lastDrops s i # rs) - sv_lastDrops s i)"
  using assms
proof (induction rs arbitrary: s m)
  case (Cons n rs)
  from Cons.prems(4) have n: "0 \<le> n" "int64 n" by simp_all
  obtain m1 s1 where m1: "drops_metric i n s = (True, s1)" "sv_metrics s1 = Some m1" "\<not> sv_dropsMu s1"
    "sv_lastDrops s1 i = n" "NodeSpoolDropsTotal m1 i = NodeSpoolDropsTotal m i + max 0 (n - sv_lastDrops s i)"
    by (rule drops_metric_step [OF Cons.prems(1-3) n])
  have "0 \<le> sv_lastDrops s1 i" "list_all (\<lambda>n. 0 \<le> n \<and> int64 n) rs" using Cons.prems(4) m1(4) by simp_all
  from Cons.IH [OF m1(2,3) this] m1 show ?case by (auto simp: drops_reports_def)
qed (simp add: drops_reports_def)

theorem drops_counter_follows_witness:
  "\<exists>m'. sv_metrics (drops_reports ''h1'' [3, 3, 7] sample_server) = Some m' \<and> NodeSpoolDropsTotal m' ''h1'' = 7"
proof -
  have "sv_metrics sample_server = Some new_metrics" "sv_lastDrops sample_server ''h1'' = 0" "\<not> sv_dropsMu sample_server"
    by (simp_all add: sample_server_def)
  then show ?thesis
    using drops_counter_follows [of sample_server new_metrics "''h1''" "[3, 3, 7]"]
    by (auto simp: new_metrics_def int64_def)
qed

text \<open>A negative report is stored like any other; the next positive one may overflow, and then the mutex stays locked.\<close>

lemma negative_report_locks:
  "sv_dropsMu (drops_reports ''h1'' [- (2 ^ 62), 2 ^ 62] sample_server)"
  by (simp add: drops_reports_def drops_metric_def drops_section_def drops_delta_def sample_server_def wrap64_def
      signed_take_bit_eq_take_bit_shift take_bit_eq_mod)

end
