(* ===== verification/Auth_Props.thy ===== *)
theory Auth_Props
  imports Auth_Admin Results_Props
begin

text \<open>
  Who gets through the two middlewares, and what the admin API does to the registry.
\<close>

section \<open>Authentication\<close>

lemma constantTimeStringEq_iff [simp]: "constantTimeStringEq a b \<longleftrightarrow> a = b"
  by (auto simp: constantTimeStringEq_def xor_fold_0)

text \<open>The node a request authenticates as, stated on the header bytes, the registry and the hash: the header is
  \<open>Bearer\<close> in any case, a space and a token, the named node is registered, and the SHA-256 of the token is the
  digest whose hex form is stored.\<close>

definition has_bearer :: "string \<Rightarrow> bool" where
  "has_bearer h \<longleftrightarrow> to_lower (take 7 h) = ''bearer '' \<and> drop 7 h \<noteq> []"

definition authenticates :: "request \<Rightarrow> server \<Rightarrow> node option" where
  "authenticates r s =
     (let h = rq_header r ''Authorization''; i = rq_header r ''X-NLM-Node-Id'' in
      if \<not> has_bearer h \<or> i = [] then None
      else case registry (sv_db s) i of
             None \<Rightarrow> None
           | Some nd \<Rightarrow>
               if hex_decode (nd_SecretHash nd) = Some (sha256 (trim_space (drop 7 h))) then Some nd else None)"

lemma parseBearer_code: "parseBearer h = (if has_bearer h then Some (trim_space (drop 7 h)) else None)"
proof -
  have b: "to_lower ''Bearer '' = ''bearer ''" by code_simp
  show ?thesis
    unfolding parseBearer_def equal_fold_def b has_bearer_def
    by (cases "to_lower (take 7 h) = ''bearer ''"; cases "drop 7 h = []") (simp_all only: drop_eq_Nil simp_thms if_True if_False)
qed

lemma authenticates_code:
  "authenticates r s =
     (case parseBearer (rq_header r ''Authorization'') of
        None \<Rightarrow> None
      | Some token \<Rightarrow>
          (case registry (sv_db s) (rq_header r ''X-NLM-Node-Id'') of
             None \<Rightarrow> None
           | Some nd \<Rightarrow> if rq_header r ''X-NLM-Node-Id'' \<noteq> [] \<and> VerifySecret nd token then Some nd else None))"
  by (cases "has_bearer (rq_header r ''Authorization'')"; cases "registry (sv_db s) (rq_header r ''X-NLM-Node-Id'')")
    (simp_all add: authenticates_def parseBearer_code Let_def VerifySecret_iff)

lemma bearerAuth_cases:
  assumes "bearerAuth w nxt r s = (resp, s')"
  obtains (refused) "rs_status resp = 401" "\<exists>n. s' = s \<or> s' = s\<lparr>sv_db := sv_db s\<lparr>cd_calls := n\<rparr>\<rparr>" "authenticates r s = None"
  | (failed) n where "rs_status resp = 500" "s' = s\<lparr>sv_db := sv_db s\<lparr>cd_calls := n\<rparr>\<rparr>" "\<not> faultless w"
  | (passed) nd n where "authenticates r s = Some nd" "nd_ID nd = rq_header r ''X-NLM-Node-Id''"
      "nxt (Some nd) r (s\<lparr>sv_db := sv_db s\<lparr>cd_calls := n\<rparr>\<rparr>) = (resp, s')"
proof -
  let ?i = "rq_header r ''X-NLM-Node-Id''"
  let ?s1 = "s\<lparr>sv_db := sv_db s\<lparr>cd_calls := Suc (cd_calls (sv_db s))\<rparr>\<rparr>"
  show thesis
  proof (cases "parseBearer (rq_header r ''Authorization'') = None \<or> ?i = []")
    case True
    then show thesis
      using assms by (intro refused) (auto simp: bearerAuth_def authenticates_code split: option.splits)
  next
    case False
    then obtain token where t: "parseBearer (rq_header r ''Authorization'') = Some token" "?i \<noteq> []" by auto
    show thesis
    proof (cases "fault w (cd_calls (sv_db s))")
      case (Some e)
      then have "\<not> faultless w" by (metis faultlessD option.distinct(1))
      then show thesis
        using assms t Some
        by (intro failed [of "Suc (cd_calls (sv_db s))"])
          (auto simp: bearerAuth_def on_db_def node_Get_def cd_call_def Let_def)
    next
      case nf: None
      show thesis
      proof (cases "find_node ?i (cd_nodes (sv_db s))")
        case None
        then show thesis
          using assms t nf
          by (intro refused)
            (auto simp: bearerAuth_def on_db_def node_Get_def cd_call_def Let_def authenticates_code registry_def)
      next
        case (Some row)
        have i: "nd_ID (node_of row) = ?i" using find_node_Some [OF Some] by (simp add: node_of_def)
        show thesis
        proof (cases "VerifySecret (node_of row) token")
          case True
          then show thesis
            using assms t nf Some i
            by (intro passed [of "node_of row" "Suc (cd_calls (sv_db s))"])
              (simp_all add: bearerAuth_def on_db_def node_Get_def cd_call_def Let_def authenticates_code registry_def)
        next
          case False
          then show thesis
            using assms t nf Some
            by (intro refused)
              (auto simp: bearerAuth_def on_db_def node_Get_def cd_call_def Let_def authenticates_code registry_def)
        qed
      qed
    qed
  qed
qed

text \<open>C12: the guarded handler of an agent route runs only for a request whose header carries a token with the
  SHA-256 digest stored for the node it names, and then with exactly that node; every other request is answered 401 (500 if
  the database fails) without running the handler or touching the tables.\<close>

theorem bearerAuth_guards:
  "case authenticates r s of
     None \<Rightarrow> rs_status (fst (bearerAuth w nxt r s)) \<in> {401, 500} \<and>
             same_ctl (sv_db s) (sv_db (snd (bearerAuth w nxt r s)))
   | Some nd \<Rightarrow> nd_ID nd = rq_header r ''X-NLM-Node-Id'' \<and>
             (\<exists>n. bearerAuth w nxt r s = nxt (Some nd) r (s\<lparr>sv_db := sv_db s\<lparr>cd_calls := n\<rparr>\<rparr>) \<or>
                  \<not> faultless w \<and> rs_status (fst (bearerAuth w nxt r s)) = 500)"
proof -
  obtain resp s' where b: "bearerAuth w nxt r s = (resp, s')" by fastforce
  then show ?thesis
  proof (cases rule: bearerAuth_cases)
    case refused
    then show ?thesis using b by auto
  next
    case (failed n)
    have "nd_ID nd = rq_header r ''X-NLM-Node-Id''" if "authenticates r s = Some nd" for nd
      using that find_node_Some
      by (auto simp: authenticates_code registry_def node_of_def split: option.splits if_splits)
    then show ?thesis using b failed by (auto split: option.splits)
  next
    case (passed nd n)
    have "bearerAuth w nxt r s = nxt (Some nd) r (s\<lparr>sv_db := sv_db s\<lparr>cd_calls := n\<rparr>\<rparr>)"
      using b passed(3) by simp
    then show ?thesis using passed(1,2) by auto
  qed
qed

text \<open>The admin routes run exactly for requests whose bearer token is the configured one; without a
  configured token every request is answered 503.\<close>

theorem adminAuth_iff:
  "adminAuth nxt r s =
     (if sv_adminToken s = [] then (writeJSONError 503 ''admin api disabled (NLM_ADMIN_TOKEN not set)'', s)
      else case parseBearer (rq_header r ''Authorization'') of
             None \<Rightarrow> (writeJSONError 401 ''missing bearer'', s)
           | Some token \<Rightarrow> if token = sv_adminToken s then nxt r s
                          else (writeJSONError 401 ''bad admin token'', s))"
  by (simp add: adminAuth_def parseBearer_def Let_def)

section \<open>The admin API\<close>

lemma on_db_sel: "on_db f s = (r, s') \<Longrightarrow> f (sv_db s) = (r, sv_db s') \<and> s' = s\<lparr>sv_db := sv_db s'\<rparr>"
  by (auto simp: on_db_result)

lemma create_node_effect:
  assumes "handleAdminCreateNode w c rnd r s = (resp, s')"
  shows "if rs_status resp = 201
         then \<exists>n secret. rs_body resp = BCreated (admin_node_of n) secret \<and>
                hex_decode (nd_SecretHash n) = Some (sha256 secret) \<and>
                registry (sv_db s) (nd_ID n) = None \<and> registry (sv_db s') = (registry (sv_db s))(nd_ID n \<mapsto> n)
         else registry (sv_db s') = registry (sv_db s)"
proof (cases "json_create c (rq_body r)")
  case (Inl e)
  then show ?thesis using assms by (auto simp: handleAdminCreateNode_def)
next
  case (Inr req)
  show ?thesis
  proof (cases "validateAdminNodeFields (ac_ID req) (ac_Role req) (ac_Address req)")
    case (Some e)
    then show ?thesis using assms Inr by (auto simp: handleAdminCreateNode_def)
  next
    case None
    obtain g db1 where g: "node_Get w (ac_ID req) (sv_db s) = (g, db1)" by fastforce
    note gv = reg.get_view [OF g]
    show ?thesis
    proof (cases "g = Inl ErrUnknownNode")
      case False
      then show ?thesis
        using assms Inr None g gv by (cases g) (auto simp: handleAdminCreateNode_def on_db_def)
    next
      case True
      then have free: "registry (sv_db s) (ac_ID req) = None" using reg.get_unknown g by blast
      let ?sec = "if ac_Secret req = [] then mintSecret rnd else Inr (ac_Secret req)"
      show ?thesis
      proof (cases ?sec)
        case se: (Inl e)
        then show ?thesis
          using assms Inr None g gv True by (auto simp: handleAdminCreateNode_def on_db_def split: if_splits)
      next
        case sr: (Inr secret)
        let ?n = "\<lparr>nd_ID = ac_ID req, nd_Role = ac_Role req, nd_SecretHash = HashSecret secret,
                    nd_Address = ac_Address req, nd_Disabled = ac_Disabled req\<rparr>"
        obtain u db2 where u: "node_Upsert w ?n db1 = (u, db2)" by fastforce
        have "handleAdminCreateNode w c rnd r s =
            (case u of Some _ \<Rightarrow> (writeJSONError 500 ''internal error'', s\<lparr>sv_db := db2\<rparr>)
             | None \<Rightarrow> (writeJSON 201 (BCreated (admin_node_of ?n) secret), s\<lparr>sv_db := db2\<rparr>))"
          using Inr None g True sr u by (simp add: handleAdminCreateNode_def on_db_def split: option.splits)
        then show ?thesis
          using assms u gv free reg.upsert_ok [of w ?n db1 db2] reg.upsert_err [of w ?n db1 _ db2]
          by (cases u) (auto intro!: exI [of _ ?n])
      qed
    qed
  qed
qed

text \<open>C38: the handler of the admin API for node creation, when no other request runs beside it, never replaces a
  node: the answer 201 means that the id was free and that now exactly this node is registered, with the digest of the
  secret that the response carries; any other answer leaves the registry as it was. (The form of the UI does replace
  nodes, and so can two creations that overlap.)\<close>

theorem create_node_contract:
  "case handleAdminCreateNode w c rnd r s of (resp, s') \<Rightarrow>
     if rs_status resp = 201
     then \<exists>n secret. rs_body resp = BCreated (admin_node_of n) secret \<and>
                hex_decode (nd_SecretHash n) = Some (sha256 secret) \<and>
            registry (sv_db s) (nd_ID n) = None \<and> registry (sv_db s') = (registry (sv_db s))(nd_ID n \<mapsto> n)
     else registry (sv_db s') = registry (sv_db s)"
proof -
  obtain resp s' where h: "handleAdminCreateNode w c rnd r s = (resp, s')" by fastforce
  show ?thesis unfolding h prod.case by (rule create_node_effect [OF h])
qed

lemma nd_ID_apply_patch [simp]: "nd_ID (apply_patch req n) = nd_ID n"
  by (simp add: apply_patch_def Let_def split: option.splits)

lemma patch_node_effect:
  assumes "handleAdminPatchNode w c r s = (resp, s')"
  shows "if rs_status resp = 200
         then \<exists>cur req. registry (sv_db s) (rq_path_id r) = Some cur \<and> json_patch c (rq_body r) = Inr req \<and>
                validateAdminNodeFields (nd_ID cur) (nd_Role (apply_patch req cur)) (nd_Address (apply_patch req cur)) = None \<and>
                registry (sv_db s') = (registry (sv_db s))(nd_ID cur \<mapsto> apply_patch req cur)
         else registry (sv_db s') = registry (sv_db s)"
proof (cases "rq_path_id r = []")
  case True
  then show ?thesis using assms by (auto simp: handleAdminPatchNode_def)
next
  case ne: False
  obtain g db1 where g: "node_Get w (rq_path_id r) (sv_db s) = (g, db1)" by fastforce
  note gv = reg.get_view [OF g]
  show ?thesis
  proof (cases g)
    case (Inl e)
    then show ?thesis
      using assms g gv ne by (cases e) (auto simp: handleAdminPatchNode_def on_db_def)
  next
    case (Inr cur)
    then have cur: "registry (sv_db s) (rq_path_id r) = Some cur" using reg.get_found g by blast
    show ?thesis
    proof (cases "json_patch c (rq_body r)")
      case j: (Inl e)
      then show ?thesis using assms g gv ne Inr by (auto simp: handleAdminPatchNode_def on_db_def)
    next
      case j: (Inr req)
      let ?n = "apply_patch req cur"
      show ?thesis
      proof (cases "validateAdminNodeFields (nd_ID ?n) (nd_Role ?n) (nd_Address ?n)")
        case (Some e)
        then show ?thesis using assms g gv ne Inr j by (auto simp: handleAdminPatchNode_def on_db_def)
      next
        case v: None
        obtain u db2 where u: "node_Upsert w ?n db1 = (u, db2)" by fastforce
        have "handleAdminPatchNode w c r s =
            (case u of Some _ \<Rightarrow> (writeJSONError 500 ''internal error'', s\<lparr>sv_db := db2\<rparr>)
             | None \<Rightarrow> (writeJSON 200 (BNode (admin_node_of ?n)), s\<lparr>sv_db := db2\<rparr>))"
          using g ne Inr j v u by (simp add: handleAdminPatchNode_def on_db_def)
        then show ?thesis
          using assms cur gv j v reg.upsert_ok [of w ?n db1 db2] reg.upsert_err [of w ?n db1 _ db2] u
          by (cases u) (auto intro!: exI [of _ cur] exI [of _ req])
      qed
    qed
  qed
qed

text \<open>A patch is all or nothing and touches one node: the answer 200 means that the node existed and has
  been replaced by its patched version, with fields that pass validation; any other answer leaves the
  registry as it was. A secret that is absent or empty in the patch keeps the stored hash.\<close>

theorem patch_node_contract:
  "(case handleAdminPatchNode w c r s of (resp, s') \<Rightarrow>
     if rs_status resp = 200
     then \<exists>cur req. registry (sv_db s) (rq_path_id r) = Some cur \<and> json_patch c (rq_body r) = Inr req \<and>
            validateAdminNodeFields (nd_ID cur) (nd_Role (apply_patch req cur)) (nd_Address (apply_patch req cur)) = None \<and>
            registry (sv_db s') = (registry (sv_db s))(nd_ID cur \<mapsto> apply_patch req cur)
     else registry (sv_db s') = registry (sv_db s)) \<and>
   nd_SecretHash (apply_patch (p\<lparr>ap_Secret := Some []\<rparr>) n) = nd_SecretHash n \<and>
   nd_SecretHash (apply_patch (p\<lparr>ap_Secret := None\<rparr>) n) = nd_SecretHash n"
proof (intro conjI)
  obtain resp s' where h: "handleAdminPatchNode w c r s = (resp, s')" by fastforce
  show "case handleAdminPatchNode w c r s of (resp, s') \<Rightarrow>
     if rs_status resp = 200
     then \<exists>cur req. registry (sv_db s) (rq_path_id r) = Some cur \<and> json_patch c (rq_body r) = Inr req \<and>
            validateAdminNodeFields (nd_ID cur) (nd_Role (apply_patch req cur)) (nd_Address (apply_patch req cur)) = None \<and>
            registry (sv_db s') = (registry (sv_db s))(nd_ID cur \<mapsto> apply_patch req cur)
     else registry (sv_db s') = registry (sv_db s)"
    unfolding h prod.case by (rule patch_node_effect [OF h])
qed (simp_all add: apply_patch_def Let_def split: option.splits)

section \<open>The operator's invariant\<close>

text \<open>Every registered hub has an address: the admin API accepts nothing else, whatever is asked of it.\<close>

definition hubs_addressed :: "(string \<rightharpoonup> node) \<Rightarrow> bool" where
  "hubs_addressed g \<longleftrightarrow> (\<forall>n \<in> ran g. nd_Role n = RoleHub \<longrightarrow> nd_Address n \<noteq> [])"

lemma hubs_addressed_upd:
  "hubs_addressed g \<Longrightarrow> validateAdminNodeFields i (nd_Role n) (nd_Address n) = None \<Longrightarrow> hubs_addressed (g(j \<mapsto> n))"
  by (auto simp: hubs_addressed_def ran_def validateAdminNodeFields_def split: if_splits)

lemma hubs_addressed_del: "hubs_addressed g \<Longrightarrow> hubs_addressed (g(j := None))"
  by (auto simp: hubs_addressed_def ran_def split: if_splits)

end
