(* ===== verification/Config.thy ===== *)
theory Config
  imports Go_Lib
begin

text \<open>
  Package \<open>internal/config\<close>: the settings read from environment variables. The environment is a
  partial map (\<open>os.LookupEnv\<close>), \<open>rf\<close> is \<open>os.ReadFile\<close>; the loaders return the first error they meet
  or the settings. The arithmetic on the settings is that of 64-bit integers.
\<close>

section \<open>Settings\<close>

record spool_settings =
  sc_Path :: string
  sc_DrainRows :: go_int
  sc_MaxAgeHours :: go_int
  sc_MaxSizeMB :: go_int
  sc_BackoffBaseSeconds :: go_int
  sc_BackoffMaxSeconds :: go_int

record target =
  tg_ID :: string
  tg_Address :: string

record agent_config =
  NodeID :: string
  NodeSecret :: string
  ControllerURL :: string
  Targets :: "target list"
  ProbeTimeout :: duration
  HTTPTimeout :: duration
  StartupJitter :: duration
  HubProbeInterval :: duration
  HubRefreshInterval :: duration

record controller_config =
  cc_DBPath :: string
  cc_Listen :: string
  cc_BaseURL :: string
  cc_MaxClockDriftMS :: rat
  cc_MaxLitestreamLagSecs :: go_int
  cc_WSTicketRateLimit :: go_int
  cc_MetricsToken :: string
  cc_ChronycBinary :: string
  cc_AdminToken :: string
  cc_WSAllowedOrigins :: "string list"

datatype config_error =
    MustBePositive string
  | MustNotBeNegative string
  | MustBeSet string
  | MustNotBeEmpty string
  | MaxBelowBase
  | InvalidInteger string string atoi_error
  | SecretUnreadable string string
  | SecretEmpty string
  | TargetExpected nat string
  | TargetEmptyPart nat string
  | DuplicateTarget string

type_synonym environment = "string \<rightharpoonup> string"

definition getString :: "environment \<Rightarrow> string \<Rightarrow> string \<Rightarrow> string" where
  "getString env key def =
     (case env key of Some v \<Rightarrow> if v \<noteq> [] then v else def | None \<Rightarrow> def)"

definition getInt :: "environment \<Rightarrow> string \<Rightarrow> go_int \<Rightarrow> config_error + go_int" where
  "getInt env key def =
     (case env key of
        None \<Rightarrow> Inr def
      | Some v \<Rightarrow> if v = [] then Inr def
                  else (case atoi v of Inl e \<Rightarrow> Inl (InvalidInteger key v e) | Inr n \<Rightarrow> Inr n))"

text \<open>\<open>if err != nil { return }\<close>: go on with the value, or return the error.\<close>

definition go_on :: "'e + 'a \<Rightarrow> ('a \<Rightarrow> 'e + 'b) \<Rightarrow> 'e + 'b" where
  "go_on r k = (case r of Inl e \<Rightarrow> Inl e | Inr x \<Rightarrow> k x)"

lemma go_on_Inr: "go_on r k = Inr y \<longleftrightarrow> (\<exists>x. r = Inr x \<and> k x = Inr y)"
  by (cases r) (simp_all add: go_on_def)

lemma go_on_simps [simp]: "go_on (Inr x) k = k x" "go_on (Inl e) k = Inl e"
  by (simp_all add: go_on_def)

section \<open>The spool's settings\<close>

definition LoadSpool :: "environment \<Rightarrow> config_error + spool_settings" where
  "LoadSpool env =
     go_on (getInt env ''NLM_SPOOL_DRAIN_ROWS'' 100) (\<lambda>rows.
     go_on (getInt env ''NLM_SPOOL_MAX_AGE_HOURS'' 24) (\<lambda>age.
     go_on (getInt env ''NLM_SPOOL_MAX_SIZE_MB'' 100) (\<lambda>mb.
     go_on (getInt env ''NLM_SPOOL_BACKOFF_BASE_SECONDS'' 30) (\<lambda>base.
     go_on (getInt env ''NLM_SPOOL_BACKOFF_MAX_SECONDS'' 3600) (\<lambda>mx.
       if rows \<le> 0 then Inl (MustBePositive ''NLM_SPOOL_DRAIN_ROWS'')
       else if age \<le> 0 then Inl (MustBePositive ''NLM_SPOOL_MAX_AGE_HOURS'')
       else if mb \<le> 0 then Inl (MustBePositive ''NLM_SPOOL_MAX_SIZE_MB'')
       else if base \<le> 0 then Inl (MustBePositive ''NLM_SPOOL_BACKOFF_BASE_SECONDS'')
       else if mx < base then Inl MaxBelowBase
       else Inr \<lparr>sc_Path = getString env ''NLM_SPOOL_PATH'' ''/var/lib/nlm/spool.db'',
                 sc_DrainRows = rows, sc_MaxAgeHours = age, sc_MaxSizeMB = mb,
                 sc_BackoffBaseSeconds = base, sc_BackoffMaxSeconds = mx\<rparr>)))))"

definition cfg_MaxAge :: "spool_settings \<Rightarrow> duration" where
  "cfg_MaxAge c = wrap64 (sc_MaxAgeHours c * hour)"

definition cfg_MaxSizeBytes :: "spool_settings \<Rightarrow> go_int" where
  "cfg_MaxSizeBytes c = wrap64 (wrap64 (sc_MaxSizeMB c * 1024) * 1024)"

definition cfg_BackoffBase :: "spool_settings \<Rightarrow> duration" where
  "cfg_BackoffBase c = wrap64 (sc_BackoffBaseSeconds c * second)"

definition cfg_BackoffMax :: "spool_settings \<Rightarrow> duration" where
  "cfg_BackoffMax c = wrap64 (sc_BackoffMaxSeconds c * second)"

section \<open>The agent's settings\<close>

definition loadAgentSecret :: "environment \<Rightarrow> (string \<Rightarrow> string + string) \<Rightarrow> config_error + string" where
  "loadAgentSecret env rf =
     (let v = (case env ''NLM_NODE_SECRET'' of Some v \<Rightarrow> v | None \<Rightarrow> []) in
      if v \<noteq> [] then Inr (trim_space v)
      else
        (let path = getString env ''NLM_NODE_SECRET_PATH'' ''/var/lib/nlm/node.secret'' in
         case rf path of
           Inl e \<Rightarrow> Inl (SecretUnreadable path e)
         | Inr bytes \<Rightarrow> (let secret = trim_space bytes in
                         if secret = [] then Inl (SecretEmpty path) else Inr secret)))"

text \<open>The loop of \<open>parseTargets\<close>: \<open>i\<close> counts the parts, the accumulated targets are also the set of
  ids seen.\<close>

fun parse_target_parts :: "nat \<Rightarrow> target list \<Rightarrow> string list \<Rightarrow> config_error + target list" where
  "parse_target_parts i acc [] = Inr acc"
| "parse_target_parts i acc (q # ps) =
     (let p = trim_space q in
      if p = [] then parse_target_parts (Suc i) acc ps
      else
        (let eq = index_byte p (CHR ''='') in
         if eq \<le> 0 \<or> eq = int (length p) - 1 then Inl (TargetExpected i p)
         else
           (let t = \<lparr>tg_ID = trim_space (take (nat eq) p), tg_Address = trim_space (drop (nat eq + 1) p)\<rparr> in
            if tg_ID t = [] \<or> tg_Address t = [] then Inl (TargetEmptyPart i p)
            else if tg_ID t \<in> set (map tg_ID acc) then Inl (DuplicateTarget (tg_ID t))
            else parse_target_parts (Suc i) (acc @ [t]) ps)))"

definition parseTargets :: "string \<Rightarrow> config_error + target list" where
  "parseTargets raw =
     (let r = trim_space raw in
      if r = [] then Inr [] else parse_target_parts 0 [] (split_on (CHR '','') r))"

definition LoadAgent :: "environment \<Rightarrow> (string \<Rightarrow> string + string) \<Rightarrow> config_error + agent_config" where
  "LoadAgent env rf =
     (let nid = getString env ''NLM_NODE_ID'' []; url = getString env ''NLM_CONTROLLER_URL'' [] in
      if nid = [] then Inl (MustBeSet ''NLM_NODE_ID'')
      else if url = [] then Inl (MustBeSet ''NLM_CONTROLLER_URL'')
      else
        go_on (loadAgentSecret env rf) (\<lambda>secret.
        go_on (parseTargets (getString env ''NLM_PROBE_TARGETS'' [])) (\<lambda>targets.
        go_on (getInt env ''NLM_PROBE_TIMEOUT'' 5) (\<lambda>probeSecs.
        if probeSecs \<le> 0 then Inl (MustBePositive ''NLM_PROBE_TIMEOUT'') else
        go_on (getInt env ''NLM_HTTP_TIMEOUT'' 10) (\<lambda>httpSecs.
        if httpSecs \<le> 0 then Inl (MustBePositive ''NLM_HTTP_TIMEOUT'') else
        go_on (getInt env ''NLM_STARTUP_JITTER'' 10) (\<lambda>jitterSecs.
        if jitterSecs < 0 then Inl (MustNotBeNegative ''NLM_STARTUP_JITTER'') else
        go_on (getInt env ''NLM_HUB_PROBE_INTERVAL'' 60) (\<lambda>hubProbeSecs.
        if hubProbeSecs \<le> 0 then Inl (MustBePositive ''NLM_HUB_PROBE_INTERVAL'') else
        go_on (getInt env ''NLM_HUB_REFRESH_INTERVAL'' 300) (\<lambda>hubRefreshSecs.
        if hubRefreshSecs \<le> 0 then Inl (MustBePositive ''NLM_HUB_REFRESH_INTERVAL'') else
        Inr \<lparr>NodeID = nid, NodeSecret = secret, ControllerURL = url, Targets = targets,
             ProbeTimeout = wrap64 (probeSecs * second), HTTPTimeout = wrap64 (httpSecs * second),
             StartupJitter = wrap64 (jitterSecs * second),
             HubProbeInterval = wrap64 (hubProbeSecs * second),
             HubRefreshInterval = wrap64 (hubRefreshSecs * second)\<rparr>))))))))"

section \<open>The controller's settings\<close>

definition LoadController :: "world \<Rightarrow> environment \<Rightarrow> config_error + controller_config" where
  "LoadController w env =
     (let dbp = getString env ''NLM_CONTROLLER_DB_PATH'' ''/var/lib/nlm/nlm.db'';
          ln = getString env ''NLM_CONTROLLER_LISTEN'' '':8080'';
          raw = getString env ''NLM_WS_ALLOWED_ORIGINS'' [];
          origins = (if raw = [] then [] else filter (\<lambda>org. org \<noteq> []) (map trim_space (split_on (CHR '','') raw))) in
      if dbp = [] then Inl (MustNotBeEmpty ''NLM_CONTROLLER_DB_PATH'')
      else if ln = [] then Inl (MustNotBeEmpty ''NLM_CONTROLLER_LISTEN'')
      else
        go_on (getInt env ''NLM_READY_MAX_CLOCK_DRIFT_MS'' 100) (\<lambda>driftMS.
        if driftMS < 0 then Inl (MustNotBeNegative ''NLM_READY_MAX_CLOCK_DRIFT_MS'') else
        go_on (getInt env ''NLM_LITESTREAM_MAX_LAG_SECONDS'' 300) (\<lambda>lagSecs.
        if lagSecs \<le> 0 then Inl (MustBePositive ''NLM_LITESTREAM_MAX_LAG_SECONDS'') else
        go_on (getInt env ''NLM_WS_TICKET_RATE_LIMIT'' 10) (\<lambda>rl.
        if rl \<le> 0 then Inl (MustBePositive ''NLM_WS_TICKET_RATE_LIMIT'') else
        Inr \<lparr>cc_DBPath = dbp, cc_Listen = ln, cc_BaseURL = getString env ''NLM_CONTROLLER_BASE_URL'' [],
             cc_MaxClockDriftMS = round64 w (of_int driftMS), cc_MaxLitestreamLagSecs = lagSecs,
             cc_WSTicketRateLimit = rl, cc_MetricsToken = getString env ''NLM_METRICS_TOKEN'' [],
             cc_ChronycBinary = getString env ''NLM_CHRONYC_BINARY'' ''chronyc'',
             cc_AdminToken = getString env ''NLM_ADMIN_TOKEN'' [], cc_WSAllowedOrigins = origins\<rparr>))))"

definition MaxLitestreamLag :: "controller_config \<Rightarrow> duration" where
  "MaxLitestreamLag c = wrap64 (cc_MaxLitestreamLagSecs c * second)"

end
