(* ===== verification/Config_Props.thy ===== *)
theory Config_Props
  imports Config
begin

text \<open>
  What the settings loaders guarantee: which values of the spool's variables keep their meaning as
  64-bit durations and sizes, and that target lists parse to well-formed lists and back.
\<close>

section \<open>Ranges\<close>

lemma wrap64_exact_iff: "wrap64 x = x \<longleftrightarrow> int64 x"
  by (metis int64_wrap64 wrap64_id)

lemma wrap64_mult: "wrap64 (wrap64 x * y) = wrap64 (x * y)"
  by (simp add: wrap64_word)

text \<open>A non-negative multiple of a unit keeps its value exactly up to a bound.\<close>

lemma wrap64_unit_exact:
  assumes "0 \<le> x" and "b * u < 2 ^ 63" and "2 ^ 63 \<le> (b + 1) * u" and "0 < u"
  shows "wrap64 (x * u) = x * u \<longleftrightarrow> x \<le> b"
proof
  assume "wrap64 (x * u) = x * u"
  then have "x * u < (b + 1) * u" using assms(3) by (simp add: wrap64_exact_iff int64_def)
  then show "x \<le> b" using assms(4) by simp
next
  assume "x \<le> b"
  then have "x * u \<le> b * u" using assms(4) by simp
  moreover have "0 \<le> x * u" using assms(1,4) by simp
  ultimately show "wrap64 (x * u) = x * u" using assms(2) by (simp add: wrap64_exact_iff int64_def)
qed

lemma cfg_MaxSizeBytes_wrap: "cfg_MaxSizeBytes c = wrap64 (sc_MaxSizeMB c * 1048576)"
  by (simp add: cfg_MaxSizeBytes_def wrap64_mult mult.assoc)

lemma LoadSpool_ok:
  assumes "LoadSpool env = Inr c"
  shows "0 < sc_DrainRows c" "0 < sc_MaxAgeHours c" "0 < sc_MaxSizeMB c" "0 < sc_BackoffBaseSeconds c"
    "sc_BackoffBaseSeconds c \<le> sc_BackoffMaxSeconds c"
  using assms by (auto simp: LoadSpool_def go_on_Inr split: if_splits)

definition sample_env :: environment where
  "sample_env = [''NLM_SPOOL_MAX_AGE_HOURS'' \<mapsto> ''2562048'', ''NLM_NODE_SECRET'' \<mapsto> '' '']"

definition sample_settings :: spool_settings where
  "sample_settings = \<lparr>sc_Path = ''/var/lib/nlm/spool.db'', sc_DrainRows = 100, sc_MaxAgeHours = 2562048,
     sc_MaxSizeMB = 100, sc_BackoffBaseSeconds = 30, sc_BackoffMaxSeconds = 3600\<rparr>"

lemma sample_LoadSpool: "LoadSpool sample_env = Inr sample_settings"
proof -
  have "atoi ''2562048'' = Inr 2562048" by code_simp
  then show ?thesis
    by (simp add: LoadSpool_def getInt_def getString_def sample_env_def sample_settings_def)
qed

text \<open>C37: settings that \<open>LoadSpool\<close> accepts are positive, and each of the four derived quantities is
  the exact product of its setting and its unit precisely up to the bound given; the loader does not
  check these bounds. Below them all quantities are positive and the backoff window starts at or below its
  cap. An age limit of 2562048 hours becomes negative.\<close>

theorem LoadSpool_durations:
  assumes "LoadSpool env = Inr c"
  shows "0 < sc_DrainRows c \<and> 0 < sc_MaxAgeHours c \<and> 0 < sc_MaxSizeMB c \<and>
    0 < sc_BackoffBaseSeconds c \<and> sc_BackoffBaseSeconds c \<le> sc_BackoffMaxSeconds c \<and>
    (cfg_MaxAge c = sc_MaxAgeHours c * hour \<longleftrightarrow> sc_MaxAgeHours c \<le> 2562047) \<and>
    (cfg_MaxSizeBytes c = sc_MaxSizeMB c * 1048576 \<longleftrightarrow> sc_MaxSizeMB c \<le> 8796093022207) \<and>
    (cfg_BackoffBase c = sc_BackoffBaseSeconds c * second \<longleftrightarrow> sc_BackoffBaseSeconds c \<le> 9223372036) \<and>
    (cfg_BackoffMax c = sc_BackoffMaxSeconds c * second \<longleftrightarrow> sc_BackoffMaxSeconds c \<le> 9223372036) \<and>
    cfg_MaxAge (c\<lparr>sc_MaxAgeHours := 2562048\<rparr>) < 0"
proof -
  note pos = LoadSpool_ok [OF assms]
  have neg: "wrap64 (2562048 * hour) < 0"
    by (simp add: wrap64_def unit_defs signed_take_bit_def) 
  have age: "cfg_MaxAge c = sc_MaxAgeHours c * hour \<longleftrightarrow> sc_MaxAgeHours c \<le> 2562047"
    unfolding cfg_MaxAge_def using pos by (intro wrap64_unit_exact) (simp_all add: unit_defs)
  have mb: "cfg_MaxSizeBytes c = sc_MaxSizeMB c * 1048576 \<longleftrightarrow> sc_MaxSizeMB c \<le> 8796093022207"
    unfolding cfg_MaxSizeBytes_wrap using pos by (intro wrap64_unit_exact) simp_all
  have secs: "wrap64 (x * second) = x * second \<longleftrightarrow> x \<le> 9223372036" if "0 < x" for x
    using that by (intro wrap64_unit_exact) (simp_all add: unit_defs)
  show ?thesis
    using pos age mb secs [of "sc_BackoffBaseSeconds c"] secs [of "sc_BackoffMaxSeconds c"] neg
    by (simp add: cfg_BackoffBase_def cfg_BackoffMax_def cfg_MaxAge_def)
qed

theorem LoadSpool_durations_witness:
  "LoadSpool sample_env = Inr sample_settings \<and> cfg_MaxAge sample_settings < 0"
  using sample_LoadSpool LoadSpool_durations [OF sample_LoadSpool] by (simp add: sample_settings_def)

section \<open>Target lists\<close>

lemma split_on_parts: "x \<in> set (split_on c s) \<Longrightarrow> c \<notin> set x"
  by (induction c s arbitrary: x rule: split_on.induct) (auto split: if_splits list.splits)

lemma split_on_Nil_iff [simp]: "split_on c s \<noteq> []"
  by (induction c s rule: split_on.induct) (auto split: list.splits)

lemma split_on_no_sep: "c \<notin> set p \<Longrightarrow> split_on c p = [p]"
  by (induction p) auto

lemma split_on_append: "c \<notin> set p \<Longrightarrow> split_on c (p @ c # s) = p # split_on c s"
  by (induction p) auto

text \<open>The comma-separated form of a list of targets.\<close>

definition show_target :: "target \<Rightarrow> string" where
  "show_target t = tg_ID t @ ''='' @ tg_Address t"

fun show_targets :: "target list \<Rightarrow> string" where
  "show_targets [] = []"
| "show_targets [t] = show_target t"
| "show_targets (t # ts) = show_target t @ '','' @ show_targets ts"

definition wf_target :: "target \<Rightarrow> bool" where
  "wf_target t \<longleftrightarrow> tg_ID t \<noteq> [] \<and> tg_Address t \<noteq> [] \<and>
     trim_space (tg_ID t) = tg_ID t \<and> trim_space (tg_Address t) = tg_Address t \<and>
     CHR ''='' \<notin> set (tg_ID t) \<and> CHR '','' \<notin> set (tg_ID t) \<and> CHR '','' \<notin> set (tg_Address t)"

definition wf_targets :: "target list \<Rightarrow> bool" where
  "wf_targets ts \<longleftrightarrow> list_all wf_target ts \<and> distinct (map tg_ID ts)"

lemma set_trim_space: "set (trim_space s) \<subseteq> set s"
  unfolding trim_space_def by (auto dest!: set_dropWhileD)

lemma take_index_byte: "c \<notin> set (take (nat (index_byte s c)) s)"
proof (cases "c \<in> set s")
  case True
  then obtain p q where s: "s = p @ c # q" "c \<notin> set p" by (metis split_list_first)
  then show ?thesis by (simp add: index_byte_append)
next
  case False
  then show ?thesis by (auto dest: in_set_takeD)
qed

lemma parse_target_parts_wf:
  assumes "parse_target_parts i acc ps = Inr ts" "wf_targets acc" "\<And>q. q \<in> set ps \<Longrightarrow> CHR '','' \<notin> set q"
  shows "wf_targets ts"
  using assms
proof (induction i acc ps rule: parse_target_parts.induct)
  case (2 i acc q ps)
  let ?p = "trim_space q"
  let ?eq = "index_byte ?p (CHR ''='')"
  let ?t = "\<lparr>tg_ID = trim_space (take (nat ?eq) ?p), tg_Address = trim_space (drop (nat ?eq + 1) ?p)\<rparr>"
  show ?case
  proof (cases "?p = []")
    case True
    then show ?thesis using 2 by simp
  next
    case False
    note r = "2.prems"(1) [unfolded parse_target_parts.simps Let_def]
    have ok: "\<not> (?eq \<le> 0 \<or> ?eq = int (length ?p) - 1)" "tg_ID ?t \<noteq> []" "tg_Address ?t \<noteq> []"
        "tg_ID ?t \<notin> set (map tg_ID acc)"
      and rest: "parse_target_parts (Suc i) (acc @ [?t]) ps = Inr ts"
      using r False by (auto split: if_splits)
    have "CHR '','' \<notin> set ?p" using "2.prems"(3) set_trim_space [of q] by fastforce
    then have "CHR '','' \<notin> set (tg_ID ?t)" "CHR '','' \<notin> set (tg_Address ?t)"
      using set_trim_space [of "take (nat ?eq) ?p"] set_trim_space [of "drop (nat ?eq + 1) ?p"]
      by (auto dest: in_set_takeD in_set_dropD)
    moreover have "CHR ''='' \<notin> set (tg_ID ?t)"
      using take_index_byte [of "CHR ''=''" ?p] set_trim_space [of "take (nat ?eq) ?p"] by auto
    ultimately have "wf_target ?t" using ok by (simp add: wf_target_def)
    then have "wf_targets (acc @ [?t])" using "2.prems"(2) ok(4) by (simp add: wf_targets_def)
    then show ?thesis
      using "2.IH"(2) [OF refl False refl ok(1) refl _ ok(4) rest] ok(2,3) "2.prems"(3) by simp
  qed
qed simp

lemma trim_space_id_iff: "trim_space s = s \<longleftrightarrow> s = [] \<or> (\<not> go_space (hd s) \<and> \<not> go_space (last s))"
  by (metis trim_space_Nil trim_space_ends trim_space_id)

lemma show_target_props:
  assumes "wf_target t"
  shows "show_target t \<noteq> []" "hd (show_target t) = hd (tg_ID t)" "last (show_target t) = last (tg_Address t)"
    "trim_space (show_target t) = show_target t" "CHR '','' \<notin> set (show_target t)"
  using assms by (auto simp: show_target_def wf_target_def trim_space_id_iff)

lemma show_targets_split: "ts \<noteq> [] \<Longrightarrow> list_all wf_target ts \<Longrightarrow>
    split_on (CHR '','') (show_targets ts) = map show_target ts"
  by (induction ts rule: show_targets.induct)
    (simp_all add: split_on_append split_on_no_sep show_target_props)

lemma show_targets_trimmed: "list_all wf_target ts \<Longrightarrow> trim_space (show_targets ts) = show_targets ts"
proof -
  assume wf: "list_all wf_target ts"
  have "ts \<noteq> [] \<Longrightarrow> show_targets ts \<noteq> [] \<and> \<not> go_space (hd (show_targets ts)) \<and> \<not> go_space (last (show_targets ts))"
    using wf
    by (induction ts rule: show_targets.induct)
      (auto simp: show_target_props, auto simp: wf_target_def trim_space_id_iff)
  then show ?thesis by (cases "ts = []") (simp_all add: trim_space_id_iff)
qed

lemma target_eta [simp]: "\<lparr>tg_ID = tg_ID t, tg_Address = tg_Address t\<rparr> = (t :: target)"
  by simp

lemma parse_shown_parts:
  assumes "list_all wf_target ts" "distinct (map tg_ID (acc @ ts))"
  shows "parse_target_parts i acc (map show_target ts) = Inr (acc @ ts)"
  using assms
proof (induction ts arbitrary: i acc)
  case (Cons t ts)
  have wf: "wf_target t" using Cons.prems by simp
  note sh = show_target_props [OF wf]
  have ix: "index_byte (show_target t) (CHR ''='') = int (length (tg_ID t))"
    using wf by (simp add: show_target_def wf_target_def index_byte_append)
  have "trim_space (take (length (tg_ID t)) (show_target t)) = tg_ID t"
    "trim_space (drop (length (tg_ID t) + 1) (show_target t)) = tg_Address t"
    using wf by (simp_all add: show_target_def wf_target_def)
  moreover have "int (length (tg_ID t)) \<noteq> int (length (show_target t)) - 1"
    using wf by (simp add: show_target_def wf_target_def)
  moreover have "tg_ID t \<notin> tg_ID ` set acc" "tg_ID t \<noteq> []" "tg_Address t \<noteq> []"
    using Cons.prems wf by (auto simp: wf_target_def)
  ultimately show ?case
    using sh ix Cons.IH [of "acc @ [t]" "Suc i"] Cons.prems by simp
qed simp

lemma parseTargets_shown: "wf_targets ts \<Longrightarrow> parseTargets (show_targets ts) = Inr ts"
  using show_targets_split [of ts] show_targets_trimmed [of ts] parse_shown_parts [of ts "[]" 0]
  by (cases ts rule: show_targets.cases)
    (auto simp: parseTargets_def wf_targets_def show_target_props Let_def)

text \<open>C36: a target list that \<open>parseTargets\<close> accepts is well formed (ids and addresses are non-empty,
  trimmed and free of separators, ids are distinct), and writing it back as \<open>id=address\<close> pairs and
  parsing that gives the same list.\<close>

theorem parseTargets_roundtrip:
  assumes "parseTargets raw = Inr ts"
  shows "wf_targets ts \<and> parseTargets (show_targets ts) = Inr ts"
proof -
  have "wf_targets ts"
    using assms parse_target_parts_wf [of 0 "[]" "split_on (CHR '','') (trim_space raw)" ts]
    by (auto simp: parseTargets_def Let_def wf_targets_def dest: split_on_parts split: if_splits)
  then show ?thesis using parseTargets_shown by blast
qed

lemma sample_parse: "parseTargets '' a = x:1 ,, b=y=2'' = Inr [\<lparr>tg_ID = ''a'', tg_Address = ''x:1''\<rparr>, \<lparr>tg_ID = ''b'', tg_Address = ''y=2''\<rparr>]"
  by code_simp

theorem parseTargets_roundtrip_witness:
  "wf_targets [\<lparr>tg_ID = ''a'', tg_Address = ''x:1''\<rparr>, \<lparr>tg_ID = ''b'', tg_Address = ''y=2''\<rparr>] \<and>
   parseTargets ''a=x:1,b=y=2'' = Inr [\<lparr>tg_ID = ''a'', tg_Address = ''x:1''\<rparr>, \<lparr>tg_ID = ''b'', tg_Address = ''y=2''\<rparr>]"
  using parseTargets_roundtrip [OF sample_parse] by (simp add: show_target_def)

end
