(* ===== verification/Websocket.thy ===== *)
theory Websocket
  imports Auth_Admin
begin

text \<open>
  The WebSocket routes of agents (\<open>internal/controller/ws.go\<close>): tickets, their redemption under the
  rate limit, the origin policy of the upgrade, and the life of a connection. The upgrade itself is
  the third-party upgrader's: a parameter \<open>upgrade\<close> that receives the outcome of the origin check and
  answers with the status it wrote, 101 for an established connection.
\<close>

section \<open>Origins\<close>

fun index_any :: "string \<Rightarrow> string \<Rightarrow> nat option" where
  "index_any [] cs = None"
| "index_any (x # s) cs = (if x \<in> set cs then Some 0 else map_option Suc (index_any s cs))"

fun index_sub :: "string \<Rightarrow> string \<Rightarrow> nat option" where
  "index_sub [] p = (if p = [] then Some 0 else None)"
| "index_sub (x # s) p = (if has_prefix (x # s) p then Some 0 else map_option Suc (index_sub s p))"

definition origin_host :: "string \<Rightarrow> string" where
  "origin_host origin =
     (let h = (case index_sub origin ''://'' of Some i \<Rightarrow> drop (i + 3) origin | None \<Rightarrow> origin)
      in case index_any h ''/?#'' of Some i \<Rightarrow> take i h | None \<Rightarrow> h)"

definition checkWSOrigin :: "request \<Rightarrow> server \<Rightarrow> bool" where
  "checkWSOrigin r s =
     (let origin = rq_header r ''Origin'' in
      if origin = [] then True
      else if equal_fold (origin_host origin) (rq_host r) then True
      else list_ex (equal_fold origin) (sv_wsAllowedOrigins s))"

section \<open>Tickets\<close>

definition handleWSTicket :: "gotime \<Rightarrow> rand_read \<Rightarrow> node_handler" where
  "handleWSTicket now rnd ctx_node r s =
     (case ctx_node of
        None \<Rightarrow> (writeJSONError 401 ''unauthorized'', s)
      | Some nd \<Rightarrow>
          (case Issue now rnd (nd_ID nd) (sv_tickets s) of
             (Inl _, ts) \<Rightarrow> (writeJSONError 500 ''internal error'', s\<lparr>sv_tickets := ts\<rparr>)
           | (Inr tk, ts) \<Rightarrow>
               (writeJSON 200 (BTicket (tk_Value tk) (tk_ExpiresAt tk)),
                on_metrics (\<lambda>m. m\<lparr>WSTicketsIssued := WSTicketsIssued m + 1\<rparr>) (s\<lparr>sv_tickets := ts\<rparr>))))"

definition wsReject :: "string \<Rightarrow> go_int \<Rightarrow> string \<Rightarrow> server \<Rightarrow> response \<times> server" where
  "wsReject reason status msg s =
     (writeJSONError status msg,
      on_metrics (\<lambda>m. m\<lparr>WSTicketsRejected := (WSTicketsRejected m)(reason := WSTicketsRejected m reason + 1)\<rparr>) s)"

definition wsRejectAndCount :: "gotime \<Rightarrow> string \<Rightarrow> string \<Rightarrow> go_int \<Rightarrow> string \<Rightarrow> server \<Rightarrow> response \<times> server" where
  "wsRejectAndCount now ip reason status msg s =
     wsReject reason status msg
       (s\<lparr>sv_wsRateLimit := map_option (\<lambda>rl. snd (RecordFailure now ip rl)) (sv_wsRateLimit s)\<rparr>)"

text \<open>\<open>now\<close> gives the clock readings of the request: for \<open>Blocked\<close>, for \<open>Validate\<close> and for
  \<open>RecordFailure\<close>. The third component of the result is the connection that \<open>serveWS\<close> then serves, with
  the node it belongs to.\<close>

definition handleWS :: "(nat \<Rightarrow> gotime) \<Rightarrow> (bool \<Rightarrow> request \<Rightarrow> go_int) \<Rightarrow>
    request \<Rightarrow> server \<Rightarrow> (response \<times> server) \<times> string option" where
  "handleWS now upgrade r s =
     (let ip = clientIP r in
      if (case sv_wsRateLimit s of Some rl \<Rightarrow> Blocked (now 0) ip rl | None \<Rightarrow> False)
      then (wsReject ''ratelimit'' 429 ''too many ticket failures'' s, None)
      else
        (let tkValue = rq_ticket r in
         if tkValue = [] then (wsRejectAndCount (now 2) ip ''unknown'' 401 ''ticket required'' s, None)
         else
           (case Validate (now 1) tkValue (sv_tickets s) of
              (Inl e, ts) \<Rightarrow>
                (let reason = (if e = ErrExpiredTicket then ''expired'' else ''unknown'')
                 in (wsRejectAndCount (now 2) ip reason 401 ''invalid ticket'' (s\<lparr>sv_tickets := ts\<rparr>), None))
            | (Inr nodeID, ts) \<Rightarrow>
                (let s1 = on_metrics (\<lambda>m. m\<lparr>WSTicketsUsed := WSTicketsUsed m + 1\<rparr>) (s\<lparr>sv_tickets := ts\<rparr>);
                     status = upgrade (checkWSOrigin r s1) r
                 in if status \<noteq> 101 then ((writeJSON status BEmpty, s1), None)
                    else ((writeJSON 101 BEmpty,
                           on_metrics (\<lambda>m. m\<lparr>ActiveWebSocketConnections := ActiveWebSocketConnections m + 1\<rparr>) s1),
                          Some nodeID)))))"

section \<open>A connection\<close>

definition wsWriteWait :: duration where "wsWriteWait = 10 * second"
definition wsPongWait :: duration where "wsPongWait = 60 * second"
definition wsPingPeriod :: duration where "wsPingPeriod = (wsPongWait * 9) div 10"

text \<open>What the select loop of \<open>serveWS\<close> sees: the reader has ended, or the ping ticker fires and the ping
  can or cannot be written. \<open>hello_ok\<close> says whether the greeting could be written.\<close>

datatype ws_event = ReadDone | PingTick bool

fun ws_loop :: "ws_event list \<Rightarrow> nat \<Rightarrow> nat option" where
  "ws_loop [] n = None"
| "ws_loop (ReadDone # es) n = Some n"
| "ws_loop (PingTick ok # es) n = (if ok then ws_loop es (Suc n) else Some n)"

text \<open>\<open>Some n\<close>: the connection has ended after \<open>n\<close> pings, and the deferred function has closed it and taken
  it out of the gauge; \<open>None\<close>: it is still open after these events.\<close>

definition serveWS :: "bool \<Rightarrow> ws_event list \<Rightarrow> server \<Rightarrow> nat option \<times> server" where
  "serveWS hello_ok es s =
     (let ended = (if hello_ok then ws_loop es 0 else Some 0);
          s1 = (if ended = None then s
                else on_metrics (\<lambda>m. m\<lparr>ActiveWebSocketConnections := ActiveWebSocketConnections m - 1\<rparr>) s)
      in (ended, s1))"

end
