(* ===== verification/Ui.thy ===== *)
theory Ui
  imports Websocket Results Auth_Admin
begin

text \<open>
  The browser side of the controller: the session cookie, login and logout, the pages and fragments of
  \<open>internal/controller/ui.go\<close>, the latency matrix (\<open>probe_matrix.go\<close>, \<open>internal/ui/models.go\<close>) and the
  pumps of a browser's WebSocket (\<open>ws_hub.go\<close>). A page is the component and its arguments; the HTML that
  the component renders is in the theory \<open>Templates\<close>.
\<close>

section \<open>Responses\<close>

definition http_Error :: "string \<Rightarrow> go_int \<Rightarrow> response" where
  "http_Error msg status = writeJSON status (BText msg)"

definition redirect :: "string \<Rightarrow> set_cookie option \<Rightarrow> response" where
  "redirect loc ck = \<lparr>rs_status = 303, rs_body = BEmpty, rs_location = Some loc, rs_cookie = ck\<rparr>"

definition renderHTML :: "body \<Rightarrow> response" where
  "renderHTML c = writeJSON 200 c"

lemma response_sel [simp]:
  "rs_status (http_Error m st) = st" "rs_body (http_Error m st) = BText m"
  "rs_status (redirect l ck) = 303" "rs_location (redirect l ck) = Some l" "rs_cookie (redirect l ck) = ck"
  "rs_status (renderHTML b) = 200" "rs_body (renderHTML b) = b"
  by (simp_all add: http_Error_def redirect_def renderHTML_def)

section \<open>Sessions\<close>

text \<open>Cookies as \<open>net/http\<close> writes and reads them. \<open>SetCookie\<close> drops the bytes a cookie value must not have and puts a
  value with a space or a comma in quotes; \<open>Request.Cookie\<close> takes quotes off and skips a cookie with any such byte.
  \<open>rq_cookie\<close> is what the request carries behind \<open>nlm_session=\<close>; \<open>None\<close>: it carries no such cookie.\<close>

definition cookie_byte :: "char \<Rightarrow> bool" where
  "cookie_byte b \<longleftrightarrow> 0x20 \<le> (of_char b :: nat) \<and> (of_char b :: nat) < 0x7f \<and> b \<notin> {CHR 0x22, CHR '';'', CHR 0x5C}"

definition quoted :: "string \<Rightarrow> string" where
  "quoted v = CHR 0x22 # v @ [CHR 0x22]"

definition sanitizeCookieValue :: "string \<Rightarrow> string" where
  "sanitizeCookieValue v0 =
     (let v = filter cookie_byte v0
      in if CHR '' '' \<in> set v \<or> CHR '','' \<in> set v then quoted v else v)"

definition parseCookieValue :: "string \<Rightarrow> string option" where
  "parseCookieValue raw0 =
     (let raw = (if length raw0 > 1 \<and> hd raw0 = CHR 0x22 \<and> last raw0 = CHR 0x22 then butlast (tl raw0) else raw0)
      in if list_all cookie_byte raw then Some raw else None)"

definition SetCookie :: "set_cookie \<Rightarrow> set_cookie" where
  "SetCookie ck = ck\<lparr>ck_Value := sanitizeCookieValue (ck_Value ck)\<rparr>"

definition session_cookie :: "request \<Rightarrow> string option" where
  "session_cookie r = Option.bind (rq_cookie r) parseCookieValue"

definition requireSession :: "handler \<Rightarrow> handler" where
  "requireSession nxt r s =
     (case session_cookie r of
        None \<Rightarrow> (redirect ''/ui/login'' None, s)
      | Some c \<Rightarrow> if \<not> constantTimeStringEq c (sv_adminToken s) then (redirect ''/ui/login'' None, s)
                  else nxt r s)"

definition isHTTPS :: "request \<Rightarrow> bool" where
  "isHTTPS r \<longleftrightarrow> rq_tls r \<or> rq_header r ''X-Forwarded-Proto'' = ''https''"

definition handleUILogin :: handler where
  "handleUILogin r s =
     (if rq_method r = ''GET'' then (renderHTML (BLogin []), s)
      else
        (let token = trim_space (rq_form r ''token'') in
         if sv_adminToken s = [] \<or> \<not> constantTimeStringEq token (sv_adminToken s)
         then (renderHTML (BLogin ''Invalid token.''), s)
         else (redirect ''/ui/'' (Some (SetCookie \<lparr>ck_Value = token, ck_MaxAge = 0, ck_HttpOnly = True,
                 ck_SameSiteStrict = True, ck_Secure = isHTTPS r\<rparr>)), s)))"

definition handleUILogout :: handler where
  "handleUILogout r s =
     (redirect ''/ui/login'' (Some (SetCookie \<lparr>ck_Value = [], ck_MaxAge = -1, ck_HttpOnly = False,
        ck_SameSiteStrict = False, ck_Secure = False\<rparr>)), s)"

section \<open>The latency matrix\<close>

definition LatencyMatrix_Get :: "latency_matrix \<Rightarrow> string \<Rightarrow> string \<Rightarrow> matrix_entry option" where
  "LatencyMatrix_Get m src dst = List.find (\<lambda>e. me_SourceID e = src \<and> me_TargetID e = dst) (lm_Entries m)"

definition cellClass :: "rat \<Rightarrow> string" where
  "cellClass ms = (if ms < 10 then ''cell-good'' else if ms < 50 then ''cell-warn'' else ''cell-bad'')"

text \<open>One row of the aggregate query: the latencies are NULL when the group has none.\<close>

record matrix_row =
  mr_source :: string
  mr_target :: string
  mr_avg :: "rat option"
  mr_min :: "rat option"
  mr_max :: "rat option"
  mr_samples :: go_int
  mr_last_seen :: string
  mr_errors :: go_int

text \<open>What the query takes from the driver: how SQLite averages, and the value in which the driver delivers the text of
  the column \<open>last_seen\<close>. The column is an expression, so it has no declared type.\<close>

datatype driver_value = TextValue string | TimeValue gotime

record matrix_driver =
  md_avg :: "rat list \<Rightarrow> rat"
  md_column :: "string \<Rightarrow> driver_value"

definition window_rows :: "string \<Rightarrow> result_row list \<Rightarrow> result_row list" where
  "window_rows since rs = filter (\<lambda>r. since < rr_observed_at r) rs"

definition pair_of :: "result_row \<Rightarrow> string \<times> string" where
  "pair_of r = (rr_source r, rr_target r)"

definition pair_rows :: "string \<times> string \<Rightarrow> result_row list \<Rightarrow> result_row list" where
  "pair_rows k rs = filter (\<lambda>r. pair_of r = k) rs"

definition latencies :: "result_row list \<Rightarrow> rat list" where
  "latencies rs = List.map_filter rr_latency rs"

text \<open>An aggregate over the non-NULL values; NULL over none.\<close>

definition aggregate :: "(rat list \<Rightarrow> rat) \<Rightarrow> rat list \<Rightarrow> rat option" where
  "aggregate f xs = (if xs = [] then None else Some (f xs))"

definition has_error :: "result_row \<Rightarrow> bool" where
  "has_error r \<longleftrightarrow> (case rr_error r of None \<Rightarrow> False | Some e \<Rightarrow> e \<noteq> [])"

definition max_text :: "string list \<Rightarrow> string" where
  "max_text xs = foldl max [] xs"

definition matrix_row_of :: "matrix_driver \<Rightarrow> string \<times> string \<Rightarrow> result_row list \<Rightarrow> matrix_row" where
  "matrix_row_of md k rs =
     \<lparr>mr_source = fst k, mr_target = snd k,
      mr_avg = aggregate (md_avg md) (latencies rs),
      mr_min = aggregate (\<lambda>xs. foldl min (hd xs) (tl xs)) (latencies rs),
      mr_max = aggregate (\<lambda>xs. foldl max (hd xs) (tl xs)) (latencies rs),
      mr_samples = int (length rs),
      mr_last_seen = max_text (map rr_observed_at rs),
      mr_errors = int (length (filter has_error rs))\<rparr>"

text \<open>The groups come in the order of their keys, as the sorter of \<open>GROUP BY\<close> delivers them.\<close>

definition matrix_query :: "matrix_driver \<Rightarrow> string \<Rightarrow> result_row list \<Rightarrow> matrix_row list" where
  "matrix_query md since rs =
     (let win = window_rows since rs;
          ks = remdups (sort_key fst (sort_key snd (map pair_of win)))
      in map (\<lambda>k. matrix_row_of md k (pair_rows k win)) ks)"

text \<open>\<open>rows.Scan\<close> into the fields of an entry, left to right: \<open>database/sql\<close> stores neither a NULL in a \<open>float64\<close> nor a
  text in a \<open>time.Time\<close>.\<close>

definition null_float :: string where
  "null_float = ''converting NULL to float64 is unsupported''"

definition text_time :: string where
  "text_time = ''unsupported Scan, storing driver.Value type string into type *time.Time''"

definition scan_time :: "driver_value \<Rightarrow> string + gotime" where
  "scan_time v = (case v of TimeValue t \<Rightarrow> Inr t | TextValue _ \<Rightarrow> Inl text_time)"

definition scan_entry :: "matrix_driver \<Rightarrow> matrix_row \<Rightarrow> string + matrix_entry" where
  "scan_entry md r =
     (case (mr_avg r, mr_min r, mr_max r) of
        (Some a, Some lo, Some hi) \<Rightarrow>
          (case scan_time (md_column md (mr_last_seen r)) of
             Inl e \<Rightarrow> Inl e
           | Inr t \<Rightarrow>
               Inr \<lparr>me_SourceID = mr_source r, me_TargetID = mr_target r, me_AvgLatMS = a, me_MinLatMS = lo,
                    me_MaxLatMS = hi, me_Samples = mr_samples r,
                    me_HasError = (mr_errors r > 0 \<and> mr_samples r = mr_errors r), me_LastSeen = t\<rparr>)
      | _ \<Rightarrow> Inl null_float)"

fun scan_matrix :: "world \<Rightarrow> matrix_driver \<Rightarrow> matrix_entry list \<Rightarrow> matrix_row list \<Rightarrow> nat \<Rightarrow>
    (string + matrix_entry list) \<times> nat" where
  "scan_matrix w md got [] n =
     (case fault w n of Some e \<Rightarrow> (Inl e, Suc n) | None \<Rightarrow> (Inr got, Suc n))"
| "scan_matrix w md got (x # xs) n =
     (case fault w n of
        Some e \<Rightarrow> (Inl e, Suc n)
      | None \<Rightarrow>
          (case fault w (Suc n) of
             Some e \<Rightarrow> (Inl e, Suc (Suc n))
           | None \<Rightarrow>
               (case scan_entry md x of
                  Inl e \<Rightarrow> (Inl e, Suc (Suc n))
                | Inr en \<Rightarrow> scan_matrix w md (got @ [en]) xs (Suc (Suc n)))))"

definition matrix_since :: "gotime \<Rightarrow> string" where
  "matrix_since now = format_datetime (time_add now (- (5 * minute)))"

definition query_entries :: "world \<Rightarrow> matrix_driver \<Rightarrow> ctl_db \<Rightarrow> (string + matrix_entry list) \<times> ctl_db" where
  "query_entries w md db =
     (case cd_call w db of
        (Some e, db1) \<Rightarrow> (Inl e, db1)
      | (None, db1) \<Rightarrow>
          (case scan_matrix w md [] (matrix_query md (matrix_since (clk w (cd_calls db))) (cd_results db1))
                  (cd_calls db1) of
             (r, n) \<Rightarrow> (r, db1\<lparr>cd_calls := n\<rparr>)))"

definition queryMatrix :: "world \<Rightarrow> matrix_driver \<Rightarrow> server \<Rightarrow> (string + latency_matrix) \<times> server" where
  "queryMatrix w md s =
     (case on_db (node_List w) s of
        ((_, Some e), s1) \<Rightarrow> (Inl (ctl_error_text e), s1)
      | ((ns, None), s1) \<Rightarrow>
          (let hubIDs = sort_key id (map nd_ID (filter (\<lambda>n. nd_Role n = RoleHub \<and> \<not> nd_Disabled n) ns)) in
           if hubIDs = [] then (Inr \<lparr>lm_Nodes = hubIDs, lm_Entries = []\<rparr>, s1)
           else
             (case on_db (query_entries w md) s1 of
                (Inl e, s2) \<Rightarrow> (Inl e, s2)
              | (Inr es, s2) \<Rightarrow> (Inr \<lparr>lm_Nodes = hubIDs, lm_Entries = es\<rparr>, s2))))"

section \<open>Pages and fragments\<close>

definition nodeToInfo :: "node \<Rightarrow> node_info" where
  "nodeToInfo n = \<lparr>ni_ID = nd_ID n, ni_Role = nd_Role n, ni_Address = nd_Address n, ni_Disabled = nd_Disabled n,
     ni_SpoolDepth = 0, ni_LastSeen = 0\<rparr>"

definition listNodeInfos :: "world \<Rightarrow> server \<Rightarrow> (ctl_error + node_info list) \<times> server" where
  "listNodeInfos w s =
     (case on_db (node_List w) s of
        ((_, Some e), s1) \<Rightarrow> (Inl e, s1)
      | ((ns, None), s1) \<Rightarrow> (Inr (map nodeToInfo ns), s1))"

definition matrix_page :: "world \<Rightarrow> matrix_driver \<Rightarrow> (latency_matrix \<Rightarrow> body) \<Rightarrow> handler" where
  "matrix_page w md page r s =
     (case queryMatrix w md s of
        (Inl _, s1) \<Rightarrow> (http_Error ''internal error'' 500, s1)
      | (Inr m, s1) \<Rightarrow> (renderHTML (page m), s1))"

definition handleUIDashboard :: "world \<Rightarrow> matrix_driver \<Rightarrow> handler" where
  "handleUIDashboard w md = matrix_page w md BDashboard"

definition handleFragMatrix :: "world \<Rightarrow> matrix_driver \<Rightarrow> handler" where
  "handleFragMatrix w md = matrix_page w md BMatrixTable"

definition handleUINodes :: "world \<Rightarrow> handler" where
  "handleUINodes w r s =
     (case listNodeInfos w s of
        (Inl _, s1) \<Rightarrow> (http_Error ''internal error'' 500, s1)
      | (Inr infos, s1) \<Rightarrow> (renderHTML (BNodesPage infos []), s1))"

definition handleFragNewNodeForm :: handler where
  "handleFragNewNodeForm r s = (renderHTML BNodeForm, s)"

definition handleFragCreateNode :: "world \<Rightarrow> rand_read \<Rightarrow> handler" where
  "handleFragCreateNode w rnd r s =
     (let i = trim_space (rq_form r ''id''); role = trim_space (rq_form r ''role'');
          address = trim_space (rq_form r ''address''); secret0 = trim_space (rq_form r ''secret'') in
      case validateAdminNodeFields i role address of
        Some e \<Rightarrow> (http_Error e 422, s)
      | None \<Rightarrow>
          (case (if secret0 = [] then mintSecret rnd else Inr secret0) of
             Inl _ \<Rightarrow> (http_Error ''internal error'' 500, s)
           | Inr secret \<Rightarrow>
               (case on_db (node_Upsert w \<lparr>nd_ID = i, nd_Role = role, nd_SecretHash = HashSecret secret,
                                            nd_Address = address, nd_Disabled = False\<rparr>) s of
                  (Some _, s1) \<Rightarrow> (http_Error ''internal error'' 500, s1)
                | (None, s1) \<Rightarrow>
                    (case listNodeInfos w s1 of
                       (Inl _, s2) \<Rightarrow> (http_Error ''internal error'' 500, s2)
                     | (Inr infos, s2) \<Rightarrow> (renderHTML (BNodesPage infos secret), s2)))))"

definition handleFragDeleteNode :: "world \<Rightarrow> handler" where
  "handleFragDeleteNode w r s =
     (case on_db (node_Delete w (rq_path_id r)) s of
        (Some _, s1) \<Rightarrow> (http_Error ''not found'' 404, s1)
      | (None, s1) \<Rightarrow> (writeJSON 200 BEmpty, s1))"

definition patchDisabled :: "world \<Rightarrow> bool \<Rightarrow> handler" where
  "patchDisabled w disable r s =
     (case on_db (node_Get w (rq_path_id r)) s of
        (Inl _, s1) \<Rightarrow> (http_Error ''not found'' 404, s1)
      | (Inr nd, s1) \<Rightarrow>
          (let nd1 = nd\<lparr>nd_Disabled := disable\<rparr> in
           case on_db (node_Upsert w nd1) s1 of
             (Some _, s2) \<Rightarrow> (http_Error ''internal error'' 500, s2)
           | (None, s2) \<Rightarrow> (renderHTML (BNodeRow (nodeToInfo nd1)), s2)))"

definition handleFragDisableNode :: "world \<Rightarrow> handler" where
  "handleFragDisableNode w = patchDisabled w True"

definition handleFragEnableNode :: "world \<Rightarrow> handler" where
  "handleFragEnableNode w = patchDisabled w False"

section \<open>A browser's connection\<close>

text \<open>The third component: the client that \<open>serveUIClient\<close> has registered when the upgrade succeeds.\<close>

definition handleUIWS :: "(bool \<Rightarrow> request \<Rightarrow> go_int) \<Rightarrow> request \<Rightarrow> server \<Rightarrow> (response \<times> server) \<times> nat option" where
  "handleUIWS upgrade r s =
     (case session_cookie r of
        None \<Rightarrow> ((http_Error ''unauthorized'' 401, s), None)
      | Some c \<Rightarrow>
          if \<not> constantTimeStringEq c (sv_adminToken s) then ((http_Error ''unauthorized'' 401, s), None)
          else
            (let status = upgrade (checkWSOrigin r s) r in
             if status \<noteq> 101 then ((writeJSON status BEmpty, s), None)
             else (case hub_register (sv_wsHub s) of
                     (c, h) \<Rightarrow> ((writeJSON 101 BEmpty, s\<lparr>sv_wsHub := h\<rparr>), Some c))))"

text \<open>What can happen while \<open>serveUIClient\<close> runs: another goroutine broadcasts; the write pump takes a
  message from the channel and can or cannot write it; the ping ticker fires; the reader has ended.\<close>

datatype ui_event = UIBroadcast string | UITake bool | UIPing bool | UIDone

definition take_message :: "nat \<Rightarrow> ws_hub \<Rightarrow> (string \<times> ws_hub) option" where
  "take_message c h =
     (case map_of (clients h) c of
        Some cl \<Rightarrow>
          (case uc_send cl of
             [] \<Rightarrow> None
           | m # q \<Rightarrow> Some (m, h\<lparr>clients := AList.update c (cl\<lparr>uc_send := q\<rparr>) (clients h)\<rparr>))
      | None \<Rightarrow> None)"

text \<open>The messages written, whether the loop still runs, and the hub; \<open>select\<close> does not receive from an
  empty channel.\<close>

fun ui_loop :: "nat \<Rightarrow> ui_event list \<Rightarrow> string list \<Rightarrow> ws_hub \<Rightarrow> string list \<times> bool \<times> ws_hub" where
  "ui_loop c [] out h = (out, True, h)"
| "ui_loop c (UIBroadcast m # es) out h = ui_loop c es out (Broadcast m h)"
| "ui_loop c (UITake ok # es) out h =
     (case take_message c h of
        None \<Rightarrow> ui_loop c es out h
      | Some (m, h1) \<Rightarrow> if ok then ui_loop c es (out @ [m]) h1 else (out, False, hub_unregister c h1))"
| "ui_loop c (UIPing ok # es) out h =
     (if ok then ui_loop c es out h else (out, False, hub_unregister c h))"
| "ui_loop c (UIDone # es) out h = (out, False, hub_unregister c h)"

definition serveUIClient :: "ui_event list \<Rightarrow> ws_hub \<Rightarrow> string list \<times> bool \<times> ws_hub" where
  "serveUIClient es h = (case hub_register h of (c, h1) \<Rightarrow> ui_loop c es [] h1)"

end
