(* ===== verification/Ui_Props.thy ===== *)
theory Ui_Props
  imports Ui Auth_Props Results_Props
begin

text \<open>
  What the browser side guarantees: who gets a session, what the latency matrix shows and when it cannot
  be shown, and what a connected browser receives.
\<close>

section \<open>Sessions\<close>

lemma filter_cookie [simp]: "list_all cookie_byte v \<Longrightarrow> filter cookie_byte v = v"
  by (simp add: list_all_iff)

lemma quote_no_cookie [simp]: "\<not> cookie_byte (CHR 0x22)"
  by (simp add: cookie_byte_def)

text \<open>What the request may carry for its cookie to have the value \<open>t\<close>.\<close>

lemma parseCookieValue_iff:
  "parseCookieValue v = Some t \<longleftrightarrow> list_all cookie_byte t \<and> (v = t \<or> v = quoted t)"
proof (cases "length v > 1 \<and> hd v = CHR 0x22 \<and> last v = CHR 0x22")
  case True
  then obtain x where x: "v = CHR 0x22 # x" "x \<noteq> []" "last x = CHR 0x22" by (cases v) auto
  then have v: "v = quoted (butlast (tl v))" using append_butlast_last_id [of x] by (simp add: quoted_def)
  have "v \<noteq> t" if "list_all cookie_byte t"
    using that True by (cases v) auto
  moreover have "v = quoted t \<longleftrightarrow> butlast (tl v) = t" by (subst v) (simp add: quoted_def)
  ultimately show ?thesis using True by (auto simp: parseCookieValue_def Let_def split: if_splits)
next
  case False
  then have "v \<noteq> quoted t" by (auto simp: quoted_def)
  then show ?thesis using False by (auto simp: parseCookieValue_def Let_def)
qed

lemma sanitizeCookieValue_cases:
  "sanitizeCookieValue v \<in> {filter cookie_byte v, quoted (filter cookie_byte v)}"
  by (simp add: sanitizeCookieValue_def Let_def)

lemma filter_all: "list_all P (filter P v)"
  by (simp add: list_all_iff)

lemma cookie_roundtrip: "parseCookieValue (sanitizeCookieValue v) = Some (filter cookie_byte v)"
  unfolding parseCookieValue_iff using sanitizeCookieValue_cases [of v] filter_all by blast

lemma filter_eq_iff: "filter P v = v \<longleftrightarrow> list_all P v"
  by (simp add: list_all_iff filter_id_conv)

text \<open>C29: a login changes nothing on the server and sets a cookie exactly when an admin token is
  configured and the posted token, without surrounding white space, is that token. A session route runs exactly
  for a request that carries the admin token in its cookie, plainly or in quotes; the cookie of the login, sent
  back as it was set, is such a cookie exactly if every byte of the token may stand in a cookie. Any other
  request, so every request if the token has another byte, is redirected to the login page and leaves the server
  unchanged.\<close>

theorem login_opens_session:
  "case handleUILogin r s of (resp, s') \<Rightarrow> s' = s \<and>
     (rs_cookie resp \<noteq> None \<longleftrightarrow>
        rq_method r \<noteq> ''GET'' \<and> sv_adminToken s \<noteq> [] \<and> trim_space (rq_form r ''token'') = sv_adminToken s) \<and>
     requireSession nxt (q\<lparr>rq_cookie := Some v\<rparr>) s =
       (if list_all cookie_byte (sv_adminToken s) \<and> v \<in> {sv_adminToken s, quoted (sv_adminToken s)}
        then nxt (q\<lparr>rq_cookie := Some v\<rparr>) s else (redirect ''/ui/login'' None, s)) \<and>
     requireSession nxt (q\<lparr>rq_cookie := None\<rparr>) s = (redirect ''/ui/login'' None, s) \<and>
     (case rs_cookie resp of
        None \<Rightarrow> rs_status resp = 200
      | Some ck \<Rightarrow> ck_HttpOnly ck \<and> ck_SameSiteStrict ck \<and> (ck_Secure ck \<longleftrightarrow> isHTTPS r) \<and>
          requireSession nxt (q\<lparr>rq_cookie := Some (ck_Value ck)\<rparr>) s =
            (if list_all cookie_byte (sv_adminToken s) then nxt (q\<lparr>rq_cookie := Some (ck_Value ck)\<rparr>) s
             else (redirect ''/ui/login'' None, s)))"
proof -
  have session: "requireSession nxt (q\<lparr>rq_cookie := Some x\<rparr>) s =
      (if parseCookieValue x = Some (sv_adminToken s) then nxt (q\<lparr>rq_cookie := Some x\<rparr>) s
       else (redirect ''/ui/login'' None, s))" for x
    by (simp add: requireSession_def session_cookie_def split: option.split)
  show ?thesis
    unfolding session
    by (auto simp: handleUILogin_def renderHTML_def writeJSON_def redirect_def requireSession_def session_cookie_def
        SetCookie_def cookie_roundtrip filter_eq_iff parseCookieValue_iff [of v] Let_def)
qed

text \<open>With no admin token configured the admin API is disabled, but the session routes are not:
  a request with an empty session cookie runs them.\<close>

theorem unset_token_opens_ui:
  assumes "sv_adminToken s = []" "rq_cookie r = Some []"
  shows "rs_status (fst (adminAuth nxt r s)) = 503 \<and> snd (adminAuth nxt r s) = s \<and>
    requireSession nxt r s = nxt r s"
  using assms by (simp add: adminAuth_def requireSession_def session_cookie_def parseCookieValue_def)

theorem unset_token_opens_ui_witness:
  "let r = sample_rq\<lparr>rq_cookie := Some [], rq_path_id := ''h1''\<rparr> in
   rs_status (fst (requireSession (handleFragDeleteNode sample_world) r sample_server)) = 200"
proof -
  have t: "sv_adminToken sample_server = []"
    by (simp add: sample_server_def server_New_def NewWithOptions_def default_options_def)
  have "rs_status (fst (handleFragDeleteNode sample_world (sample_rq\<lparr>rq_cookie := Some [], rq_path_id := ''h1''\<rparr>)
      sample_server)) = 200"
    by (simp add: handleFragDeleteNode_def on_db_def)
      (simp add: node_Delete_def node_Get_def cd_call_def sample_ctl_def find_node_def delete_node_stmt_def
        ctl_init_def fresh_node_row_def)
  then show ?thesis
    using unset_token_opens_ui [OF t, of "sample_rq\<lparr>rq_cookie := Some [], rq_path_id := ''h1''\<rparr>"
        "handleFragDeleteNode sample_world"]
    by (simp add: Let_def)
qed

section \<open>The matrix\<close>

definition entry_pair :: "matrix_entry \<Rightarrow> string \<times> string" where
  "entry_pair e = (me_SourceID e, me_TargetID e)"

lemma scan_matrix_Inr:
  "scan_matrix w md got xs n = (Inr es, n') \<Longrightarrow> \<exists>fs. es = got @ fs \<and> map (scan_entry md) xs = map Inr fs"
proof (induction xs arbitrary: got n)
  case Nil
  then show ?case by (auto split: option.splits)
next
  case (Cons x xs)
  then obtain en where en: "scan_entry md x = Inr en"
    "scan_matrix w md (got @ [en]) xs (Suc (Suc n)) = (Inr es, n')"
    by (auto split: option.splits sum.splits)
  then obtain fs where "es = (got @ [en]) @ fs" "map (scan_entry md) xs = map Inr fs"
    using Cons.IH by blast
  then show ?case using en(1) by (intro exI [of _ "en # fs"]) simp
qed

lemma foldl_min: "foldl min a xs = Min (insert a (set (xs :: rat list)))"
proof -
  have "foldl min a xs = fold min xs a" by (induction xs arbitrary: a) (simp_all add: min.commute)
  then show ?thesis using Min.set_eq_fold [of a xs] by simp
qed

lemma foldl_max: "foldl max a xs = Max (insert a (set (xs :: rat list)))"
proof -
  have "foldl max a xs = fold max xs a" by (induction xs arbitrary: a) (simp_all add: max.commute)
  then show ?thesis using Max.set_eq_fold [of a xs] by simp
qed

lemma max_text_Max: "xs \<noteq> [] \<Longrightarrow> max_text xs = Max (set xs)"
proof -
  assume xs: "xs \<noteq> []"
  have "max_text xs = fold max xs []" unfolding max_text_def by (induction xs rule: rev_induct) (simp_all add: max.commute)
  also have "\<dots> = Max (insert [] (set xs))" using Max.set_eq_fold [of "[]" xs] by simp
  also have "\<dots> = Max (set xs)" using xs by (simp add: max_def)
  finally show ?thesis .
qed

text \<open>What a row of the query says of the results of its pair: how many there are, the average, the least and the
  greatest of their latencies if any has one, the latest of their times and the number of failures.\<close>

definition row_pair :: "matrix_row \<Rightarrow> string \<times> string" where
  "row_pair r = (mr_source r, mr_target r)"

definition row_ok :: "matrix_driver \<Rightarrow> result_row list \<Rightarrow> matrix_row \<Rightarrow> bool" where
  "row_ok md rs r \<longleftrightarrow> mr_samples r = int (length rs) \<and>
     (if latencies rs = [] then mr_avg r = None \<and> mr_min r = None \<and> mr_max r = None
      else mr_avg r = Some (md_avg md (latencies rs)) \<and>
        mr_min r = Some (Min (set (latencies rs))) \<and> mr_max r = Some (Max (set (latencies rs)))) \<and>
     mr_last_seen r = Max (rr_observed_at ` set rs) \<and>
     mr_errors r = int (card {i. i < length rs \<and> rr_error (rs ! i) \<notin> {None, Some []}})"

lemma matrix_row_ok:
  assumes "rs \<noteq> []"
  shows "row_ok md rs (matrix_row_of md k rs)"
proof -
  have l: "foldl min (hd xs) (tl xs) = Min (set xs)" "foldl max (hd xs) (tl xs) = Max (set xs)"
    if "xs \<noteq> []" for xs :: "rat list"
    using that by (cases xs; simp add: foldl_min foldl_max)+
  have e: "has_error x \<longleftrightarrow> rr_error x \<notin> {None, Some []}" for x
    by (simp add: has_error_def split: option.split)
  show ?thesis
    using l [of "latencies rs"] max_text_Max [of "map rr_observed_at rs"] assms
    by (simp add: row_ok_def matrix_row_of_def aggregate_def length_filter_conv_card e)
qed

lemma pair_rows_nonempty: "k \<in> pair_of ` set win \<Longrightarrow> pair_rows k win \<noteq> []"
  by (auto simp: pair_rows_def filter_empty_conv)

text \<open>C31: the query of the matrix returns exactly one row for every pair of source and target with a result in the
  window, and the row gives the number of the pair's results there, the average, least and greatest latency (NULL if
  no result has one), the time of the latest result and the number of failed ones.\<close>

theorem matrix_rows_correct:
  "let win = filter (\<lambda>r. since < rr_observed_at r) rs; q = matrix_query md since rs in
   distinct (map row_pair q) \<and> row_pair ` set q = {(rr_source r, rr_target r) | r. r \<in> set win} \<and>
   (\<forall>r \<in> set q. row_ok md (filter (\<lambda>x. (rr_source x, rr_target x) = row_pair r) win) r)"
proof -
  let ?win = "window_rows since rs"
  let ?ks = "remdups (sort_key fst (sort_key snd (map pair_of ?win)))"
  have q: "matrix_query md since rs = map (\<lambda>k. matrix_row_of md k (pair_rows k ?win)) ?ks"
    by (simp add: matrix_query_def Let_def)
  have p: "row_pair (matrix_row_of md k xs) = k" for k xs by (simp add: row_pair_def matrix_row_of_def)
  have rows: "row_ok md (pair_rows k ?win) (matrix_row_of md k (pair_rows k ?win))" if "k \<in> set ?ks" for k
    using that by (intro matrix_row_ok pair_rows_nonempty) simp
  have pairs: "map row_pair (matrix_query md since rs) = ?ks" by (simp add: q p comp_def)
  have "row_ok md (pair_rows (row_pair r) ?win) r" if "r \<in> set (matrix_query md since rs)" for r
  proof -
    obtain k where "k \<in> set ?ks" "r = matrix_row_of md k (pair_rows k ?win)" using \<open>r \<in> set (matrix_query md since rs)\<close> unfolding q by auto
    then show ?thesis using rows p by simp
  qed
  moreover have "set ?ks = {(rr_source r, rr_target r) | r. r \<in> set ?win}" by (auto simp: pair_of_def)
  ultimately show ?thesis
    unfolding Let_def window_rows_def [symmetric] set_map [symmetric] pairs
    by (simp add: pair_rows_def pair_of_def)
qed

text \<open>The entry that a row becomes, with a driver that delivers \<open>last_seen\<close> as a time.\<close>

definition entry_ok :: "matrix_driver \<Rightarrow> result_row list \<Rightarrow> matrix_entry \<Rightarrow> bool" where
  "entry_ok md rs e \<longleftrightarrow> latencies rs \<noteq> [] \<and> me_Samples e = int (length rs) \<and>
     me_AvgLatMS e = md_avg md (latencies rs) \<and>
     me_MinLatMS e = Min (set (latencies rs)) \<and> me_MaxLatMS e = Max (set (latencies rs)) \<and>
     md_column md (Max (rr_observed_at ` set rs)) = TimeValue (me_LastSeen e) \<and>
     (me_HasError e \<longleftrightarrow> rs \<noteq> [] \<and> list_all has_error rs)"

lemma filter_all_length: "length rs = length (filter P rs) \<longleftrightarrow> list_all P rs"
  by (metis filter_True filter_id_conv length_filter_less less_irrefl list_all_iff)

lemma scan_entry_ok:
  assumes "scan_entry md (matrix_row_of md k rs) = Inr e"
  shows "entry_pair e = k \<and> entry_ok md rs e"
proof -
  let ?l = "latencies rs"
  have l: "?l \<noteq> []" using assms by (auto simp: scan_entry_def matrix_row_of_def aggregate_def split: if_splits)
  obtain x xs where x: "?l = x # xs" using l by (cases ?l) auto
  have rs: "rs \<noteq> []" using l by (auto simp: latencies_def map_filter_simps)
  have e: "entry_pair e = k" "me_Samples e = int (length rs)" "me_AvgLatMS e = md_avg md ?l"
    "me_MinLatMS e = foldl min x xs" "me_MaxLatMS e = foldl max x xs"
    "me_HasError e \<longleftrightarrow> filter has_error rs \<noteq> [] \<and> length rs = length (filter has_error rs)"
    "md_column md (max_text (map rr_observed_at rs)) = TimeValue (me_LastSeen e)"
    using assms x
    by (auto simp: scan_entry_def scan_time_def matrix_row_of_def aggregate_def entry_pair_def
        split: sum.splits driver_value.splits)
  have "filter has_error rs \<noteq> [] \<and> length rs = length (filter has_error rs) \<longleftrightarrow> rs \<noteq> [] \<and> list_all has_error rs"
    using filter_all_length [of rs has_error] by (metis filter.simps(1) length_0_conv)
  then show ?thesis
    using e l x rs foldl_min [of x xs] foldl_max [of x xs] max_text_Max [of "map rr_observed_at rs"]
    by (simp add: entry_ok_def)
qed

lemma matrix_pairs:
  "set (remdups (sort_key fst (sort_key snd (map pair_of win)))) = pair_of ` set win"
  by simp

text \<open>When the entries can be read, there is exactly one for every pair of the window. In particular every pair has a
  result with a latency: a pair with failed probes only makes the query fail, and no entry is shown at all.\<close>

lemma matrix_entries_correct:
  assumes "query_entries w md db = (Inr es, db')"
  shows "let win = window_rows (matrix_since (clk w (cd_calls db))) (cd_results db) in
    distinct (map entry_pair es) \<and> set (map entry_pair es) = pair_of ` set win \<and>
    (\<forall>e \<in> set es. entry_ok md (pair_rows (entry_pair e) win) e)"
proof -
  let ?win = "window_rows (matrix_since (clk w (cd_calls db))) (cd_results db)"
  let ?ks = "remdups (sort_key fst (sort_key snd (map pair_of ?win)))"
  have q: "map (scan_entry md) (map (\<lambda>k. matrix_row_of md k (pair_rows k ?win)) ?ks) = map Inr es"
    using assms scan_matrix_Inr [of w md "[]"]
    by (fastforce simp: query_entries_def cd_call_def matrix_query_def Let_def split: option.splits prod.splits)
  have len: "length es = length ?ks" using arg_cong [OF q, of length] by simp
  have nth: "entry_pair (es ! i) = ?ks ! i \<and> entry_ok md (pair_rows (?ks ! i) ?win) (es ! i)"
    if "i < length es" for i
  proof -
    have "scan_entry md (matrix_row_of md (?ks ! i) (pair_rows (?ks ! i) ?win)) = Inr (es ! i)"
      using arg_cong [OF q, of "\<lambda>xs. xs ! i"] that len by simp
    then show ?thesis by (rule scan_entry_ok)
  qed
  have "map entry_pair es = ?ks" using len nth by (intro nth_equalityI) simp_all
  moreover have "entry_ok md (pair_rows (entry_pair e) ?win) e" if "e \<in> set es" for e
    using that nth by (metis in_set_conv_nth)
  moreover have "set ?ks = pair_of ` set ?win" by (rule matrix_pairs)
  ultimately show ?thesis unfolding Let_def by (metis distinct_remdups)
qed

text \<open>With a driver that delivers the text of an undeclared column as text, no row can be read.\<close>

lemma text_unreadable:
  assumes "\<forall>x. md_column md x = TextValue x"
  shows "\<exists>e. scan_entry md r = Inl e"
  using assms by (auto simp: scan_entry_def scan_time_def split: option.split)

lemma matrix_query_empty: "matrix_query md since rs = [] \<longleftrightarrow> window_rows since rs = []"
proof -
  have "matrix_query md since rs = [] \<longleftrightarrow> set (map pair_of (window_rows since rs)) = {}"
    unfolding matrix_query_def Let_def map_is_Nil_conv set_empty [symmetric] by simp
  then show ?thesis by simp
qed

lemma query_entries_text:
  assumes "faultless w" "\<forall>x. md_column md x = TextValue x"
  shows "(\<exists>es. fst (query_entries w md db) = Inr es) \<longleftrightarrow> window_rows (matrix_since (clk w (cd_calls db))) (cd_results db) = []"
  unfolding matrix_query_empty [of md, symmetric]
proof (cases "matrix_query md (matrix_since (clk w (cd_calls db))) (cd_results db)")
  case (Cons x xs)
  obtain e where "scan_entry md x = Inl e" using text_unreadable [OF assms(2)] by blast
  then show "(\<exists>es. fst (query_entries w md db) = Inr es) \<longleftrightarrow>
      matrix_query md (matrix_since (clk w (cd_calls db))) (cd_results db) = []"
    using assms(1) Cons by (simp add: query_entries_def cd_call_def)
qed (use assms(1) in \<open>simp add: query_entries_def cd_call_def\<close>)

lemma node_List_faultless:
  "faultless w \<Longrightarrow> \<exists>n. node_List w db = ((map node_of (sort_key nr_id (cd_nodes db)), None), db\<lparr>cd_calls := n\<rparr>)"
  by (intro exI [of _ "Suc (Suc (cd_calls db + 2 * length (cd_nodes db)))"]) (simp add: node_List_def cd_query_def)

lemma matrix_page_text:
  assumes "faultless w" "\<forall>x. md_column md x = TextValue x"
  shows "rs_status (fst (matrix_page w md page r s)) =
    (if (\<exists>n \<in> set (cd_nodes (sv_db s)). nr_role n = RoleHub \<and> nr_disabled n = 0) \<and>
        window_rows (matrix_since (clk w (cd_calls (snd (node_List w (sv_db s)))))) (cd_results (sv_db s)) \<noteq> []
     then 500 else 200)"
proof -
  obtain n where n: "node_List w (sv_db s) = ((map node_of (sort_key nr_id (cd_nodes (sv_db s))), None), sv_db s\<lparr>cd_calls := n\<rparr>)"
    using node_List_faultless [OF assms(1)] by blast
  let ?ns = "map node_of (sort_key nr_id (cd_nodes (sv_db s)))"
  let ?hubs = "sort_key id (map nd_ID (filter (\<lambda>n. nd_Role n = RoleHub \<and> \<not> nd_Disabled n) ?ns))"
  let ?db1 = "sv_db s\<lparr>cd_calls := n\<rparr>"
  have h: "?hubs = [] \<longleftrightarrow> \<not> (\<exists>n \<in> set (cd_nodes (sv_db s)). nr_role n = RoleHub \<and> nr_disabled n = 0)"
    unfolding length_0_conv [symmetric] length_sort length_map by (auto simp: filter_empty_conv node_of_def)
  have q: "queryMatrix w md s =
      (if ?hubs = [] then (Inr \<lparr>lm_Nodes = ?hubs, lm_Entries = []\<rparr>, s\<lparr>sv_db := ?db1\<rparr>)
       else case query_entries w md ?db1 of
              (Inl e, db2) \<Rightarrow> (Inl e, s\<lparr>sv_db := db2\<rparr>)
            | (Inr es, db2) \<Rightarrow> (Inr \<lparr>lm_Nodes = ?hubs, lm_Entries = es\<rparr>, s\<lparr>sv_db := db2\<rparr>))"
    unfolding queryMatrix_def on_db_def n Let_def by (simp split: prod.split sum.split)
  obtain x db2 where x: "query_entries w md ?db1 = (x, db2)" by fastforce
  have e: "(\<exists>es. x = Inr es) \<longleftrightarrow> window_rows (matrix_since (clk w n)) (cd_results (sv_db s)) = []"
    using query_entries_text [OF assms, of ?db1] x by simp
  show ?thesis
    unfolding matrix_page_def q x h using e n by (cases x) simp_all
qed

text \<open>C32: the driver is documented to deliver a column as a time only if the column is declared as one, and \<open>last_seen\<close>
  is an expression. With such a driver, and when nothing else fails, the dashboard and the matrix fragment are
  answered 500 exactly if a hub is enabled and any result is in the window of five minutes.\<close>

theorem matrix_page_fails:
  assumes "faultless w" "\<forall>x. md_column md x = TextValue x"
  shows "let win = window_rows (matrix_since (clk w (cd_calls (snd (node_List w (sv_db s)))))) (cd_results (sv_db s));
             hub = (\<exists>n \<in> set (cd_nodes (sv_db s)). nr_role n = RoleHub \<and> nr_disabled n = 0);
             status = (if hub \<and> win \<noteq> [] then 500 else 200)
    in rs_status (fst (handleUIDashboard w md r s)) = status \<and> rs_status (fst (handleFragMatrix w md r s)) = status"
  by (simp only: Let_def handleUIDashboard_def handleFragMatrix_def matrix_page_text [OF assms])

text \<open>Two results of one pair in a window that has just begun, one of them failed; the driver delivers the text of a
  column without a declared type as it is.\<close>

definition sample_matrix_db :: ctl_db where
  "sample_matrix_db = sample_ctl\<lparr>cd_results :=
     [\<lparr>rr_id = 1, rr_source = ''a'', rr_run = ''1'', rr_target = ''b'', rr_observed_at = ''9'', rr_latency = Some 3,
       rr_error = None, rr_received_at = ''9''\<rparr>,
      \<lparr>rr_id = 2, rr_source = ''a'', rr_run = ''2'', rr_target = ''b'', rr_observed_at = ''9'', rr_latency = None,
       rr_error = Some ''timeout'', rr_received_at = ''9''\<rparr>]\<rparr>"

definition sample_driver :: matrix_driver where
  "sample_driver = \<lparr>md_avg = hd, md_column = TextValue\<rparr>"

theorem matrix_rows_correct_witness:
  "\<exists>r. matrix_query sample_driver ''8'' (cd_results sample_matrix_db) = [r] \<and> mr_samples r = 2 \<and> mr_min r = Some 3 \<and>
     mr_last_seen r = ''9'' \<and> mr_errors r = 1"
proof -
  obtain r where r: "matrix_query sample_driver ''8'' (cd_results sample_matrix_db) = [r]" "mr_errors r = 1" "row_pair r = (''a'', ''b'')"
    by (simp add: matrix_query_def sample_matrix_db_def window_rows_def pair_of_def pair_rows_def matrix_row_of_def
        has_error_def row_pair_def Let_def)
  with matrix_rows_correct [of "''8''" "cd_results sample_matrix_db" sample_driver]
  have "row_ok sample_driver (cd_results sample_matrix_db) r" by (simp add: sample_matrix_db_def)
  with r show ?thesis by (simp add: row_ok_def sample_matrix_db_def latencies_def map_filter_simps)
qed

theorem matrix_page_fails_witness:
  "rs_status (fst (handleUIDashboard sample_world sample_driver sample_rq (sample_server\<lparr>sv_db := sample_matrix_db\<rparr>))) = 500"
proof -
  have "matrix_since 5000 < ''9''" by code_simp
  then show ?thesis
    using matrix_page_fails [of sample_world sample_driver "sample_server\<lparr>sv_db := sample_matrix_db\<rparr>" sample_rq]
    by (simp add: sample_driver_def sample_matrix_db_def sample_ctl_def set_node_def fresh_node_row_def sample_hub_def
        RoleHub_def window_rows_def)
qed

section \<open>A connected browser\<close>

lemma map_of_map_prod: "map_of (map (map_prod id f) xs) c = map_option f (map_of xs c)"
  by (induction xs) auto

lemma map_of_Broadcast:
  "map_of (clients (Broadcast m h)) c = map_option (send_or_skip m) (map_of (clients h) c)"
  by (simp add: Broadcast_def map_of_map_prod)

definition broadcasts :: "ui_event list \<Rightarrow> string list" where
  "broadcasts es = List.map_filter (\<lambda>e. case e of UIBroadcast m \<Rightarrow> Some m | _ \<Rightarrow> None) es"

lemma broadcasts_simps [simp]:
  "broadcasts [] = []" "broadcasts (UIBroadcast m # es) = m # broadcasts es"
  "broadcasts (UITake ok # es) = broadcasts es" "broadcasts (UIPing ok # es) = broadcasts es"
  "broadcasts (UIDone # es) = broadcasts es"
  by (simp_all add: broadcasts_def map_filter_simps)

text \<open>\<open>streams c out bs h\<close>: what client \<open>c\<close> has been sent, followed by what waits in its channel, is a
  selection of the broadcasts \<open>bs\<close> in their order, complete as long as there were at most 64.\<close>

definition streams :: "nat \<Rightarrow> string list \<Rightarrow> string list \<Rightarrow> ws_hub \<Rightarrow> bool" where
  "streams c out bs h \<longleftrightarrow> (\<exists>cl. map_of (clients h) c = Some cl \<and> length (uc_send cl) \<le> 64 \<and>
     subseq (out @ uc_send cl) bs \<and> (length bs \<le> 64 \<longrightarrow> out @ uc_send cl = bs))"

lemma streams_Broadcast:
  assumes "streams c out bs h"
  shows "streams c out (bs @ [m]) (Broadcast m h)"
proof -
  obtain cl where cl: "map_of (clients h) c = Some cl" "length (uc_send cl) \<le> 64"
    "subseq (out @ uc_send cl) bs" "length bs \<le> 64 \<longrightarrow> out @ uc_send cl = bs"
    using assms by (auto simp: streams_def)
  show ?thesis
  proof (cases "length (uc_send cl) < 64")
    case True
    have "subseq ((out @ uc_send cl) @ [m]) (bs @ [m])" using cl(3) by (intro list_emb_append_mono) auto
    then show ?thesis using cl True by (auto simp: streams_def map_of_Broadcast send_or_skip_def)
  next
    case False
    have "64 \<le> length bs" using False list_emb_length [OF cl(3)] by simp
    moreover have "subseq (out @ uc_send cl) (bs @ [m])"
      using cl(3) prefix_imp_subseq [of bs "bs @ [m]"] subseq_order.trans by force
    ultimately show ?thesis using cl False by (auto simp: streams_def map_of_Broadcast send_or_skip_def)
  qed
qed

lemma streams_take:
  assumes "streams c out bs h" "take_message c h = Some (m, h')"
  shows "streams c (out @ [m]) bs h'"
  using assms
  by (auto simp: streams_def take_message_def update_conv' split: option.splits list.splits)

lemma streams_prefix: "streams c out bs h \<Longrightarrow> subseq out bs"
  unfolding streams_def using prefix_imp_subseq [of out] subseq_order.trans by (metis prefixI)

lemma unregistered: "distinct (map fst (clients h)) \<Longrightarrow> map_of (clients (hub_unregister c h)) c = None"
  by (simp add: hub_unregister_def delete_conv')

lemma distinct_clients:
  "distinct (map fst (clients h)) \<Longrightarrow> distinct (map fst (clients (Broadcast m h)))"
  "distinct (map fst (clients h)) \<Longrightarrow> take_message c h = Some (x, h') \<Longrightarrow> distinct (map fst (clients h'))"
  by (auto simp: Broadcast_def comp_def take_message_def distinct_update split: option.splits list.splits)

lemma ui_loop_streams:
  assumes "ui_loop c es out h = (out', opn, h')" "streams c out bs h" "distinct (map fst (clients h))"
  shows "subseq out' (bs @ broadcasts es) \<and>
    (if opn then streams c out' (bs @ broadcasts es) h' else map_of (clients h') c = None)"
  using assms
proof (induction c es out h arbitrary: bs rule: ui_loop.induct)
  case (1 c out h)
  then show ?case using streams_prefix by auto
next
  case (2 c m es out h)
  have "ui_loop c es out (Broadcast m h) = (out', opn, h')" using "2.prems"(1) by simp
  from "2.IH" [OF this streams_Broadcast [OF "2.prems"(2)] distinct_clients(1) [OF "2.prems"(3)]]
  show ?case by (cases opn) simp_all
next
  case (3 c ok es out h)
  show ?case
  proof (cases "take_message c h")
    case None
    then show ?thesis using 3 by simp
  next
    case (Some a)
    obtain m h1 where t: "take_message c h = Some (m, h1)" using Some by (metis prod.exhaust)
    note d = distinct_clients(2) [OF "3.prems"(3) t]
    show ?thesis
    proof (cases ok)
      case True
      then show ?thesis
        using "3.IH"(2) [OF t refl True _ streams_take [OF "3.prems"(2) t] d] "3.prems"(1) t by simp
    next
      case False
      have "subseq out (bs @ broadcasts es)"
        using streams_prefix [OF "3.prems"(2)] by (metis prefixI prefix_imp_subseq subseq_order.trans)
      then show ?thesis using "3.prems"(1) t False unregistered [OF d] by auto
    qed
  qed
next
  case (4 c ok es out h)
  have "subseq out (bs @ broadcasts es)"
    using streams_prefix [OF "4.prems"(2)] by (metis prefixI prefix_imp_subseq subseq_order.trans)
  then show ?case using 4 unregistered [OF "4.prems"(3)] by (cases ok) auto
next
  case (5 c es out h)
  have "subseq out (bs @ broadcasts es)"
    using streams_prefix [OF "5.prems"(2)] by (metis prefixI prefix_imp_subseq subseq_order.trans)
  then show ?case using 5 unregistered [OF "5.prems"(3)] by auto
qed

text \<open>C34: a browser is written a selection of the messages broadcast while it is connected, in their
  order and none twice; none is skipped until 64 have been broadcast, its channel never holds more than 64, and
  when its connection ends it is no longer registered.\<close>

theorem ui_client_stream:
  assumes "serveUIClient es h = (out, opn, h')" "distinct (map fst (clients h))"
    and "next_client h \<notin> fst ` set (clients h)"
  shows "subseq out (broadcasts es) \<and>
    (if opn
     then \<exists>cl. map_of (clients h') (next_client h) = Some cl \<and> length (uc_send cl) \<le> 64 \<and>
       subseq (out @ uc_send cl) (broadcasts es) \<and>
       (length (broadcasts es) \<le> 64 \<longrightarrow> out @ uc_send cl = broadcasts es)
     else map_of (clients h') (next_client h) = None)"
proof -
  obtain h1 where h1: "hub_register h = (next_client h, h1)" by (simp add: hub_register_def)
  then have "streams (next_client h) [] [] h1" "distinct (map fst (clients h1))"
    using assms(2,3) by (auto simp: hub_register_def streams_def newUIClient_def)
  moreover have "ui_loop (next_client h) es [] h1 = (out, opn, h')"
    using assms(1) h1 by (simp add: serveUIClient_def)
  ultimately show ?thesis
    using ui_loop_streams [of "next_client h" es "[]" h1 out opn h' "[]"]
    by (cases opn) (simp_all add: streams_def)
qed

theorem ui_client_stream_witness:
  "fst (serveUIClient [UIBroadcast ''a'', UIPing True, UIBroadcast ''b'', UITake True, UIDone] newWSHub) = [''a''] \<and>
   subseq [''a''] [''a'', ''b'']"
proof -
  obtain h' where "serveUIClient [UIBroadcast ''a'', UIPing True, UIBroadcast ''b'', UITake True, UIDone] newWSHub =
    ([''a''], False, h')"
    by (simp add: serveUIClient_def newWSHub_def hub_register_def Broadcast_def send_or_skip_def take_message_def
        newUIClient_def)
  from ui_client_stream [OF this] this show ?thesis by (simp add: newWSHub_def)
qed

end
