(* ===== verification/Ws_Props.thy ===== *)
theory Ws_Props
  imports Websocket Ticket_Props Results_Props
begin

text \<open>
  A WebSocket connection of an agent belongs to the node the redeemed ticket was issued to, and a
  ticket opens at most one connection.
\<close>

lemma on_metrics_fields [simp]:
  "sv_wsAllowedOrigins (on_metrics f s) = sv_wsAllowedOrigins s" "sv_dbPath (on_metrics f s) = sv_dbPath s"
  by (simp_all add: on_metrics_def)

lemma wsReject_sel [simp]:
  "rs_status (fst (wsReject reason st msg s)) = st" "sv_tickets (snd (wsReject reason st msg s)) = sv_tickets s"
  "sv_wsRateLimit (snd (wsReject reason st msg s)) = sv_wsRateLimit s"
  by (simp_all add: wsReject_def)

lemma wsRejectAndCount_sel [simp]:
  "rs_status (fst (wsRejectAndCount t ip reason st msg s)) = st"
  "sv_tickets (snd (wsRejectAndCount t ip reason st msg s)) = sv_tickets s"
  "sv_wsRateLimit (snd (wsRejectAndCount t ip reason st msg s)) =
     map_option (\<lambda>rl. snd (RecordFailure t ip rl)) (sv_wsRateLimit s)"
  by (simp_all add: wsRejectAndCount_def)

definition ws_blocked :: "gotime \<Rightarrow> request \<Rightarrow> server \<Rightarrow> bool" where
  "ws_blocked t r s = (case sv_wsRateLimit s of Some rl \<Rightarrow> Blocked t (clientIP r) rl | None \<Rightarrow> False)"

lemma handleWS_cases:
  assumes "handleWS now upgrade r s = ((resp, s'), conn)"
  obtains (blocked) "ws_blocked (now 0) r s" "rs_status resp = 429" "sv_tickets s' = sv_tickets s" "conn = None"
      "sv_wsRateLimit s' = sv_wsRateLimit s"
  | (missing) "\<not> ws_blocked (now 0) r s" "rq_ticket r = []" "rs_status resp = 401" "sv_tickets s' = sv_tickets s"
      "conn = None" "sv_wsRateLimit s' = map_option (\<lambda>rl. snd (RecordFailure (now 2) (clientIP r) rl)) (sv_wsRateLimit s)"
  | (invalid) e where "\<not> ws_blocked (now 0) r s" "rq_ticket r \<noteq> []"
      "Validate (now 1) (rq_ticket r) (sv_tickets s) = (Inl e, sv_tickets s')" "rs_status resp = 401" "conn = None"
      "sv_wsRateLimit s' = map_option (\<lambda>rl. snd (RecordFailure (now 2) (clientIP r) rl)) (sv_wsRateLimit s)"
  | (redeemed) n where "\<not> ws_blocked (now 0) r s" "rq_ticket r \<noteq> []"
      "Validate (now 1) (rq_ticket r) (sv_tickets s) = (Inr n, sv_tickets s')"
      "rs_status resp = upgrade (checkWSOrigin r s) r"
      "conn = (if upgrade (checkWSOrigin r s) r = 101 then Some n else None)" "sv_wsRateLimit s' = sv_wsRateLimit s"
proof (cases "ws_blocked (now 0) r s")
  case True
  then show thesis
    using assms blocked by (auto simp: handleWS_def ws_blocked_def Let_def prod_eq_iff split: option.splits)
next
  case nb: False
  then have nb': "\<not> (case sv_wsRateLimit s of None \<Rightarrow> False | Some rl \<Rightarrow> Blocked (now 0) (clientIP r) rl)"
    by (simp add: ws_blocked_def)
  show thesis
  proof (cases "rq_ticket r = []")
    case True
    then show thesis using assms nb nb' missing by (auto simp: handleWS_def Let_def prod_eq_iff)
  next
    case ne: False
    obtain v ts where v: "Validate (now 1) (rq_ticket r) (sv_tickets s) = (v, ts)" by fastforce
    have org: "checkWSOrigin r (on_metrics f (s\<lparr>sv_tickets := ts\<rparr>)) = checkWSOrigin r s" for f
      by (simp add: checkWSOrigin_def)
    show thesis
    proof (cases v)
      case (Inl e)
      then show thesis
        using assms nb nb' ne v
        by (intro invalid [of e])
          (auto simp: handleWS_def Let_def wsRejectAndCount_def wsReject_def simp del: One_nat_def)
    next
      case (Inr n)
      then show thesis
        using assms nb nb' ne v org
        by (intro redeemed [of n]) (auto simp: handleWS_def Let_def simp del: One_nat_def split: if_splits)
    qed
  qed
qed

text \<open>C24: an upgrade for node \<open>n\<close> is accepted only if the request's address is not blocked, its ticket is in
  the store under \<open>n\<close> and has not expired, and (given an upgrader that refuses what the origin check
  refuses) its origin is allowed; the ticket is gone afterwards.\<close>

theorem handleWS_opens:
  assumes "handleWS now upgrade r s = ((resp, s'), Some n)" "upgrade False r \<noteq> 101"
  shows "rs_status resp = 101 \<and> \<not> ws_blocked (now 0) r s \<and> checkWSOrigin r s \<and>
    (\<exists>e. map_of (tickets (sv_tickets s)) (rq_ticket r) = Some e \<and> te_nodeID e = n \<and> now 1 \<le> te_expiresAt e) \<and>
    map_of (tickets (sv_tickets s')) (rq_ticket r) = None"
  using assms(1)
proof (cases rule: handleWS_cases)
  case (redeemed m)
  then show ?thesis
    using assms(2) Validate_Inr [OF redeemed(3)] Validate_tickets(1) [OF redeemed(3), of "rq_ticket r"]
    by (cases "checkWSOrigin r s") (auto split: if_splits)
qed simp_all

text \<open>A series of upgrade requests, each with its own clock readings.\<close>

fun ws_series :: "(bool \<Rightarrow> request \<Rightarrow> go_int) \<Rightarrow> ((nat \<Rightarrow> gotime) \<times> request) list \<Rightarrow> server \<Rightarrow> string option list" where
  "ws_series upgrade [] s = []"
| "ws_series upgrade ((now, r) # rs) s =
     (case handleWS now upgrade r s of ((resp, s1), conn) \<Rightarrow> conn # ws_series upgrade rs s1)"

lemma handleWS_held:
  assumes "handleWS now upgrade r s = ((resp, s'), conn)"
  shows "held v (sv_tickets s') + (if conn \<noteq> None \<and> rq_ticket r = v then 1 else 0) \<le> held v (sv_tickets s)"
  using assms
proof (cases rule: handleWS_cases)
  case (invalid e)
  then show ?thesis using Validate_tickets(1) [OF invalid(3), of v] by (auto simp: held_def)
next
  case (redeemed n)
  then show ?thesis
    using Validate_tickets(1) [OF redeemed(3), of v] Validate_Inr [OF redeemed(3)]
    by (auto simp: held_def split: if_splits)
qed (auto simp: held_def)

lemma ws_series_held:
  "length (filter (\<lambda>(conn, x). conn \<noteq> None \<and> rq_ticket (snd x) = v) (zip (ws_series upgrade rs s) rs))
     \<le> held v (sv_tickets s)"
proof (induction rs arbitrary: s)
  case (Cons x rs)
  obtain now r where x: "x = (now, r)" by fastforce
  obtain resp s1 conn where h: "handleWS now upgrade r s = ((resp, s1), conn)"
    by (metis prod.exhaust_sel)
  show ?case using Cons.IH [of s1] handleWS_held [OF h, of v] x h by (auto split: if_splits)
qed simp

text \<open>However many upgrade requests arrive, in whatever order and from wherever, at most one of those that
  carry a given ticket is connected.\<close>

theorem ticket_opens_one_connection:
  "length (filter (\<lambda>(conn, x). conn \<noteq> None \<and> rq_ticket (snd x) = v) (zip (ws_series upgrade rs s) rs)) \<le> 1"
proof -
  have "held v (sv_tickets s) \<le> 1" by (simp add: held_def)
  then show ?thesis using ws_series_held [of v upgrade rs s] by (rule le_trans [rotated])
qed

text \<open>A blocked address learns nothing about tickets: its request is answered 429 and consumes none,
  even a valid one.\<close>

theorem blocked_consumes_no_ticket:
  assumes "ws_blocked (now 0) r s" "handleWS now upgrade r s = ((resp, s'), conn)"
  shows "rs_status resp = 429 \<and> conn = None \<and> sv_tickets s' = sv_tickets s"
  using assms(2,1) by (cases rule: handleWS_cases) auto

definition ws_server :: "go_int \<Rightarrow> server" where
  "ws_server n = sample_server\<lparr>sv_tickets := \<lparr>tickets = [(''tk'', \<lparr>te_nodeID = ''h1'', te_expiresAt = 50\<rparr>)], ttl = 60\<rparr>,
     sv_wsRateLimit := Some \<lparr>failures = [(''9'', \<lparr>ip_count = n, windowStart = 1, blockedUntil = 10 * n\<rparr>)],
       rl_limit = 2, rl_window = 60, rl_block = 60\<rparr>\<rparr>"

definition ws_rq :: request where
  "ws_rq = sample_rq\<lparr>rq_ticket := ''tk'', rq_remote := ''9:1''\<rparr>"

definition sample_upgrade :: "bool \<Rightarrow> request \<Rightarrow> go_int" where
  "sample_upgrade ok r = (if ok then 101 else 403)"

lemma ws_rq_ip: "clientIP ws_rq = ''9''"
  by (simp add: clientIP_def ws_rq_def sample_rq_def splitHostPort_def last_index_def Let_def)

lemma ws_rq_ticket: "rq_ticket ws_rq = ''tk''"
  by (simp add: ws_rq_def)

theorem handleWS_opens_witness:
  "\<exists>resp s'. handleWS (\<lambda>_. 20) sample_upgrade ws_rq (ws_server 1) = ((resp, s'), Some ''h1'') \<and>
     rs_status resp = 101 \<and> map_of (tickets (sv_tickets s')) ''tk'' = None"
proof -
  obtain resp s' conn where h: "handleWS (\<lambda>_. 20) sample_upgrade ws_rq (ws_server 1) = ((resp, s'), conn)"
    by (metis prod.exhaust_sel)
  have "conn = Some ''h1''"
    using arg_cong [OF h, of snd]
    by (simp add: handleWS_def ws_rq_ip ws_rq_ticket Blocked_def Validate_def ws_server_def time_defs
        checkWSOrigin_def sample_upgrade_def) (simp add: ws_rq_def sample_rq_def)
  with h have "handleWS (\<lambda>_. 20) sample_upgrade ws_rq (ws_server 1) = ((resp, s'), Some ''h1'')" by simp
  from handleWS_opens [OF this] this show ?thesis
    by (auto simp: sample_upgrade_def ws_rq_ticket)
qed

theorem blocked_consumes_no_ticket_witness:
  "\<exists>resp s'. handleWS (\<lambda>_. 20) sample_upgrade ws_rq (ws_server 3) = ((resp, s'), None) \<and> rs_status resp = 429 \<and>
     store_Len (sv_tickets s') = 1"
proof -
  obtain resp s' conn where h: "handleWS (\<lambda>_. 20) sample_upgrade ws_rq (ws_server 3) = ((resp, s'), conn)"
    by (metis prod.exhaust_sel)
  have "ws_blocked 20 ws_rq (ws_server 3)"
    by (simp add: ws_blocked_def ws_server_def Blocked_def ws_rq_ip time_before_def)
  from blocked_consumes_no_ticket [OF this h] h show ?thesis by (auto simp: store_Len_def ws_server_def)
qed

end
