(* ===== verification/Readiness.thy ===== *)
theory Readiness
  imports Server
begin

text \<open>
  Health, readiness and metrics of the controller: \<open>handleHealthz\<close>, \<open>handleReadyz\<close>, \<open>dbSize\<close> and
  \<open>refreshMetrics\<close> of \<open>internal/controller/server.go\<close>, and \<open>Handler\<close> and \<open>equalSecure\<close> of
  \<open>internal/metrics/metrics.go\<close>. The clock query runs through the parameters of \<open>Drift\<close>; \<open>now\<close> gives the
  clock readings of the request.
\<close>

section \<open>Health and readiness\<close>

definition handleHealthz :: "request \<Rightarrow> server \<Rightarrow> response \<times> server" where
  "handleHealthz r s = (writeJSON 200 BHealth, s)"

text \<open>The chrony gate: its entry, whether it fails, and the gauge it sets when it passes.\<close>

definition chrony_gate :: "world \<Rightarrow> (string \<Rightarrow> string + f64) \<Rightarrow> (string \<Rightarrow> duration \<Rightarrow> string + string) \<Rightarrow>
    server \<Rightarrow> (chrony_check \<times> bool) \<times> server" where
  "chrony_gate w pf run s =
     (case sv_chrony s of
        None \<Rightarrow> ((ChronyUnconfigured, True), s)
      | Some q \<Rightarrow>
          (case Drift w pf run q of
             Inl e \<Rightarrow> ((ChronyError e, True), s)
           | Inr drift \<Rightarrow>
               if sv_maxDriftMS s > 0 \<and> f64_less (Fin (sv_maxDriftMS s)) drift
               then ((DriftExceeded drift (sv_maxDriftMS s), True), s)
               else ((DriftOk drift, False), on_metrics (\<lambda>m. m\<lparr>ClockDriftMS := drift\<rparr>) s)))"

definition unix_time :: "gotime \<Rightarrow> go_int" where
  "unix_time t = t div second - 62135596800"

definition litestream_gauges :: "duration \<Rightarrow> ls_status \<Rightarrow> server \<Rightarrow> server" where
  "litestream_gauges lag st s =
     on_metrics (\<lambda>m. let m1 = m\<lparr>LitestreamLagSeconds := lag\<rparr> in
       if time_is_zero (LastSyncAt st) then m1
       else m1\<lparr>LitestreamLastSyncTimestamp := unix_time (LastSyncAt st)\<rparr>) s"

definition litestream_gate :: "(nat \<Rightarrow> gotime) \<Rightarrow> server \<Rightarrow> (litestream_check option \<times> bool) \<times> server" where
  "litestream_gate now s =
     (case sv_litestream s of
        None \<Rightarrow> ((None, False), s)
      | Some t \<Rightarrow>
          (let st = tracker_Status t; lag = Lag (now 0) t;
               bad = (\<not> Healthy (now 1) (sv_maxLag s) t);
               chk = (if bad then LitestreamBad (ServiceActive st) lag (sv_maxLag s) else LitestreamOk lag)
           in ((Some chk, bad), litestream_gauges lag st s)))"

definition handleReadyz :: "world \<Rightarrow> (string \<Rightarrow> string + f64) \<Rightarrow> (string \<Rightarrow> duration \<Rightarrow> string + string) \<Rightarrow>
    (nat \<Rightarrow> gotime) \<Rightarrow> request \<Rightarrow> server \<Rightarrow> response \<times> server" where
  "handleReadyz w pf run now r s =
     (let ((c, failed1), s1) = chrony_gate w pf run s;
          ((l, failed2), s2) = litestream_gate now s1;
          failed = (failed1 \<or> failed2)
      in (writeJSON (if failed then 503 else 200) (BReady (if failed then ''degraded'' else ''ok'') c l), s2))"

section \<open>Metrics\<close>

fun db_size_loop :: "world \<Rightarrow> string \<Rightarrow> string list \<Rightarrow> go_int \<Rightarrow> nat \<Rightarrow> go_int" where
  "db_size_loop w path [] tot n = tot"
| "db_size_loop w path (suf # sufs) tot n =
     (case file_stat w n (path @ suf) of
        StatSize sz \<Rightarrow> db_size_loop w path sufs (wrap64 (tot + sz)) (Suc n)
      | _ \<Rightarrow> db_size_loop w path sufs tot (Suc n))"

definition dbSize :: "world \<Rightarrow> server \<Rightarrow> go_int" where
  "dbSize w s =
     (if sv_dbPath s = [] then 0
      else db_size_loop w (sv_dbPath s) ['''', ''-wal'', ''-shm''] 0 (cd_calls (sv_db s)))"

definition refreshMetrics :: "world \<Rightarrow> (nat \<Rightarrow> gotime) \<Rightarrow> server \<Rightarrow> server" where
  "refreshMetrics w now s =
     (if sv_metrics s = None then s
      else
        (let s1 = on_metrics (\<lambda>m. m\<lparr>DBSizeBytes := dbSize w s\<rparr>) s
         in case sv_litestream s of
              None \<Rightarrow> s1
            | Some t \<Rightarrow> litestream_gauges (Lag (now 0) t) (tracker_Status t) s1))"

definition equalSecure :: "string \<Rightarrow> string \<Rightarrow> bool" where
  "equalSecure a b \<longleftrightarrow>
     (if length a \<noteq> length b then False
      else xor_fold 0 a b = 0 \<and> equal_fold (take (length ''Bearer '') a) ''Bearer '')"

text \<open>\<open>token\<close> is fixed when the routes are mounted; \<open>refresh\<close> runs before each scrape.\<close>

definition metrics_Handler :: "string \<Rightarrow> (server \<Rightarrow> server) \<Rightarrow> request \<Rightarrow> server \<Rightarrow> response \<times> server" where
  "metrics_Handler token refresh r s =
     (let wrap = (writeJSON 200 BMetrics, refresh s) in
      if token = [] then wrap
      else if \<not> equalSecure (rq_header r ''Authorization'') (''Bearer '' @ token)
      then (writeJSON 401 (BText ''unauthorized''), s)
      else wrap)"

section \<open>What readiness means\<close>

lemma on_metrics_static [simp]:
  "sv_chrony (on_metrics f s) = sv_chrony s" "sv_maxDriftMS (on_metrics f s) = sv_maxDriftMS s"
  "sv_litestream (on_metrics f s) = sv_litestream s" "sv_maxLag (on_metrics f s) = sv_maxLag s"
  "sv_dbPath (on_metrics f s) = sv_dbPath s" "sv_metricsToken (on_metrics f s) = sv_metricsToken s"
  by (simp_all add: on_metrics_def)

lemma chrony_gate_keeps:
  "chrony_gate w pf run s = (x, s') \<Longrightarrow> sv_litestream s' = sv_litestream s \<and> sv_maxLag s' = sv_maxLag s"
  by (auto simp: chrony_gate_def split: option.splits sum.splits if_splits)

lemma chrony_gate_passes:
  "\<not> snd (fst (chrony_gate w pf run s)) \<longleftrightarrow>
     (\<exists>q drift. sv_chrony s = Some q \<and> Drift w pf run q = Inr drift \<and>
        \<not> (sv_maxDriftMS s > 0 \<and> f64_less (Fin (sv_maxDriftMS s)) drift))"
  by (auto simp: chrony_gate_def split: option.splits sum.splits)

text \<open>The gate in terms of the number chronyc reports: unset means no bound, and \<open>NaN\<close> is never above it.\<close>

lemma drift_bound:
  "\<not> (mx > 0 \<and> f64_less (Fin mx) drift) \<longleftrightarrow>
     mx \<le> 0 \<or> drift = NaN \<or> drift = NegInf \<or> (\<exists>d. drift = Fin d \<and> d \<le> mx)"
  by (cases drift) auto

text \<open>C25: the controller reports ready exactly when a clock source is configured, its query succeeds, the
  drift it reports is not above the bound (a bound of 0 or less is none, and a drift that is not a number
  passes, although the comment of the handler says that the drift must be within the bound), and Litestream, if it is tracked, is active with a sync that is at most the maximum lag old.\<close>

theorem readyz_iff:
  "rs_status (fst (handleReadyz w pf run now r s)) = 200 \<longleftrightarrow>
     (\<exists>q drift. sv_chrony s = Some q \<and> Drift w pf run q = Inr drift \<and>
        (sv_maxDriftMS s \<le> 0 \<or> drift = NaN \<or> drift = NegInf \<or> (\<exists>d. drift = Fin d \<and> d \<le> sv_maxDriftMS s))) \<and>
     (case sv_litestream s of
        None \<Rightarrow> True
      | Some t \<Rightarrow> ServiceActive t \<and> LastSyncAt t \<noteq> 0 \<and> time_sub (now 1) (LastSyncAt t) \<le> sv_maxLag s)"
proof -
  obtain c b s1 where g: "chrony_gate w pf run s = ((c, b), s1)" by (metis prod.exhaust)
  note keep = chrony_gate_keeps [OF g]
  have pass: "\<not> b \<longleftrightarrow> (\<exists>q drift. sv_chrony s = Some q \<and> Drift w pf run q = Inr drift \<and>
        (sv_maxDriftMS s \<le> 0 \<or> drift = NaN \<or> drift = NegInf \<or> (\<exists>d. drift = Fin d \<and> d \<le> sv_maxDriftMS s)))"
    using chrony_gate_passes [of w pf run s, unfolded drift_bound] g by simp
  obtain l b2 s2 where g2: "litestream_gate now s1 = ((l, b2), s2)" by (metis prod.exhaust)
  have "\<not> b2 \<longleftrightarrow> (case sv_litestream s of None \<Rightarrow> True
      | Some t \<Rightarrow> ServiceActive t \<and> LastSyncAt t \<noteq> 0 \<and> time_sub (now 1) (LastSyncAt t) \<le> sv_maxLag s)"
    using g2 keep
    by (auto simp: litestream_gate_def Healthy_def time_is_zero_def Let_def split: option.splits if_splits)
  moreover have "rs_status (fst (handleReadyz w pf run now r s)) = 200 \<longleftrightarrow> \<not> b \<and> \<not> b2"
    using g g2 by (simp add: handleReadyz_def Let_def)
  ultimately show ?thesis using pass by simp
qed

lemma equalSecure_iff: "equalSecure a (''Bearer '' @ t) \<longleftrightarrow> a = ''Bearer '' @ t"
  by (auto simp: equalSecure_def xor_fold_0)

end
