(* ===== verification/Routes.thy ===== *)
theory Routes
  imports Ui Readiness Config
begin

text \<open>
  The controller as a whole: the routes of \<open>Server.Handler\<close> (\<open>internal/controller/server.go\<close>), opening the
  database (\<open>internal/controller/db.go\<close>) and the wiring of \<open>cmd/nlm-controller/main.go\<close>. Everything the
  handlers take from outside is a field of one environment.
\<close>

section \<open>The environment of the handlers\<close>

text \<open>\<open>ce_now n k\<close> and \<open>ce_rand n\<close> are the clock readings and the random bytes of the request that
  begins after \<open>n\<close> external calls; \<open>ce_static\<close> serves the embedded files.\<close>

record ctl_env =
  ce_world :: world
  ce_codec :: codec
  ce_rand :: "nat \<Rightarrow> rand_read"
  ce_now :: "nat \<Rightarrow> nat \<Rightarrow> gotime"
  ce_upgrade :: "bool \<Rightarrow> request \<Rightarrow> go_int"
  ce_parse_float :: "string \<Rightarrow> string + f64"
  ce_run :: "string \<Rightarrow> duration \<Rightarrow> string + string"
  ce_matrix :: matrix_driver
  ce_static :: "string \<Rightarrow> response"

section \<open>Patterns\<close>

text \<open>A pattern of \<open>http.ServeMux\<close>: a fixed path, a path with one wildcard segment, or a subtree. The
  result is the value of the wildcard, or the empty string.\<close>

datatype pattern = Exact string | Wildcard string string | Subtree string

definition match_wildcard :: "string \<Rightarrow> string \<Rightarrow> string \<Rightarrow> string option" where
  "match_wildcard pre suf path =
     (let rest = drop (length pre) path; k = length rest - length suf; seg = take k rest in
      if has_prefix path pre \<and> length suf \<le> length rest \<and> drop k rest = suf \<and> seg \<noteq> [] \<and> CHR ''/'' \<notin> set seg
      then Some seg else None)"

fun match_path :: "pattern \<Rightarrow> string \<Rightarrow> string option" where
  "match_path (Exact p) path = (if path = p then Some [] else None)"
| "match_path (Wildcard pre suf) path = match_wildcard pre suf path"
| "match_path (Subtree p) path = (if has_prefix path p then Some [] else None)"

text \<open>A pattern with method \<open>GET\<close> also matches \<open>HEAD\<close>.\<close>

definition match_method :: "string \<Rightarrow> string \<Rightarrow> bool" where
  "match_method pat m \<longleftrightarrow> m = pat \<or> (pat = ''GET'' \<and> m = ''HEAD'')"

type_synonym route = "string \<times> pattern \<times> handler"

section \<open>The routes\<close>

text \<open>In the order of the code; the subtree \<open>/ui/\<close>, which every more specific pattern overrides, comes
  after them. \<open>n\<close> is the number of external calls before the request.\<close>

definition agent_routes :: "ctl_env \<Rightarrow> nat \<Rightarrow> route list" where
  "agent_routes E n =
     [(''POST'', Exact ''/api/v1/results'', bearerAuth (ce_world E) (handleResults (ce_world E) (ce_codec E))),
      (''GET'', Exact ''/api/v1/targets'', bearerAuth (ce_world E) (handleTargets (ce_world E))),
      (''POST'', Exact ''/api/v1/ws-ticket'', bearerAuth (ce_world E) (handleWSTicket (ce_now E n 0) (ce_rand E n))),
      (''GET'', Exact ''/api/v1/ws'', (\<lambda>r s. fst (handleWS (ce_now E n) (ce_upgrade E) r s)))]"

definition admin_routes :: "ctl_env \<Rightarrow> nat \<Rightarrow> route list" where
  "admin_routes E n =
     [(''GET'', Exact ''/api/v1/admin/nodes'', adminAuth (handleAdminListNodes (ce_world E))),
      (''POST'', Exact ''/api/v1/admin/nodes'',
         adminAuth (handleAdminCreateNode (ce_world E) (ce_codec E) (ce_rand E n))),
      (''PATCH'', Wildcard ''/api/v1/admin/nodes/'' [], adminAuth (handleAdminPatchNode (ce_world E) (ce_codec E))),
      (''DELETE'', Wildcard ''/api/v1/admin/nodes/'' [], adminAuth (handleAdminDeleteNode (ce_world E)))]"

definition ui_routes :: "ctl_env \<Rightarrow> nat \<Rightarrow> route list" where
  "ui_routes E n =
     [(''GET'', Exact ''/ui/login'', handleUILogin),
      (''POST'', Exact ''/ui/login'', handleUILogin),
      (''POST'', Exact ''/ui/logout'', handleUILogout),
      (''GET'', Exact ''/ui/nodes'', requireSession (handleUINodes (ce_world E))),
      (''GET'', Exact ''/ui/frag/matrix'', requireSession (handleFragMatrix (ce_world E) (ce_matrix E))),
      (''GET'', Exact ''/ui/frag/nodes/new'', requireSession handleFragNewNodeForm),
      (''POST'', Exact ''/ui/frag/nodes'', requireSession (handleFragCreateNode (ce_world E) (ce_rand E n))),
      (''DELETE'', Wildcard ''/ui/frag/nodes/'' [], requireSession (handleFragDeleteNode (ce_world E))),
      (''PATCH'', Wildcard ''/ui/frag/nodes/'' ''/disable'', requireSession (handleFragDisableNode (ce_world E))),
      (''PATCH'', Wildcard ''/ui/frag/nodes/'' ''/enable'', requireSession (handleFragEnableNode (ce_world E))),
      (''GET'', Exact ''/api/v1/ui/ws'', (\<lambda>r s. fst (handleUIWS (ce_upgrade E) r s))),
      (''GET'', Subtree ''/ui/'', requireSession (handleUIDashboard (ce_world E) (ce_matrix E)))]"

definition routes :: "ctl_env \<Rightarrow> nat \<Rightarrow> string \<Rightarrow> server \<Rightarrow> route list" where
  "routes E n path s =
     [(''GET'', Exact ''/healthz'', handleHealthz),
      (''GET'', Exact ''/readyz'', handleReadyz (ce_world E) (ce_parse_float E) (ce_run E) (ce_now E n))] @
     agent_routes E n @ admin_routes E n @
     (if sv_metrics s = None then []
      else [(''GET'', Exact ''/metrics'',
              metrics_Handler (sv_metricsToken s) (refreshMetrics (ce_world E) (ce_now E n)))]) @
     ui_routes E n @
     [(''GET'', Subtree ''/static/'', (\<lambda>r s. (ce_static E path, s)))]"

fun dispatch :: "string \<Rightarrow> bool \<Rightarrow> route list \<Rightarrow> handler" where
  "dispatch path seen [] r s =
     (if seen then (writeJSON 405 (BText ''Method Not Allowed''), s)
      else (writeJSON 404 (BText ''404 page not found''), s))"
| "dispatch path seen ((m, pat, h) # rts) r s =
     (case match_path pat path of
        None \<Rightarrow> dispatch path seen rts r s
      | Some v \<Rightarrow> if match_method m (rq_method r) then h (r\<lparr>rq_path_id := v\<rparr>) s
                  else dispatch path True rts r s)"

text \<open>The mux applied to a request for a clean path; every request counts as one external call.\<close>

definition Handler :: "ctl_env \<Rightarrow> string \<Rightarrow> handler" where
  "Handler E path r s =
     (let n = cd_calls (sv_db s); s0 = s\<lparr>sv_db := (sv_db s)\<lparr>cd_calls := Suc n\<rparr>\<rparr>
      in dispatch path False (routes E n path s) r s0)"

section \<open>Opening the database\<close>

datatype open_error = DbPathRequired | OpenDbErr string | PingErr string | MigrateErr string

text \<open>\<open>up\<close> stands for \<open>dbmigrate.Up\<close>, which runs the third-party migrator; the migrations are embedded, so
  \<open>fs.Sub\<close> with a constant name does not fail.\<close>

definition OpenDB :: "world \<Rightarrow> (ctl_db \<Rightarrow> string option \<times> ctl_db) \<Rightarrow> string \<Rightarrow> ctl_db \<Rightarrow>
    open_error option \<times> ctl_db" where
  "OpenDB w up path db =
     (if path = [] then (Some DbPathRequired, db)
      else case cd_call w db of
        (Some e, db1) \<Rightarrow> (Some (OpenDbErr e), db1)
      | (None, db1) \<Rightarrow>
          (case cd_call w db1 of
             (Some e, db2) \<Rightarrow> (Some (PingErr e), db2)
           | (None, db2) \<Rightarrow>
               (case up db2 of
                  (Some e, db3) \<Rightarrow> (Some (MigrateErr e), db3)
                | (None, db3) \<Rightarrow> (None, db3))))"

section \<open>The controller's main program\<close>

definition controller_server :: "controller_config \<Rightarrow> ctl_db \<Rightarrow> server" where
  "controller_server cfg db =
     NewWithOptions db
       \<lparr>op_DBPath = cc_DBPath cfg,
        op_Chrony = Some \<lparr>cq_Binary = cc_ChronycBinary cfg, cq_Timeout = 2 * second\<rparr>,
        op_MaxClockDriftMS = cc_MaxClockDriftMS cfg,
        op_Litestream = Some (NewTracker (MaxLitestreamLag cfg)),
        op_MaxLitestreamLag = MaxLitestreamLag cfg,
        op_Tickets = Some (NewStore DefaultTTL),
        op_WSRateLimit = Some (NewRateLimiter (cc_WSTicketRateLimit cfg) DefaultWindow DefaultBlockDuration),
        op_Metrics = Some new_metrics, op_MetricsToken = cc_MetricsToken cfg,
        op_AdminToken = cc_AdminToken cfg, op_WSAllowedOrigins = cc_WSAllowedOrigins cfg\<rparr>"

datatype controller_failure = BadConfig config_error | OpenFailed open_error

text \<open>The requests a controller serves, one after the other.\<close>

fun serve_requests :: "ctl_env \<Rightarrow> (string \<times> request) list \<Rightarrow> server \<Rightarrow> response list \<times> server" where
  "serve_requests E [] s = ([], s)"
| "serve_requests E ((path, r) # rs) s =
     (case Handler E path r s of (resp, s1) \<Rightarrow>
      case serve_requests E rs s1 of (resps, s2) \<Rightarrow> (resp # resps, s2))"

end
