(* ===== verification/Agent_Client.thy ===== *)
theory Agent_Client
  imports Config Server Spool
begin

text \<open>
  The agent's two clients of the controller (\<open>internal/agent/targets.go\<close> and \<open>client.go\<close>): the cache of
  the target list and the sender that posts spooled results. The HTTP transport, the request
  constructor's check of the URL, JSON and the clock are fields of an environment; \<open>'n\<close> is the state of
  the network and of what is behind it.
\<close>

section \<open>HTTP\<close>

record http_request =
  hq_method :: string
  hq_url :: string
  hq_header :: "(string \<times> string) list"
  hq_body :: string

text \<open>A reply; the body is what reading it delivers before it ends or fails.\<close>

record http_reply =
  hr_StatusCode :: go_int
  hr_Status :: string
  hr_body :: string

record 'n agent_env =
  env_url_err :: "string \<Rightarrow> string option"
  env_do :: "duration \<Rightarrow> http_request \<Rightarrow> 'n \<Rightarrow> (string + http_reply) \<times> 'n"
  env_now :: "nat \<Rightarrow> gotime"
  env_codec :: codec

definition trim_right_slash :: "string \<Rightarrow> string" where
  "trim_right_slash s = rev (dropWhile (\<lambda>c. c = CHR ''/'') (rev s))"

section \<open>The target cache\<close>

record target_cache =
  tc_base :: string
  tc_nodeID :: string
  tc_secret :: string
  tc_timeout :: duration
  tc_maxAge :: duration
  tc_targets :: "target list"
  tc_knownVersion :: go_int
  tc_lastFetched :: gotime
  tc_expectedNotice :: go_int

text \<open>What the agent's goroutine works on besides the spool: the cache (shared by the client that
  notifies it and the runner that reads it), the network and the number of clock readings so far.\<close>

record 'n agent_net =
  ag_cache :: target_cache
  ag_net :: 'n
  ag_calls :: nat

definition NewTargetCache :: "string \<Rightarrow> string \<Rightarrow> string \<Rightarrow> duration \<Rightarrow> duration \<Rightarrow> target_cache" where
  "NewTargetCache url nid secret timeout maxAge =
     \<lparr>tc_base = trim_right_slash url, tc_nodeID = nid, tc_secret = secret, tc_timeout = timeout,
      tc_maxAge = maxAge, tc_targets = [], tc_knownVersion = 0, tc_lastFetched = 0, tc_expectedNotice = 0\<rparr>"

text \<open>The assignments \<open>Seed\<close> and the second critical section of \<open>Targets\<close> have in common.\<close>

definition cache_store :: "target list \<Rightarrow> go_int \<Rightarrow> gotime \<Rightarrow> target_cache \<Rightarrow> target_cache" where
  "cache_store ts v now c =
     c\<lparr>tc_targets := ts, tc_knownVersion := v, tc_expectedNotice := v, tc_lastFetched := now\<rparr>"

definition Seed :: "'n agent_env \<Rightarrow> target list \<Rightarrow> go_int \<Rightarrow> 'n agent_net \<Rightarrow> 'n agent_net" where
  "Seed E ts v a =
     a\<lparr>ag_cache := cache_store ts v (env_now E (ag_calls a)) (ag_cache a), ag_calls := Suc (ag_calls a)\<rparr>"

definition NoticeVersion :: "go_int \<Rightarrow> target_cache \<Rightarrow> target_cache" where
  "NoticeVersion v c = (if v \<le> 0 then c else c\<lparr>tc_expectedNotice := v\<rparr>)"

datatype fetch_error =
    BuildRequest string
  | RequestFailed string
  | BadStatus go_int string
  | BadBody string

definition fetch :: "'n agent_env \<Rightarrow> target_cache \<Rightarrow> 'n \<Rightarrow> (fetch_error + target list \<times> go_int) \<times> 'n" where
  "fetch E c net =
     (let url = tc_base c @ ''/api/v1/targets'' in
      case env_url_err E url of
        Some e \<Rightarrow> (Inl (BuildRequest e), net)
      | None \<Rightarrow>
          (case env_do E (tc_timeout c)
                  \<lparr>hq_method = ''GET'', hq_url = url,
                   hq_header = [(''X-NLM-Node-Id'', tc_nodeID c), (''Authorization'', ''Bearer '' @ tc_secret c)],
                   hq_body = []\<rparr> net of
             (Inl e, net1) \<Rightarrow> (Inl (RequestFailed e), net1)
           | (Inr resp, net1) \<Rightarrow>
               if hr_StatusCode resp \<noteq> 200
               then (Inl (BadStatus (hr_StatusCode resp) (trim_space (take 1024 (hr_body resp)))), net1)
               else (case json_targets (env_codec E) (hr_body resp) of
                       Inl e \<Rightarrow> (Inl (BadBody e), net1)
                     | Inr (es, v) \<Rightarrow>
                         (Inr (map (\<lambda>t. \<lparr>tg_ID = te_ID t, tg_Address = te_Address t\<rparr>) es, v), net1))))"

text \<open>The first critical section's decision; \<open>time.Since\<close> is evaluated only when the tests before it
  leave it open.\<close>

definition needs_refresh :: "gotime \<Rightarrow> target_cache \<Rightarrow> bool" where
  "needs_refresh now c \<longleftrightarrow>
     time_is_zero (tc_lastFetched c) \<or>
     (tc_expectedNotice c \<noteq> 0 \<and> tc_expectedNotice c \<noteq> tc_knownVersion c) \<or>
     (tc_maxAge c > 0 \<and> time_sub now (tc_lastFetched c) \<ge> tc_maxAge c)"

type_synonym targets_result = "target list \<times> go_int \<times> fetch_error option"

definition cache_Targets :: "'n agent_env \<Rightarrow> 'n agent_net \<Rightarrow> targets_result \<times> 'n agent_net" where
  "cache_Targets E a =
     (let c = ag_cache a; a1 = a\<lparr>ag_calls := Suc (ag_calls a)\<rparr> in
      if \<not> needs_refresh (env_now E (ag_calls a)) c
      then ((tc_targets c, tc_knownVersion c, None), a1)
      else
        (case fetch E c (ag_net a1) of
           (Inl e, net1) \<Rightarrow> ((tc_targets c, tc_knownVersion c, Some e), a1\<lparr>ag_net := net1\<rparr>)
         | (Inr (fetched, v), net1) \<Rightarrow>
             ((fetched, v, None),
              a1\<lparr>ag_net := net1, ag_cache := cache_store fetched v (env_now E (ag_calls a1)) (ag_cache a1),
                 ag_calls := Suc (ag_calls a1)\<rparr>)))"

section \<open>The sender\<close>

record client =
  cl_base :: string
  cl_nodeID :: string
  cl_secret :: string
  cl_timeout :: duration
  cl_notifier :: bool

definition NewClient :: "string \<Rightarrow> string \<Rightarrow> string \<Rightarrow> duration \<Rightarrow> client" where
  "NewClient url nid secret timeout =
     \<lparr>cl_base = trim_right_slash url, cl_nodeID = nid, cl_secret = secret, cl_timeout = timeout,
      cl_notifier = False\<rparr>"

text \<open>Attaching the cache; it is the only \<open>VersionNotifier\<close> of the program.\<close>

definition SetVersionNotifier :: "client \<Rightarrow> client" where
  "SetVersionNotifier c = c\<lparr>cl_notifier := True\<rparr>"

definition notifyVersion :: "'n agent_env \<Rightarrow> client \<Rightarrow> string \<Rightarrow> 'n agent_net \<Rightarrow> 'n agent_net" where
  "notifyVersion E c body a =
     (if \<not> cl_notifier c \<or> body = [] then a
      else case json_version (env_codec E) body of
             None \<Rightarrow> a
           | Some v \<Rightarrow> if v > 0 then a\<lparr>ag_cache := NoticeVersion v (ag_cache a)\<rparr> else a)"

text \<open>The bytes of the ellipsis are its UTF-8 encoding; the cut may fall inside a character.\<close>

definition trimBody :: "string \<Rightarrow> string" where
  "trimBody b = (let s = trim_space b in
     if length s > 256 then take 256 s @ [CHR 0xE2, CHR 0x80, CHR 0xA6] else s)"

definition EncodePayload :: "codec \<Rightarrow> results_request \<Rightarrow> string + string" where
  "EncodePayload cd v = json_payload cd v"

text \<open>\<open>http.StatusText\<close> for the codes from 400 on.\<close>

definition StatusText :: "go_int \<Rightarrow> string" where
  "StatusText code = (case map_of
     [(400, ''Bad Request''), (401, ''Unauthorized''), (402, ''Payment Required''), (403, ''Forbidden''),
      (404, ''Not Found''), (405, ''Method Not Allowed''), (406, ''Not Acceptable''),
      (407, ''Proxy Authentication Required''), (408, ''Request Timeout''), (409, ''Conflict''),
      (410, ''Gone''), (411, ''Length Required''), (412, ''Precondition Failed''),
      (413, ''Request Entity Too Large''), (414, ''Request URI Too Long''), (415, ''Unsupported Media Type''),
      (416, ''Requested Range Not Satisfiable''), (417, ''Expectation Failed''), (418, [CHR ''I'', CHR 0x27] @ ''m a teapot''),
      (421, ''Misdirected Request''), (422, ''Unprocessable Entity''), (423, ''Locked''),
      (424, ''Failed Dependency''), (425, ''Too Early''), (426, ''Upgrade Required''),
      (428, ''Precondition Required''), (429, ''Too Many Requests''),
      (431, ''Request Header Fields Too Large''), (451, ''Unavailable For Legal Reasons''),
      (500, ''Internal Server Error''), (501, ''Not Implemented''), (502, ''Bad Gateway''),
      (503, ''Service Unavailable''), (504, ''Gateway Timeout''), (505, ''HTTP Version Not Supported''),
      (506, ''Variant Also Negotiates''), (507, ''Insufficient Storage''), (508, ''Loop Detected''),
      (510, ''Not Extended''), (511, ''Network Authentication Required'')] code of
     Some t \<Rightarrow> t | None \<Rightarrow> [])"

definition status_error :: "http_reply \<Rightarrow> string \<Rightarrow> string" where
  "status_error resp body =
     itoa (hr_StatusCode resp) @ '' '' @ StatusText (hr_StatusCode resp) @ '': '' @ trimBody body"

definition results_http :: "client \<Rightarrow> string \<Rightarrow> http_request" where
  "results_http c pl =
     \<lparr>hq_method = ''POST'', hq_url = cl_base c @ ''/api/v1/results'',
      hq_header = [(''Content-Type'', ''application/json''), (''X-NLM-Node-Id'', cl_nodeID c),
                   (''Authorization'', ''Bearer '' @ cl_secret c)],
      hq_body = pl\<rparr>"

definition Send :: "'n agent_env \<Rightarrow> client \<Rightarrow> 'n agent_net sender" where
  "Send E c a run pl =
     (case env_url_err E (cl_base c @ ''/api/v1/results'') of
        Some e \<Rightarrow> ((OutcomePermanentFail, Some (''build request: '' @ e)), a)
      | None \<Rightarrow>
          (case env_do E (cl_timeout c) (results_http c pl) (ag_net a) of
             (Inl e, net1) \<Rightarrow> ((OutcomeTransientFail, Some e), a\<lparr>ag_net := net1\<rparr>)
           | (Inr resp, net1) \<Rightarrow>
               (let a1 = a\<lparr>ag_net := net1\<rparr>; body = take 4096 (hr_body resp); code = hr_StatusCode resp in
                if code \<ge> 200 \<and> code < 300 then ((OutcomeAccepted, None), notifyVersion E c body a1)
                else if code = 409 then ((OutcomeAccepted, None), notifyVersion E c body a1)
                else if code \<ge> 400 \<and> code < 500
                then ((OutcomePermanentFail, Some (status_error resp body)), a1)
                else if code \<ge> 500 then ((OutcomeTransientFail, Some (status_error resp body)), a1)
                else ((OutcomeTransientFail, Some (''unexpected status: '' @ hr_Status resp)), a1))))"

end
