(* ===== verification/Spoke.thy ===== *)
theory Spoke
  imports Agent_Client
begin

text \<open>
  The agent's runners (\<open>internal/agent/probe.go\<close>, \<open>spoke.go\<close>, \<open>hub.go\<close>, \<open>listener.go\<close>) and their wiring
  (\<open>cmd/nlm-agent/main.go\<close>). The dialer, the clock readings around a dial, the order in which the probing
  goroutines finish and the UUIDs are fields of an environment.
\<close>

section \<open>Probes\<close>

text \<open>\<open>pr_dial i\<close> is the \<open>i\<close>-th dial of the process: an error, or the clock readings before and after it.\<close>

record probe_env =
  pr_dial :: "nat \<Rightarrow> string \<Rightarrow> duration \<Rightarrow> string + gotime \<times> gotime"
  pr_finish :: "nat \<Rightarrow> nat list"
  pr_now :: "nat \<Rightarrow> gotime"
  pr_uuid :: "nat \<Rightarrow> string + string"

definition Probe :: "probe_env \<Rightarrow> nat \<Rightarrow> string \<Rightarrow> duration \<Rightarrow> string + duration" where
  "Probe pe i addr timeout =
     (case pr_dial pe i addr timeout of
        Inl e \<Rightarrow> Inl e
      | Inr (start, fin) \<Rightarrow> Inr (time_sub fin start))"

definition zero_observation :: observation where
  "zero_observation = \<lparr>TargetID = [], LatencyMs = None, ObsError = []\<rparr>"

text \<open>The goroutine of target \<open>t\<close>, whose dial is number \<open>i\<close>; both operands of the division are \<open>float64\<close>.\<close>

definition observe_target :: "world \<Rightarrow> probe_env \<Rightarrow> duration \<Rightarrow> nat \<Rightarrow> target \<Rightarrow> observation" where
  "observe_target w pe timeout i t =
     (case Probe pe i (tg_Address t) timeout of
        Inl e \<Rightarrow> zero_observation\<lparr>TargetID := tg_ID t, ObsError := e\<rparr>
      | Inr rtt \<Rightarrow> zero_observation\<lparr>TargetID := tg_ID t,
                     LatencyMs := Some (round64 w (round64 w (of_int rtt) / of_int millisecond))\<rparr>)"

text \<open>The goroutines store their observations in the order in which they finish; \<open>n\<close> is the number of
  dials made before.\<close>

definition RunProbes :: "world \<Rightarrow> probe_env \<Rightarrow> nat \<Rightarrow> target list \<Rightarrow> duration \<Rightarrow> observation list" where
  "RunProbes w pe n targets timeout =
     fold (\<lambda>i out. out[i := observe_target w pe timeout (n + i) (targets ! i)])
       (pr_finish pe (length targets)) (replicate (length targets) zero_observation)"

section \<open>Target sources\<close>

datatype target_source = StaticTargets "target list" | CacheTargets

definition source_Targets :: "'n agent_env \<Rightarrow> target_source \<Rightarrow> 'n agent_net \<Rightarrow> targets_result \<times> 'n agent_net" where
  "source_Targets E src a =
     (case src of StaticTargets ts \<Rightarrow> ((ts, 0, None), a) | CacheTargets \<Rightarrow> cache_Targets E a)"

section \<open>The spoke\<close>

record spoke =
  sk_cfg :: agent_config
  sk_spool :: spool
  sk_client :: client
  sk_source :: target_source

definition NewSpoke :: "agent_config \<Rightarrow> spool \<Rightarrow> client \<Rightarrow> target_source option \<Rightarrow> spoke" where
  "NewSpoke cfg sp cl src =
     \<lparr>sk_cfg = cfg, sk_spool = sp, sk_client = cl,
      sk_source = (case src of None \<Rightarrow> StaticTargets (Targets cfg) | Some s \<Rightarrow> s)\<rparr>"

record cycle_stats =
  cy_ProbeRunID :: string
  cy_Targets :: nat
  cy_Drain :: drain_stats

definition no_cycle :: cycle_stats where
  "no_cycle = \<lparr>cy_ProbeRunID = [], cy_Targets = 0, cy_Drain = zero_stats\<rparr>"

datatype spoke_error =
    NoProbeTargets
  | GenRunID string
  | EncodeFailed string
  | EnqueueFailed spool_error
  | DrainFailed spool_error

text \<open>The state of the agent: the spool's database, the network side, the cycles and dials made so far.\<close>

record 'n agent =
  at_spool :: spool_db
  at_net :: "'n agent_net"
  at_cycles :: nat
  at_dials :: nat

text \<open>\<open>int(d.Seconds())\<close>: whole seconds and nanoseconds are added as \<open>float64\<close>, then truncated.\<close>

definition trunc_rat :: "rat \<Rightarrow> int" where
  "trunc_rat x = (if x < 0 then - \<lfloor>- x\<rfloor> else \<lfloor>x\<rfloor>)"

definition duration_seconds :: "world \<Rightarrow> duration \<Rightarrow> go_int" where
  "duration_seconds w d =
     (let a = \<bar>d\<bar>; sec = sgn d * (a div second); nsec = sgn d * (a mod second)
      in trunc_rat (round64 w (round64 w (of_int sec) + round64 w (round64 w (of_int nsec) / of_int second))))"

text \<open>\<open>v, _ := f()\<close>: the error is dropped and the value is the zero value then.\<close>

definition or_zero :: "'e + int \<Rightarrow> int" where
  "or_zero r = (case r of Inl _ \<Rightarrow> 0 | Inr v \<Rightarrow> v)"

text \<open>What \<open>Run\<close> does after a drain without error: the three readings and the snapshot; a failure to
  save it is only logged.\<close>

definition save_snapshot :: "world \<Rightarrow> spool_db \<Rightarrow> spool_db" where
  "save_snapshot w db =
     (case spool_Depth w db of (postDepth, db1) \<Rightarrow>
      case OldestAge w db1 of (postOldest, db2) \<Rightarrow>
      case spool_DropsTotal w db2 of (postDrops, db3) \<Rightarrow>
        snd (SaveDrainSnapshot w (or_zero postDepth) (duration_seconds w (or_zero postOldest))
               (or_zero postDrops) db3))"

definition build_request :: "agent_config \<Rightarrow> string \<Rightarrow> gotime \<Rightarrow> observation list \<Rightarrow> drain_snapshot \<Rightarrow>
    results_request" where
  "build_request cfg run obsAt results prev =
     \<lparr>SourceID = NodeID cfg, ProbeRunID = run, ObservedAt = obsAt, Results = results,
      SpoolMetadata = \<lparr>SpoolDepth = Depth prev, SpoolOldestAgeSeconds = OldestAgeSecs prev,
                       SpoolDropsTotal = DropsTotal prev, DrainAttempt = 1\<rparr>\<rparr>"

text \<open>Draining and the report of a cycle, once the payload of the run is in the spool.\<close>

definition finish_cycle :: "world \<Rightarrow> 'n agent_env \<Rightarrow> spoke \<Rightarrow> string \<Rightarrow> nat \<Rightarrow> 'n agent \<Rightarrow>
    (cycle_stats \<times> spoke_error option) \<times> 'n agent" where
  "finish_cycle w E sk run k a =
     (case Drain w (sk_spool sk) (Send E (sk_client sk)) (at_spool a) (at_net a) of
        ((stats, Some e), db, net) \<Rightarrow>
          ((no_cycle\<lparr>cy_ProbeRunID := run, cy_Targets := k\<rparr>, Some (DrainFailed e)),
           a\<lparr>at_spool := db, at_net := net\<rparr>)
      | ((stats, None), db, net) \<Rightarrow>
          ((\<lparr>cy_ProbeRunID = run, cy_Targets = k, cy_Drain = stats\<rparr>, None),
           a\<lparr>at_spool := save_snapshot w db, at_net := net\<rparr>))"

definition Spoke_Run :: "world \<Rightarrow> 'n agent_env \<Rightarrow> probe_env \<Rightarrow> spoke \<Rightarrow> 'n agent \<Rightarrow>
    (cycle_stats \<times> spoke_error option) \<times> 'n agent" where
  "Spoke_Run w E pe sk a =
     (case source_Targets E (sk_source sk) (at_net a) of ((targets, _, _), net1) \<Rightarrow>
       (let a1 = a\<lparr>at_net := net1, at_cycles := Suc (at_cycles a)\<rparr> in
        if targets = [] then ((no_cycle, Some NoProbeTargets), a1)
        else
          (case pr_uuid pe (at_cycles a) of
             Inl e \<Rightarrow> ((no_cycle, Some (GenRunID e)), a1)
           | Inr run \<Rightarrow>
               (let results = RunProbes w pe (at_dials a1) targets (ProbeTimeout (sk_cfg sk));
                    ((prev, _), db1) = LastDrainSnapshot w (at_spool a1);
                    a2 = a1\<lparr>at_spool := db1, at_dials := at_dials a1 + length targets\<rparr> in
                case EncodePayload (env_codec E)
                       (build_request (sk_cfg sk) run (pr_now pe (at_cycles a)) results prev) of
                  Inl e \<Rightarrow> ((no_cycle, Some (EncodeFailed e)), a2)
                | Inr pl \<Rightarrow>
                    (case Enqueue w run pl (at_spool a2) of
                       (Some e, db2) \<Rightarrow>
                         (if e \<noteq> ErrDuplicate then ((no_cycle, Some (EnqueueFailed e)), a2\<lparr>at_spool := db2\<rparr>)
                          else finish_cycle w E sk run (length results) (a2\<lparr>at_spool := db2\<rparr>))
                     | (None, db2) \<Rightarrow>
                         finish_cycle w E sk run (length results) (a2\<lparr>at_spool := db2\<rparr>))))))"

section \<open>The hub daemon\<close>

record hub =
  hb_spoke :: spoke
  hb_probeInterval :: duration
  hb_startupJitter :: duration

definition NewHub :: "spoke \<Rightarrow> duration \<Rightarrow> duration \<Rightarrow> hub" where
  "NewHub sk interval jitter =
     \<lparr>hb_spoke = sk, hb_probeInterval = (if interval \<le> 0 then 60 * second else interval),
      hb_startupJitter = jitter\<rparr>"

definition BuildHub :: "agent_config \<Rightarrow> spool \<Rightarrow> client \<Rightarrow> target_source option \<Rightarrow> duration \<Rightarrow> duration \<Rightarrow> hub" where
  "BuildHub cfg sp cl src interval jitter = NewHub (NewSpoke cfg sp cl src) interval jitter"

definition runCycle :: "world \<Rightarrow> 'n agent_env \<Rightarrow> probe_env \<Rightarrow> hub \<Rightarrow> 'n agent \<Rightarrow> spoke_error option \<times> 'n agent" where
  "runCycle w E pe h a =
     (case Spoke_Run w E pe (hb_spoke h) a of ((_, err), a1) \<Rightarrow> (err, a1))"

text \<open>What the selects of \<open>Run\<close> wait for. The daemon's life is the sequence of these events; \<open>None\<close> as
  the first component means that it is still running when they end. The inner option is the error \<open>Run\<close>
  returns: the context's when it ends during the startup delay.\<close>

datatype hub_event = CtxDone string | Elapsed

fun hub_loop :: "world \<Rightarrow> 'n agent_env \<Rightarrow> probe_env \<Rightarrow> hub \<Rightarrow> hub_event list \<Rightarrow> 'n agent \<Rightarrow>
    string option option \<times> 'n agent" where
  "hub_loop w E pe h [] a = (None, a)"
| "hub_loop w E pe h (CtxDone e # es) a = (Some None, a)"
| "hub_loop w E pe h (Elapsed # es) a = hub_loop w E pe h es (snd (runCycle w E pe h a))"

definition Hub_Run :: "world \<Rightarrow> 'n agent_env \<Rightarrow> probe_env \<Rightarrow> hub \<Rightarrow> hub_event list \<Rightarrow> 'n agent \<Rightarrow>
    string option option \<times> 'n agent" where
  "Hub_Run w E pe h es a =
     (if hb_startupJitter h > 0
      then (case es of
              [] \<Rightarrow> (None, a)
            | CtxDone e # _ \<Rightarrow> (Some (Some e), a)
            | Elapsed # es1 \<Rightarrow> hub_loop w E pe h es1 (snd (runCycle w E pe h a)))
      else hub_loop w E pe h es (snd (runCycle w E pe h a)))"

section \<open>The listener\<close>

text \<open>An accepted connection, or an error of \<open>Accept\<close> with whether the context is done by then and
  whether it is a timeout.\<close>

datatype accept_event = Accepted_conn | Accept_error string bool bool

fun accept_loop :: "accept_event list \<Rightarrow> nat \<Rightarrow> string option option \<times> nat" where
  "accept_loop [] k = (None, k)"
| "accept_loop (Accepted_conn # es) k = accept_loop es (Suc k)"
| "accept_loop (Accept_error e ctx_done timeout # es) k =
     (if ctx_done then (Some None, k)
      else if timeout then accept_loop es k
      else (Some (Some e), k))"

definition ListenAndServe :: "(string \<Rightarrow> string option) \<Rightarrow> string \<Rightarrow> accept_event list \<Rightarrow>
    string option option \<times> nat" where
  "ListenAndServe listen addr es =
     (case listen addr of Some e \<Rightarrow> (Some (Some e), 0) | None \<Rightarrow> accept_loop es 0)"

section \<open>The agent's main program\<close>

datatype agent_failure =
    LoadAgentConfig config_error
  | LoadSpoolConfig config_error
  | OpenSpool spool_error
  | DaemonNotImplemented
  | CycleFailed spoke_error
  | HubStopped string

definition buildTargetSource :: "agent_config \<Rightarrow> client \<Rightarrow> target_cache \<Rightarrow>
    target_source \<times> client \<times> target_cache" where
  "buildTargetSource cfg cl cache =
     (if length (Targets cfg) > 0 then (StaticTargets (Targets cfg), cl, cache)
      else (CacheTargets, SetVersionNotifier cl,
            NewTargetCache (ControllerURL cfg) (NodeID cfg) (NodeSecret cfg) (HTTPTimeout cfg)
              (HubRefreshInterval cfg)))"

definition openSpool :: "world \<Rightarrow> (spool_db \<Rightarrow> string option \<times> spool_db) \<Rightarrow> environment \<Rightarrow> spool_db \<Rightarrow>
    (agent_failure + spool) \<times> spool_db" where
  "openSpool w up env db =
     (case LoadSpool env of
        Inl e \<Rightarrow> (Inl (LoadSpoolConfig e), db)
      | Inr c \<Rightarrow>
          (case Open w up (sc_Path c)
                  \<lparr>DrainRows = sc_DrainRows c, MaxAge = cfg_MaxAge c, MaxSize = cfg_MaxSizeBytes c,
                   BackoffBase = cfg_BackoffBase c, BackoffMax = cfg_BackoffMax c\<rparr> db of
             (Inl e, db1) \<Rightarrow> (Inl (OpenSpool e), db1)
           | (Inr sp, db1) \<Rightarrow> (Inr sp, db1)))"

definition agent_client :: "agent_config \<Rightarrow> client" where
  "agent_client cfg = NewClient (ControllerURL cfg) (NodeID cfg) (NodeSecret cfg) (HTTPTimeout cfg)"

definition runSpoke :: "world \<Rightarrow> (spool_db \<Rightarrow> string option \<times> spool_db) \<Rightarrow> (string \<Rightarrow> string + string) \<Rightarrow>
    environment \<Rightarrow> 'n agent_env \<Rightarrow> probe_env \<Rightarrow> bool \<Rightarrow> 'n agent \<Rightarrow> agent_failure option \<times> 'n agent" where
  "runSpoke w up rf env E pe once a =
     (case LoadAgent env rf of
        Inl e \<Rightarrow> (Some (LoadAgentConfig e), a)
      | Inr cfg \<Rightarrow>
          (case openSpool w up env (at_spool a) of
             (Inl e, db) \<Rightarrow> (Some e, a\<lparr>at_spool := db\<rparr>)
           | (Inr sp, db) \<Rightarrow>
               (case buildTargetSource cfg (agent_client cfg) (ag_cache (at_net a)) of (src, cl, cache) \<Rightarrow>
                 (let sk = NewSpoke cfg sp cl (Some src);
                      a1 = a\<lparr>at_spool := db, at_net := (at_net a)\<lparr>ag_cache := cache\<rparr>\<rparr> in
                  if \<not> once then (Some DaemonNotImplemented, a1)
                  else (case Spoke_Run w E pe sk a1 of
                          ((_, Some e), a2) \<Rightarrow> (Some (CycleFailed e), a2)
                        | ((_, None), a2) \<Rightarrow> (None, a2))))))"

definition runHub :: "world \<Rightarrow> (spool_db \<Rightarrow> string option \<times> spool_db) \<Rightarrow> (string \<Rightarrow> string + string) \<Rightarrow>
    environment \<Rightarrow> 'n agent_env \<Rightarrow> probe_env \<Rightarrow> hub_event list \<Rightarrow> 'n agent \<Rightarrow>
    agent_failure option option \<times> 'n agent" where
  "runHub w up rf env E pe es a =
     (case LoadAgent env rf of
        Inl e \<Rightarrow> (Some (Some (LoadAgentConfig e)), a)
      | Inr cfg \<Rightarrow>
          (case openSpool w up env (at_spool a) of
             (Inl e, db) \<Rightarrow> (Some (Some e), a\<lparr>at_spool := db\<rparr>)
           | (Inr sp, db) \<Rightarrow>
               (case buildTargetSource cfg (agent_client cfg) (ag_cache (at_net a)) of (src, cl, cache) \<Rightarrow>
                 (case Hub_Run w E pe
                         (BuildHub cfg sp cl (Some src) (HubProbeInterval cfg) (StartupJitter cfg)) es
                         (a\<lparr>at_spool := db, at_net := (at_net a)\<lparr>ag_cache := cache\<rparr>\<rparr>) of
                    (r, a1) \<Rightarrow> (map_option (map_option HubStopped) r, a1)))))"

definition runListener :: "environment \<Rightarrow> (string \<Rightarrow> string option) \<Rightarrow> accept_event list \<Rightarrow>
    string option option \<times> nat" where
  "runListener env listen es =
     (let v = (case env ''NLM_LISTENER_LISTEN'' of Some v \<Rightarrow> v | None \<Rightarrow> []) in
      ListenAndServe listen (if v = [] then '':8444'' else v) es)"

end
