(* ===== verification/Spool_Delivery.thy ===== *)
theory Spool_Delivery
  imports Spool_Theorems
begin

text \<open>
  What a drain gives its client: a drain behaves the same whether or not its sends are recorded; when
  every send is accepted it clears the rows that are due; and when the sender keeps the law that an
  accepted payload has arrived, every row that leaves the spool has arrived or is counted as dropped.
\<close>

section \<open>Recording the sends changes nothing\<close>

lemma drain_send_logged:
  "drain_send w (logged send) c st db (net, lg) =
     (case drain_send w send c st db net of (r, db', net') \<Rightarrow>
        (r, db', (net', lg @ [(probe_run_id c, fst (fst (send net (probe_run_id c) (payload c))))])))"
proof -
  obtain out e net1 where "send net (probe_run_id c) (payload c) = ((out, e), net1)"
    by (metis prod.exhaust)
  then show ?thesis
    by (simp add: drain_send_def logged_def Let_def split: prod.split option.split)
qed

lemma drain_loop_logged:
  "drain_loop w cfg send now cs st db net = (r, db', net') \<Longrightarrow>
     \<exists>sent. drain_loop w cfg (logged send) now cs st db (net, lg) = (r, db', (net', lg @ sent)) \<and>
       snd ` set sent \<subseteq> {fst (fst (send n run pl)) | n run pl. True}"
proof (induction cs arbitrary: st db net lg)
  case (Cons c cs)
  show ?case
  proof (cases "ctx_err w (sp_calls db) (length cs) = None \<and> row_waiting w cfg now c = Inr False")
    case False
    then show ?thesis
      using Cons.prems Cons.IH [of _ db net lg]
      by (auto split: option.splits sum.splits bool.splits intro!: exI [of _ "[]"])
  next
    case True
    obtain st1 e1 db1 net1 where s1: "drain_send w send c st db net = ((st1, e1), db1, net1)"
      by (cases "drain_send w send c st db net") auto
    let ?x = "(probe_run_id c, fst (fst (send net (probe_run_id c) (payload c))))"
    have l1: "drain_send w (logged send) c st db (net, lg) = ((st1, e1), db1, (net1, lg @ [?x]))"
      by (simp add: drain_send_logged s1)
    show ?thesis
    proof (cases e1)
      case (Some e)
      then show ?thesis using Cons.prems True s1 l1 by (intro exI [of _ "[?x]"]) auto
    next
      case None
      then have "drain_loop w cfg send now cs st1 db1 net1 = (r, db', net')"
        using Cons.prems True s1 by auto
      from Cons.IH [OF this, of "lg @ [?x]"] obtain sent where
        "drain_loop w cfg (logged send) now cs st1 db1 (net1, lg @ [?x]) = (r, db', net', lg @ [?x] @ sent)"
        "snd ` set sent \<subseteq> {fst (fst (send n run pl)) | n run pl. True}" by auto
      then show ?thesis using True l1 None by (intro exI [of _ "?x # sent"]) auto
    qed
  qed
qed auto

section \<open>A controller that accepts\<close>

lemma drain_loop_all_accepted:
  assumes "drain_loop w cfg send now cs st db net = ((st', None), db', net')"
    and "spool_inv db" "from_table cs db" and acc: "\<And>n run pl. fst (fst (send n run pl)) = OutcomeAccepted"
  shows "Accepted st' = Accepted st + int (length (due w cfg now cs))" "Permanent st' = Permanent st"
    "Transient st' = Transient st" "sp_meta db' = sp_meta db"
    "\<And>r. r \<in> set (due w cfg now cs) \<Longrightarrow> sp_key r \<notin> set (sp_keys db')"
proof -
  obtain sent where l: "drain_loop w cfg (logged send) now cs st db (net, []) = ((st', None), db', (net', sent))"
    and o: "snd ` set sent \<subseteq> {OutcomeAccepted}"
    using drain_loop_logged [OF assms(1), of "[]"] acc by auto
  from drain_loop_ok [OF l assms(2,3)] have d: "drained db db' sent"
    "map fst sent = map probe_run_id (due w cfg now cs)"
    "tallied st st' (int (length cs) - int (length sent)) sent" by auto
  have "outcomes OutcomeAccepted sent = int (length sent)" "outcomes OutcomePermanentFail sent = 0"
    "outcomes OutcomeTransientFail sent = 0"
    using o by (induction sent) (auto simp: outcome_defs)
  moreover have len: "length sent = length (due w cfg now cs)" using d(2) by (metis length_map)
  ultimately show "Accepted st' = Accepted st + int (length (due w cfg now cs))"
    "Permanent st' = Permanent st" "Transient st' = Transient st"
    using d(3) by (simp_all add: tallied_def)
  show "sp_meta db' = sp_meta db" using d(1) by (simp add: drained_def)
  fix r assume "r \<in> set (due w cfg now cs)"
  then have "probe_run_id r \<in> fst ` set sent" using d(2) by (metis image_eqI list.set_map)
  then have "(probe_run_id r, OutcomeAccepted) \<in> set sent" using o by force
  moreover have "sp_keys db' = filter (\<lambda>k. (key_run k, OutcomeAccepted) \<notin> set sent) (sp_keys db)"
    using d(1) unfolding drained_def by blast
  ultimately show "sp_key r \<notin> set (sp_keys db')" by (simp only: set_filter) (simp add: sp_key_def)
qed

lemma sheds_keys: "sheds k db db' \<Longrightarrow> set (sp_keys db') \<subseteq> set (sp_keys db)"
  using sheds_subset [of k db db'] by auto

lemma Drain_all_accepted:
  assumes "Drain w s send db net = ((st, None), db', net')" "spool_inv db"
    and acc: "\<And>n run pl. fst (fst (send n run pl)) = OutcomeAccepted"
  shows "\<exists>n. let batch = due w (sp_cfg s) (clk w n) (drain_batch (sp_cfg s) (sp_rows db)) in
     Accepted st = int (length batch) \<and> Permanent st = 0 \<and> Transient st = 0 \<and>
     (\<forall>r \<in> set batch. sp_key r \<notin> set (sp_keys db'))"
  using assms(1)
proof (cases rule: Drain_cases)
  case (retention db1 n st1 db2 d)
  note i1 = spool_inv_sameI [OF retention(1) assms(2)]
  have i2: "spool_inv db2" using i1 retention(2) by (rule spool_inv_drain_loop)
  note a = drain_loop_all_accepted [OF retention(2) i1 from_table_batch [OF assms(2) retention(1)] acc]
  obtain k where "retained d True k db2 db'"
    using enforceRetention_retained [OF retention(3) spool_inv_meta [OF i2]] by auto
  then have "set (sp_keys db') \<subseteq> set (sp_keys db2)" by (intro sheds_keys [of k]) (simp add: retained_def)
  then show ?thesis using a retention(4) by (intro exI [of _ n]) (auto simp: zero_stats_def Let_def)
qed simp_all

section \<open>A sender whose acceptance means arrival\<close>

text \<open>
  The law a client of the spool wants from its sender: in states that satisfy \<open>ok\<close>, sending a sane
  payload keeps \<open>ok\<close>, what has arrived stays, and an accepted payload has arrived.
\<close>

locale delivering_sender =
  fixes send :: "'n sender" and ok :: "'n \<Rightarrow> bool" and sane :: "string \<Rightarrow> string \<Rightarrow> bool"
    and got :: "string \<Rightarrow> string \<Rightarrow> 'n \<Rightarrow> bool"
  assumes ok_send: "ok net \<Longrightarrow> sane run pl \<Longrightarrow> ok (snd (send net run pl))"
    and got_send: "ok net \<Longrightarrow> sane run pl \<Longrightarrow> got r q net \<Longrightarrow> got r q (snd (send net run pl))"
    and accepted_got: "ok net \<Longrightarrow> sane run pl \<Longrightarrow> fst (fst (send net run pl)) = OutcomeAccepted \<Longrightarrow>
      got run pl (snd (send net run pl))"
begin

definition arrives :: "spool_db \<Rightarrow> spool_db \<Rightarrow> 'n \<Rightarrow> bool" where
  "arrives db db' net' \<longleftrightarrow>
     (\<forall>r \<in> set (sp_rows db). sp_key r \<in> set (sp_keys db') \<or> got (probe_run_id r) (payload r) net')"

lemma arrives_keys: "sp_keys db' = sp_keys db \<Longrightarrow> arrives db db' net"
  by (metis arrives_def image_eqI list.set_map)

lemma drain_send_arrives:
  assumes "drain_send w send c st db net = ((st', err), db', net')"
    and "ok net" "sane (probe_run_id c) (payload c)" "spool_inv db" "sp_key c \<in> set (sp_keys db)"
  shows "ok net' \<and> (\<forall>r q. got r q net \<longrightarrow> got r q net') \<and> arrives db db' net'"
proof -
  have net': "net' = snd (send net (probe_run_id c) (payload c))"
    using assms(1) by (cases rule: drain_send_cases) auto
  have "arrives db db' net'"
    using assms(1)
  proof (cases rule: drain_send_cases)
    case fails
    then show ?thesis by (intro arrives_keys) (simp add: same_tables_def)
  next
    case (accepted e)
    then have g: "got (probe_run_id c) (payload c) net'"
      using accepted_got [OF assms(2,3)] by simp
    have "sp_key r \<in> set (sp_keys db') \<or> got (probe_run_id r) (payload r) net'" if r: "r \<in> set (sp_rows db)" for r
    proof (cases "row_id r = row_id c")
      case True
      then have "sp_key r = sp_key c" using spool_inv_id_key [OF assms(4) r assms(5)] by simp
      then show ?thesis using g by (simp add: sp_key_def)
    next
      case False
      then show ?thesis using r accepted(4) by auto
    qed
    then show ?thesis by (simp add: arrives_def)
  next
    case failed
    then show ?thesis by (intro arrives_keys) simp
  qed
  then show ?thesis using net' ok_send [OF assms(2,3)] got_send [OF assms(2,3)] by simp
qed

lemma arrives_trans:
  assumes "arrives a b n1" "arrives b c n2" "\<And>r q. got r q n1 \<Longrightarrow> got r q n2"
  shows "arrives a c n2"
  unfolding arrives_def
proof
  fix r assume "r \<in> set (sp_rows a)"
  then consider "got (probe_run_id r) (payload r) n1" | "sp_key r \<in> set (sp_keys b)"
    using assms(1) unfolding arrives_def by blast
  then show "sp_key r \<in> set (sp_keys c) \<or> got (probe_run_id r) (payload r) n2"
  proof cases
    case 2
    then obtain r' where r': "r' \<in> set (sp_rows b)" "sp_key r' = sp_key r" by auto
    then have "sp_key r' \<in> set (sp_keys c) \<or> got (probe_run_id r') (payload r') n2"
      using assms(2) unfolding arrives_def by blast
    then show ?thesis using r'(2) by (auto simp: sp_key_def)
  qed (use assms(3) in blast)
qed

lemma drain_loop_arrives:
  assumes "drain_loop w cfg send now cs st db net = ((st', err), db', net')"
    and "ok net" "\<And>c. c \<in> set cs \<Longrightarrow> sane (probe_run_id c) (payload c)" "spool_inv db" "from_table cs db"
  shows "ok net' \<and> (\<forall>r q. got r q net \<longrightarrow> got r q net') \<and> arrives db db' net'"
  using assms
proof (induction cs arbitrary: st db net)
  case Nil
  then show ?case using arrives_keys [of db db] by auto
next
  case (Cons c cs)
  note tab = from_table_Cons [OF Cons.prems(5)]
  show ?case
  proof (cases "ctx_err w (sp_calls db) (length cs) = None \<and> row_waiting w cfg now c = Inr False")
    case False
    then consider "net' = net" "db' = db"
      | st1 where "drain_loop w cfg send now cs st1 db net = ((st', err), db', net')"
      using Cons.prems(1) by (auto split: option.splits sum.splits bool.splits)
    then show ?thesis
      using Cons.IH [of _ db net] Cons.prems(2-4) tab(1) arrives_keys [of db db] by cases auto
  next
    case True
    obtain st1 e1 db1 net1 where s1: "drain_send w send c st db net = ((st1, e1), db1, net1)"
      by (cases "drain_send w send c st db net") auto
    have a1: "ok net1 \<and> (\<forall>r q. got r q net \<longrightarrow> got r q net1) \<and> arrives db db1 net1"
      using drain_send_arrives [OF s1 Cons.prems(2) _ Cons.prems(4) tab(2)] Cons.prems(3) by simp
    show ?thesis
    proof (cases e1)
      case (Some e)
      then show ?thesis using Cons.prems(1) True s1 a1 by auto
    next
      case None
      then have l1: "drain_loop w cfg send now cs st1 db1 net1 = ((st', err), db', net')"
        using Cons.prems(1) True s1 by auto
      have a2: "ok net' \<and> (\<forall>r q. got r q net1 \<longrightarrow> got r q net') \<and> arrives db1 db' net'"
        using Cons.IH [OF l1 _ _ spool_inv_drain_send [OF Cons.prems(4) s1] drain_send_from_table [OF Cons.prems(5) s1]]
          a1 Cons.prems(3) by simp
      then show ?thesis using a1 arrives_trans [of db db1 net1 db' net'] by blast
    qed
  qed
qed

lemma Drain_arrives:
  assumes "Drain w s send db net = ((st, err), db', net')" "ok net" "spool_inv db"
    and sane: "\<And>r. r \<in> set (sp_rows db) \<Longrightarrow> sane (probe_run_id r) (payload r)"
  shows "ok net'"
    "int (length (filter (\<lambda>r. sp_key r \<notin> set (sp_keys db') \<and> \<not> got (probe_run_id r) (payload r) net') (sp_rows db)))
       \<le> drops db' - drops db + (if err = None then 0 else 1)"
proof -
  let ?lost = "filter (\<lambda>r. sp_key r \<notin> set (sp_keys db') \<and> \<not> got (probe_run_id r) (payload r) net') (sp_rows db)"
  have batch: "sane (probe_run_id c) (payload c)" if "c \<in> set (drain_batch (sp_cfg s) (sp_rows db))" for c
    using that set_sql_limit [of "DrainRows (sp_cfg s)" "sort_key enqueued_at (sp_rows db)"]
    by (intro sane) (auto simp: drain_batch_def)
  have "ok net' \<and> int (length ?lost) \<le> drops db' - drops db + (if err = None then 0 else 1)"
    using assms(1)
  proof (cases rule: Drain_cases)
    case select_fails
    then have "sp_rows db' = sp_rows db" "drops db' = drops db" by (auto simp: same_tables_def drops_def)
    then show ?thesis using select_fails assms(2) by simp
  next
    case (loop_fails db1 e now)
    note i1 = spool_inv_sameI [OF loop_fails(2) assms(3)]
    from drain_loop_arrives [OF loop_fails(3) assms(2) batch i1 from_table_batch [OF assms(3) loop_fails(2)]]
    have a: "ok net'" "arrives db1 db' net'" by auto
    have "sp_rows db1 = sp_rows db" using loop_fails(2) by (simp add: same_tables_def)
    then have "length ?lost = 0" using a(2) unfolding arrives_def by auto
    moreover have "drops db' = drops db"
      using drain_loop_meta [OF loop_fails(3)] loop_fails(2) by (simp add: drops_def same_tables_def)
    ultimately show ?thesis using a(1) by simp
  next
    case (retention db1 n st1 db2 d)
    note i1 = spool_inv_sameI [OF retention(1) assms(3)]
    have i2: "spool_inv db2" using i1 retention(2) by (rule spool_inv_drain_loop)
    from drain_loop_arrives [OF retention(2) assms(2) batch i1 from_table_batch [OF assms(3) retention(1)]]
    have a: "ok net'" "arrives db1 db2 net'" by auto
    have rows: "sp_rows db1 = sp_rows db" using retention(1) by (simp add: same_tables_def)
    obtain k where k: "retained d (err = None) k db2 db'"
      using enforceRetention_retained [OF retention(3) spool_inv_meta [OF i2]] by auto
    have "length ?lost \<le> k"
      using a(2) rows k assms(3)
      by (intro lost_rows_bound [of db db2]) (auto simp: arrives_def retained_def)
    moreover have "drops db' = drops db + d"
      using k drain_loop_meta [OF retention(2)] retention(1) by (simp add: drops_def same_tables_def retained_def)
    ultimately show ?thesis using a(1) k by (auto simp: retained_def)
  qed
  then show "ok net'" "int (length ?lost) \<le> drops db' - drops db + (if err = None then 0 else 1)" by auto
qed

end

end
