(* ===== verification/Agent_Props.thy ===== *)
theory Agent_Props
  imports Spoke Spool_Delivery Results_Props Config_Props
begin

text \<open>
  The agent's guarantees: observations come in the order of the targets however the probes finish,
  every request an agent builds passes the controller's validation, the cache follows the versions it is
  told, and a drain through the client always ends and empties the due rows once the controller accepts.
\<close>

section \<open>Probes\<close>

lemma fold_update_nth:
  assumes "distinct order" "j < length out"
  shows "fold (\<lambda>i out. out[i := g i]) order out ! j = (if j \<in> set order then g j else out ! j)"
  using assms by (induction order arbitrary: out) (auto simp: nth_list_update)

lemma length_fold_update [simp]: "length (fold (\<lambda>i out. out[i := g i]) order out) = length out"
  by (induction order arbitrary: out) auto

lemma fold_update_map:
  assumes "mset order = mset [0..<k]" "length out = k"
  shows "fold (\<lambda>i out. out[i := g i]) order out = map g [0..<k]"
proof (rule nth_equalityI)
  have "distinct order" "set order = {0..<k}"
    using assms(1) by (metis distinct_upt mset_eq_imp_distinct_iff, metis mset_eq_setD set_upt)
  then show "fold (\<lambda>i out. out[i := g i]) order out ! j = map g [0..<k] ! j"
    if "j < length (fold (\<lambda>i out. out[i := g i]) order out)" for j
    using that assms(2) fold_update_nth [of order j out g] by simp
qed (simp add: assms(2))

lemma RunProbes_in_order:
  assumes "mset (pr_finish pe (length ts)) = mset [0..<length ts]"
  shows "RunProbes w pe n ts timeout =
    map (\<lambda>i. observe_target w pe timeout (n + i) (ts ! i)) [0..<length ts]"
  unfolding RunProbes_def using assms by (intro fold_update_map) simp_all

text \<open>C26: when every probing goroutine has finished, in whatever order, the observations are those of
  probing the targets one after the other: one per target, in the order of the targets.\<close>

theorem RunProbes_equals_sequential:
  assumes "mset (pr_finish pe (length ts)) = mset [0..<length ts]"
  shows "RunProbes w pe n ts timeout = map2 (observe_target w pe timeout) [n..<n + length ts] ts"
  by (rule nth_equalityI) (simp_all add: RunProbes_in_order [OF assms])

definition sample_probes :: probe_env where
  "sample_probes = \<lparr>pr_dial = (\<lambda>i addr _. if addr = ''x'' then Inl ''refused'' else Inr (1000, 3001000)),
     pr_finish = (\<lambda>k. rev [0..<k]), pr_now = (\<lambda>_. 77), pr_uuid = (\<lambda>i. Inr (''run'' @ itoa (int i)))\<rparr>"

definition sample_targets :: "target list" where
  "sample_targets = [\<lparr>tg_ID = ''a'', tg_Address = ''x''\<rparr>, \<lparr>tg_ID = ''b'', tg_Address = ''y''\<rparr>]"

theorem RunProbes_equals_sequential_witness:
  "mset (pr_finish sample_probes 2) = mset [0..<2] \<and> pr_finish sample_probes 2 = [1, 0] \<and>
   RunProbes sample_world sample_probes 0 sample_targets 5 =
     [\<lparr>TargetID = ''a'', LatencyMs = None, ObsError = ''refused''\<rparr>,
      \<lparr>TargetID = ''b'', LatencyMs = Some 3, ObsError = []\<rparr>]"
proof -
  have m: "mset (pr_finish sample_probes (length sample_targets)) = mset [0..<length sample_targets]"
    by (simp add: sample_probes_def)
  show ?thesis
    using m RunProbes_equals_sequential [OF m, of sample_world 0 5]
    by (simp add: sample_probes_def sample_targets_def observe_target_def Probe_def zero_observation_def
        time_sub_def unit_defs upt_rec numeral_2_eq_2)
qed

section \<open>Requests\<close>

text \<open>What the dialer and the rounding of \<open>float64\<close> promise: an error has a text, the monotonic clock does not
  run backwards during a dial, and rounding keeps the sign.\<close>

definition probes_sane :: "world \<Rightarrow> probe_env \<Rightarrow> bool" where
  "probes_sane w pe \<longleftrightarrow> (\<forall>i a d. case pr_dial pe i a d of Inl e \<Rightarrow> e \<noteq> [] | Inr (t0, t1) \<Rightarrow> t0 \<le> t1) \<and>
     (\<forall>x \<ge> 0. round64 w x \<ge> 0)"

lemma observe_target_ok:
  assumes "probes_sane w pe" "tg_ID t \<noteq> []"
  shows "obs_ok (observe_target w pe timeout i t)" "TargetID (observe_target w pe timeout i t) = tg_ID t"
proof -
  have d: "case pr_dial pe i (tg_Address t) timeout of Inl e \<Rightarrow> e \<noteq> [] | Inr (t0, t1) \<Rightarrow> t0 \<le> t1"
    and r: "\<And>x. 0 \<le> x \<Longrightarrow> 0 \<le> round64 w x"
    using assms(1) by (auto simp: probes_sane_def)
  show "TargetID (observe_target w pe timeout i t) = tg_ID t"
    by (simp add: observe_target_def split: sum.split)
  show "obs_ok (observe_target w pe timeout i t)"
    using d assms(2)
    by (auto simp: observe_target_def Probe_def obs_ok_def zero_observation_def time_sub_def unit_defs
        split: sum.splits intro!: r divide_nonneg_nonneg)
qed

text \<open>C27: a request an agent builds from its observations, whichever way the probes end, passes the
  controller's validation for the agent's node, provided the targets are named and different, and the run
  has an id and a time.\<close>

theorem agent_request_valid:
  assumes "probes_sane w pe" "mset (pr_finish pe (length ts)) = mset [0..<length ts]"
    and "ts \<noteq> []" "list_all (\<lambda>t. tg_ID t \<noteq> []) ts" "distinct (map tg_ID ts)"
    and "NodeID cfg \<noteq> []" "run \<noteq> []" "obsAt \<noteq> 0"
  shows "validateResultsRequest (NodeID cfg)
    (build_request cfg run obsAt (RunProbes w pe n ts (ProbeTimeout cfg)) prev) = None"
proof -
  let ?rs = "RunProbes w pe n ts (ProbeTimeout cfg)"
  let ?ob = "\<lambda>i. observe_target w pe (ProbeTimeout cfg) (n + i) (ts ! i)"
  have rs: "?rs = map ?ob [0..<length ts]" using RunProbes_in_order [OF assms(2)] .
  have ids: "tg_ID (ts ! i) \<noteq> []" if "i < length ts" for i
    using assms(4) that by (simp add: list_all_length)
  have "map TargetID ?rs = map tg_ID ts"
    unfolding rs using ids by (intro nth_equalityI) (simp_all add: observe_target_ok(2) [OF assms(1)])
  moreover have "obs_ok x" if "x \<in> set ?rs" for x
    using that ids unfolding rs by (auto intro: observe_target_ok(1) [OF assms(1)])
  moreover have "?rs \<noteq> []" using assms(3) by (simp add: rs)
  ultimately have "validate_obs 0 [] ?rs = None"
    using assms(5) by (fastforce simp: validate_obs_None obs_ok_def)
  then show ?thesis
    using assms(6-8) \<open>?rs \<noteq> []\<close>
    by (simp add: validateResultsRequest_def build_request_def time_is_zero_def)
qed

definition sample_cfg :: agent_config where
  "sample_cfg = \<lparr>NodeID = ''n1'', NodeSecret = ''s'', ControllerURL = ''http://c/'', Targets = sample_targets,
     ProbeTimeout = 5, HTTPTimeout = 10, StartupJitter = 0, HubProbeInterval = 60, HubRefreshInterval = 300\<rparr>"

lemma sample_probes_sane: "probes_sane sample_world sample_probes"
  by (simp add: probes_sane_def sample_probes_def)

theorem agent_request_valid_witness:
  "probes_sane sample_world sample_probes \<and>
   validateResultsRequest ''n1'' (build_request sample_cfg ''run0'' 77
     (RunProbes sample_world sample_probes 0 sample_targets 5) zero_snapshot) = None"
  using agent_request_valid [OF sample_probes_sane, of sample_targets sample_cfg "''run0''" 77 0 zero_snapshot]
    sample_probes_sane
  by (simp add: sample_targets_def sample_cfg_def) (simp add: sample_probes_def)

section \<open>The cache\<close>

lemma cache_store_fresh:
  assumes "t \<noteq> 0" "tc_maxAge c \<le> 0 \<or> time_sub now t < tc_maxAge c"
  shows "\<not> needs_refresh now (cache_store ts v t c)"
  using assms by (auto simp: needs_refresh_def cache_store_def time_is_zero_def)

text \<open>C20: after a new version has been noticed, the next \<open>Targets\<close> asks the controller. If the answer
  is good, the caller gets exactly its list and version, and as long as no newer version is noticed and
  the list is younger than the maximum age the cache needs no refresh; if it is not, the caller gets the old
  list with the error, and the cache keeps asking on every later call.\<close>

theorem cache_follows_version:
  assumes "0 < v" "v \<noteq> tc_knownVersion (ag_cache a)"
    and "cache_Targets E (a\<lparr>ag_cache := NoticeVersion v (ag_cache a)\<rparr>) = (r, a')"
  shows "case fetch E (NoticeVersion v (ag_cache a)) (ag_net a) of
      (Inr (ts, u), net) \<Rightarrow>
        r = (ts, u, None) \<and> ag_net a' = net \<and> tc_targets (ag_cache a') = ts \<and>
        tc_knownVersion (ag_cache a') = u \<and>
        (\<forall>now. tc_lastFetched (ag_cache a') \<noteq> 0 \<and>
           (tc_maxAge (ag_cache a) \<le> 0 \<or> time_sub now (tc_lastFetched (ag_cache a')) < tc_maxAge (ag_cache a)) \<longrightarrow>
           \<not> needs_refresh now (ag_cache a'))
    | (Inl e, net) \<Rightarrow>
        r = (tc_targets (ag_cache a), tc_knownVersion (ag_cache a), Some e) \<and> ag_net a' = net \<and>
        tc_targets (ag_cache a') = tc_targets (ag_cache a) \<and> (\<forall>now. needs_refresh now (ag_cache a'))"
proof -
  let ?c = "NoticeVersion v (ag_cache a)"
  have n: "needs_refresh now ?c" for now using assms(1,2) by (simp add: needs_refresh_def NoticeVersion_def)
  have sel: "tc_targets ?c = tc_targets (ag_cache a)" "tc_knownVersion ?c = tc_knownVersion (ag_cache a)"
    "tc_maxAge ?c = tc_maxAge (ag_cache a)" by (simp_all add: NoticeVersion_def)
  obtain res net where f: "fetch E ?c (ag_net a) = (res, net)" by fastforce
  show ?thesis
  proof (cases res)
    case (Inl e)
    then show ?thesis using assms(3) f n sel by (auto simp: cache_Targets_def)
  next
    case (Inr x)
    obtain ts u where "x = (ts, u)" by fastforce
    then have ac: "r = (ts, u, None)" "ag_net a' = net"
      "ag_cache a' = cache_store ts u (env_now E (Suc (ag_calls a))) ?c"
      using assms(3) f n Inr by (auto simp: cache_Targets_def)
    have "\<not> needs_refresh now (ag_cache a')"
      if "tc_lastFetched (ag_cache a') \<noteq> 0" "tc_maxAge (ag_cache a) \<le> 0 \<or>
        time_sub now (tc_lastFetched (ag_cache a')) < tc_maxAge (ag_cache a)" for now
      using that unfolding ac(3) by (intro cache_store_fresh) (simp_all add: cache_store_def sel)
    then show ?thesis using ac f Inr \<open>x = (ts, u)\<close> by (simp add: cache_store_def)
  qed
qed

text \<open>A controller that answers every request with the same reply.\<close>

definition fixed_env :: "http_reply \<Rightarrow> nat agent_env" where
  "fixed_env rep = \<lparr>env_url_err = (\<lambda>_. None), env_do = (\<lambda>_ _ n. (Inr rep, Suc n)), env_now = (\<lambda>_. 9000),
     env_codec = sample_codec\<lparr>json_version := (\<lambda>_. Some 7), json_targets := (\<lambda>_. Inr ([\<lparr>te_ID = ''h'', te_Address = ''x:1''\<rparr>], 7))\<rparr>\<rparr>"

definition reply_200 :: http_reply where
  "reply_200 = \<lparr>hr_StatusCode = 200, hr_Status = ''200 OK'', hr_body = ''{}''\<rparr>"

definition sample_net :: "nat agent_net" where
  "sample_net = \<lparr>ag_cache = NewTargetCache ''http://c/'' ''n1'' ''s'' 10 300, ag_net = 0, ag_calls = 0\<rparr>"

theorem cache_follows_version_witness:
  "\<exists>a'. cache_Targets (fixed_env reply_200) (sample_net\<lparr>ag_cache := NoticeVersion 7 (ag_cache sample_net)\<rparr>) =
     (([\<lparr>tg_ID = ''h'', tg_Address = ''x:1''\<rparr>], 7, None), a') \<and> tc_knownVersion (ag_cache a') = 7"
proof -
  let ?a = "sample_net\<lparr>ag_cache := NoticeVersion 7 (ag_cache sample_net)\<rparr>"
  obtain r a' where r: "cache_Targets (fixed_env reply_200) ?a = (r, a')" by fastforce
  have v: "(0 :: int) < 7" "7 \<noteq> tc_knownVersion (ag_cache sample_net)"
    by (simp_all add: sample_net_def NewTargetCache_def)
  have "fetch (fixed_env reply_200) (NoticeVersion 7 (ag_cache sample_net)) (ag_net sample_net) =
    (Inr ([\<lparr>tg_ID = ''h'', tg_Address = ''x:1''\<rparr>], 7), Suc 0)"
    by (simp add: fetch_def fixed_env_def reply_200_def sample_net_def)
  then show ?thesis using cache_follows_version [OF v r] r by auto
qed

section \<open>The sender\<close>

interpretation client: outcome_sender "Send E c" for E c
  by unfold_locales (simp add: Send_def Let_def outcome_defs split: option.split prod.split sum.split)

text \<open>Whether the answer to every request of the client is one it takes for acceptance.\<close>

definition always_accepted :: "'n agent_env \<Rightarrow> client \<Rightarrow> bool" where
  "always_accepted E c \<longleftrightarrow> env_url_err E (cl_base c @ ''/api/v1/results'') = None \<and>
     (\<forall>hq net. case fst (env_do E (cl_timeout c) hq net) of
        Inl _ \<Rightarrow> False
      | Inr resp \<Rightarrow> 200 \<le> hr_StatusCode resp \<and> hr_StatusCode resp < 300 \<or> hr_StatusCode resp = 409)"

lemma Send_accepted:
  assumes "always_accepted E c"
  shows "fst (fst (Send E c a run pl)) = OutcomeAccepted"
proof -
  obtain res net1 where d: "env_do E (cl_timeout c) (results_http c pl) (ag_net a) = (res, net1)" by fastforce
  from assms have "case fst (env_do E (cl_timeout c) (results_http c pl) (ag_net a)) of Inl _ \<Rightarrow> False
      | Inr resp \<Rightarrow> 200 \<le> hr_StatusCode resp \<and> hr_StatusCode resp < 300 \<or> hr_StatusCode resp = 409"
    unfolding always_accepted_def by blast
  then show ?thesis
    using assms d by (cases res) (auto simp: Send_def always_accepted_def Let_def)
qed

text \<open>C13: once the controller answers every request with a 2xx status or 409, neither the database
  nor the disk fails and the timestamps in the table are ones that \<open>parseSQLiteTime\<close> reads, a drain returns without error, delivers every row that is due and removes all of them
  from the spool: an outage of any length is caught up batch by batch.\<close>

theorem drain_catches_up:
  assumes "benign w db" "spool_inv db" "always_accepted E c"
  shows "\<exists>st db' net' n. let batch = due w (sp_cfg s) (clk w n) (drain_batch (sp_cfg s) (sp_rows db)) in
     Drain w s (Send E c) db net = ((st, None), db', net') \<and>
     Accepted st = int (length batch) \<and> Permanent st = 0 \<and> Transient st = 0 \<and>
     (\<forall>r \<in> set batch. sp_key r \<notin> set (sp_keys db'))"
proof -
  obtain st db' net' where d: "Drain w s (Send E c) db net = ((st, None), db', net')"
    using client.Drain_benign [OF assms(1)] by blast
  from Drain_all_accepted [OF d assms(2) Send_accepted [OF assms(3)]] show ?thesis
    using d unfolding Let_def by blast
qed

theorem drain_catches_up_witness:
  "benign sample_world sample_db \<and> spool_inv sample_db \<and>
   (\<exists>st db' net'. Drain sample_world sample_spool (Send (fixed_env reply_200) (agent_client sample_cfg)) sample_db
      sample_net = ((st, None), db', net') \<and> Permanent st = 0 \<and> Transient st = 0)"
proof -
  have "always_accepted (fixed_env reply_200) (agent_client sample_cfg)"
    by (simp add: always_accepted_def fixed_env_def reply_200_def)
  from drain_catches_up [OF sample_benign sample_inv this, of sample_spool sample_net]
  show ?thesis using sample_benign sample_inv unfolding Let_def by blast
qed

end
