(* ===== verification/Routes_Props.thy ===== *)
theory Routes_Props
  imports Routes Ui_Props Ws_Props Agent_Props
begin

text \<open>
  What holds of the controller across all of its routes: whatever requests it serves, in whatever
  order and with whatever database faults, the tables stay consistent, every hub keeps an address and no
  stored result is ever lost or changed.
\<close>

section \<open>Keeping the tables\<close>

definition well :: "ctl_db \<Rightarrow> bool" where
  "well db \<longleftrightarrow> ctl_inv db \<and> hubs_addressed (registry db)"

lemma sample_ctl_well: "well sample_ctl"
  by (simp add: well_def ctl_inv_def sample_ctl_def ctl_init_def hubs_addressed_def registry_def find_node_def
      fresh_node_row_def set_node_def sample_hub_def node_of_def ran_def)

text \<open>\<open>keeps S db db'\<close>: consistency is preserved, and the only change to the results is that results of the
  sources in \<open>S\<close> were appended.\<close>

definition keeps :: "string set \<Rightarrow> ctl_db \<Rightarrow> ctl_db \<Rightarrow> bool" where
  "keeps S db db' \<longleftrightarrow> (well db \<longrightarrow> well db') \<and>
     (\<exists>rows. cd_results db' = cd_results db @ rows \<and> rr_source ` set rows \<subseteq> S)"

text \<open>The node a request claims to come from.\<close>

abbreviation sender :: "request \<Rightarrow> string" where
  "sender r \<equiv> rq_header r ''X-NLM-Node-Id''"

named_theorems ctl_keeps \<open>operations and handlers keep the controller's tables\<close>

lemma keeps_refl [simp]: "keeps S db db"
  by (simp add: keeps_def)

lemma keeps_trans [trans]: "keeps S a b \<Longrightarrow> keeps S b c \<Longrightarrow> keeps S a c"
  unfolding keeps_def by (metis append.assoc image_Un le_sup_iff set_append)

lemma keeps_mono: "keeps S a b \<Longrightarrow> S \<subseteq> T \<Longrightarrow> keeps T a b"
  unfolding keeps_def by blast

lemma keeps_prefix: "keeps S db db' \<Longrightarrow> prefix (cd_results db) (cd_results db')"
  unfolding keeps_def by (metis prefixI)

lemma keeps_results: "well db \<longrightarrow> well db' \<Longrightarrow> cd_results db' = cd_results db \<Longrightarrow> keeps S db db'"
  by (simp add: keeps_def)

lemma keeps_same: "same_ctl db db' \<Longrightarrow> keeps S db db'"
  using ctl_inv_same [of db db'] registry_same [of db db'] by (auto simp: keeps_def well_def same_ctl_def)

lemma node_Upsert_results: "node_Upsert w n db = (r, db') \<Longrightarrow> cd_results db' = cd_results db"
proof (elim node_Upsert_cases)
  fix db1 db2 b
  assume "same_ctl db db1" "upsert_stmt w n db1 = (None, db2)" "bumpTargetsVersion w db2 = (b, db')"
  then show "cd_results db' = cd_results db"
    using upsert_stmt_effect(1-3) [of w n db1 None db2] bumpTargetsVersion_effect [of w db2 b db']
    by (simp add: same_ctl_def)
next
  fix db1 assume "same_ctl db db1" "upsert_stmt w n db1 = (None, db')"
  then show "cd_results db' = cd_results db"
    using upsert_stmt_effect(1-3) [of w n db1 None db'] by (simp add: same_ctl_def)
qed simp

lemma keeps_node_Upsert [ctl_keeps]:
  assumes "node_Upsert w n db = (r, db')"
    and "validateAdminNodeFields i (nd_Role n) (nd_Address n) = None \<or>
         (\<exists>m. registry db (nd_ID n) = Some m \<and> nd_Role n = nd_Role m \<and> nd_Address n = nd_Address m)"
  shows "keeps S db db'"
proof -
  have "hubs_addressed ((registry db)(nd_ID n \<mapsto> n))" if h: "hubs_addressed (registry db)"
    using assms(2)
  proof
    assume "validateAdminNodeFields i (nd_Role n) (nd_Address n) = None"
    with h show ?thesis by (rule hubs_addressed_upd)
  next
    assume "\<exists>m. registry db (nd_ID n) = Some m \<and> nd_Role n = nd_Role m \<and> nd_Address n = nd_Address m"
    then obtain m where "m \<in> ran (registry db)" "nd_Role n = nd_Role m" "nd_Address n = nd_Address m"
      by (auto simp: ran_def)
    then show ?thesis using h by (auto simp: hubs_addressed_def ran_def split: if_splits)
  qed
  then show ?thesis
    using ctl_inv_node_Upsert [OF _ assms(1)] node_Upsert_registry [OF assms(1)] node_Upsert_results [OF assms(1)]
    by (auto simp: keeps_def well_def split: if_splits)
qed

lemma keeps_node_Delete [ctl_keeps]:
  assumes "node_Delete w i db = (r, db')"
  shows "keeps S db db'"
proof -
  have "(registry db' = registry db \<or> registry db' = (registry db)(i := None)) \<and> cd_results db' = cd_results db"
    using assms
  proof (cases rule: node_Delete_cases)
    case kept
    then show ?thesis using registry_nodes by blast
  next
    case uncertain
    then show ?thesis using registry_filter by blast
  next
    case (bumps db2 b p)
    then show ?thesis
      using registry_filter [OF bumps(6)] registry_nodes [OF bumpTargetsVersion_effect(1) [OF bumps(10)]]
        bumpTargetsVersion_effect [OF bumps(10)] by simp
  next
    case (quiet p)
    then show ?thesis using registry_filter [OF quiet(5)] by simp
  qed
  then show ?thesis
    using ctl_inv_node_Delete [OF _ assms] hubs_addressed_del by (auto simp: keeps_def well_def)
qed

lemma same_ctl_results: "same_ctl db db' \<Longrightarrow> cd_results db' = cd_results db"
  by (simp add: same_ctl_def)

lemma stored_sources:
  assumes "stored req rows"
  shows "rr_source ` set rows \<subseteq> {SourceID req}"
proof -
  have "map rr_source rows = map (\<lambda>_. SourceID req) (Results req)"
    using arg_cong [OF assms [unfolded stored_def], of "map fst"] by (simp add: comp_def)
  then have "set (map rr_source rows) \<subseteq> {SourceID req}" by auto
  then show ?thesis by simp
qed

lemma persistResults_grows:
  assumes "persistResults w req db = (q, db')"
  shows "registry db' = registry db"
    "\<exists>rows. cd_results db' = cd_results db @ rows \<and> rr_source ` set rows \<subseteq> {SourceID req}"
proof -
  show "registry db' = registry db"
    using assms
    by (cases rule: persistResults_cases) (simp_all add: registry_same appends_def registry_nodes [of db' db])
  show "\<exists>rows. cd_results db' = cd_results db @ rows \<and> rr_source ` set rows \<subseteq> {SourceID req}"
    using assms
  proof (cases rule: persistResults_cases)
    case (landed e rows)
    then show ?thesis using stored_sources by (auto simp: appends_def)
  next
    case (created rows)
    then show ?thesis using stored_sources by (auto simp: appends_def)
  qed (simp_all add: same_ctl_results)
qed

lemma keeps_handleResults [ctl_keeps]:
  assumes "handleResults w c (Some nd) r s = (resp, s')"
  shows "keeps {nd_ID nd} (sv_db s) (sv_db s')"
proof -
  have "registry (sv_db s') = registry (sv_db s) \<and>
      (\<exists>rows. cd_results (sv_db s') = cd_results (sv_db s) @ rows \<and> rr_source ` set rows \<subseteq> {nd_ID nd})"
    using assms
  proof (cases rule: handleResults_cases)
    case refused
    then show ?thesis by (simp add: registry_same same_ctl_results)
  next
    case (failed req x db0 db1)
    have "SourceID req = nd_ID nd" using failed(3) by (simp add: validateResultsRequest_def split: if_splits)
    then show ?thesis
      using persistResults_grows [OF failed(5)] registry_same [OF failed(4)] registry_same [OF failed(6)]
        same_ctl_results [OF failed(4)] same_ctl_results [OF failed(6)] by simp
  next
    case (ingested req st s1 db0 db1 t)
    have "SourceID req = nd_ID nd" using ingested(2) by (simp add: validateResultsRequest_def split: if_splits)
    then show ?thesis
      using persistResults_grows [OF ingested(4)] registry_same [OF ingested(3)] same_ctl_results [OF ingested(3)]
        finish_results_effect(2,5) [OF ingested(6)] ingested(5) by simp
  qed
  then show ?thesis using ctl_inv_handleResults [OF _ assms] by (simp add: keeps_def well_def)
qed

section \<open>Keeping by handlers\<close>

definition handler_keeps :: "handler \<Rightarrow> bool" where
  "handler_keeps h \<longleftrightarrow> (\<forall>r s. keeps {sender r} (sv_db s) (sv_db (snd (h r s))))"

lemma handler_keepsI: "(\<And>r s resp s'. h r s = (resp, s') \<Longrightarrow> keeps {sender r} (sv_db s) (sv_db s')) \<Longrightarrow> handler_keeps h"
  unfolding handler_keeps_def by (metis prod.collapse)

lemma handler_keepsD: "handler_keeps h \<Longrightarrow> h r s = (resp, s') \<Longrightarrow> keeps {sender r} (sv_db s) (sv_db s')"
  unfolding handler_keeps_def by (metis snd_conv)

lemma keeps_calls [simp]: "keeps S db (db\<lparr>cd_calls := n\<rparr>)"
  by (rule keeps_same) simp

text \<open>A handler behind \<open>bearerAuth\<close> runs with the node the request names.\<close>

definition node_keeps :: "node_handler \<Rightarrow> bool" where
  "node_keeps nxt \<longleftrightarrow> (\<forall>nd r s. keeps {nd_ID nd} (sv_db s) (sv_db (snd (nxt (Some nd) r s))))"

lemma node_keepsI:
  "(\<And>nd r s resp s'. nxt (Some nd) r s = (resp, s') \<Longrightarrow> keeps {nd_ID nd} (sv_db s) (sv_db s')) \<Longrightarrow> node_keeps nxt"
  unfolding node_keeps_def by (metis prod.collapse)

lemma bearerAuth_keeps:
  assumes "node_keeps nxt"
  shows "handler_keeps (bearerAuth w nxt)"
proof (rule handler_keepsI)
  fix r s resp s' assume "bearerAuth w nxt r s = (resp, s')"
  then show "keeps {sender r} (sv_db s) (sv_db s')"
  proof (cases rule: bearerAuth_cases)
    case (passed nd n)
    have "keeps {sender r} (sv_db s) (sv_db s\<lparr>cd_calls := n\<rparr>)" by simp
    moreover have "keeps {nd_ID nd} (sv_db (s\<lparr>sv_db := sv_db s\<lparr>cd_calls := n\<rparr>\<rparr>)) (sv_db s')"
      using assms passed(3) unfolding node_keeps_def by (metis snd_conv)
    ultimately show ?thesis
      using passed(2) keeps_trans [of "{sender r}" "sv_db s" "sv_db s\<lparr>cd_calls := n\<rparr>" "sv_db s'"] by simp
  qed auto
qed

lemma adminAuth_keeps: "handler_keeps h \<Longrightarrow> handler_keeps (adminAuth h)"
  by (simp add: handler_keeps_def adminAuth_def Let_def)

lemma requireSession_keeps: "handler_keeps h \<Longrightarrow> handler_keeps (requireSession h)"
  by (simp add: handler_keeps_def requireSession_def split: option.split)

lemma on_db_keeps: "on_db f s = (r, s') \<Longrightarrow> same_ctl (sv_db s) (snd (f (sv_db s))) \<Longrightarrow> keeps S (sv_db s) (sv_db s')"
  by (auto simp: on_db_def split: prod.splits intro: keeps_same)

lemma node_reads:
  "same_ctl db (snd (node_Get w i db))" "same_ctl db (snd (node_List w db))"
  "same_ctl db (snd (HubTargetsFor w i db))"
  using node_Get_frame node_List_frame HubTargetsFor_frame by (metis prod.collapse)+

lemma targets_keeps: "node_keeps (handleTargets w)"
proof (rule node_keepsI)
  fix nd r s resp s' assume h: "handleTargets w (Some nd) r s = (resp, s')"
  obtain x s1 where x: "on_db (HubTargetsFor w (nd_ID nd)) s = (x, s1)" by fastforce
  have "s' = s1" using h x by (auto simp: handleTargets_def split: sum.splits)
  then show "keeps {nd_ID nd} (sv_db s) (sv_db s')" using on_db_keeps [OF x node_reads(3)] by simp
qed

lemma ticket_keeps: "node_keeps (handleWSTicket now rnd)"
  by (auto simp: node_keeps_def handleWSTicket_def split: option.split prod.split sum.split)

lemma ws_keeps: "handler_keeps (\<lambda>r s. fst (handleWS now up r s))"
proof (rule handler_keepsI)
  fix r s resp s' assume "fst (handleWS now up r s) = (resp, s')"
  then have "sv_db s' = sv_db s"
    by (auto simp: handleWS_def wsReject_def wsRejectAndCount_def Let_def split: prod.splits sum.splits if_splits)
  then show "keeps {sender r} (sv_db s) (sv_db s')" by simp
qed

lemma list_keeps: "handler_keeps (handleAdminListNodes w)"
proof (rule handler_keepsI)
  fix r s resp s' assume h: "handleAdminListNodes w r s = (resp, s')"
  obtain x s1 where x: "on_db (node_List w) s = (x, s1)" by fastforce
  have "s' = s1" using h x by (auto simp: handleAdminListNodes_def split: option.splits prod.splits)
  then show "keeps {sender r} (sv_db s) (sv_db s')" using on_db_keeps [OF x node_reads(2)] by simp
qed

text \<open>A handler that stores a checked node after reading the registry.\<close>

lemma keeps_get: "node_Get w i db = (g, db1) \<Longrightarrow> keeps S db db1"
  by (rule keeps_same) (rule node_Get_frame)

lemma create_keeps: "handler_keeps (handleAdminCreateNode w c rnd)"
proof (rule handler_keepsI)
  fix r s resp s' assume h: "handleAdminCreateNode w c rnd r s = (resp, s')"
  show "keeps {sender r} (sv_db s) (sv_db s')"
  proof (cases "\<exists>req. json_create c (rq_body r) = Inr req \<and>
      validateAdminNodeFields (ac_ID req) (ac_Role req) (ac_Address req) = None")
    case False
    then show ?thesis using h by (auto simp: handleAdminCreateNode_def split: sum.splits option.splits)
  next
    case True
    then obtain req where req: "json_create c (rq_body r) = Inr req"
      "validateAdminNodeFields (ac_ID req) (ac_Role req) (ac_Address req) = None" by blast
    obtain g db1 where g: "node_Get w (ac_ID req) (sv_db s) = (g, db1)" by fastforce
    let ?sec = "if ac_Secret req = [] then mintSecret rnd else Inr (ac_Secret req)"
    show ?thesis
    proof (cases "g = Inl ErrUnknownNode \<and> (\<exists>secret. ?sec = Inr secret)")
      case False
      then have "sv_db s' = db1"
        using h req g
        by (cases g; cases ?sec) (auto simp: handleAdminCreateNode_def on_db_def split: if_splits)
      then show ?thesis using keeps_get [OF g] by simp
    next
      case True
      then obtain secret where sr: "?sec = Inr secret" "g = Inl ErrUnknownNode" by blast
      let ?n = "\<lparr>nd_ID = ac_ID req, nd_Role = ac_Role req, nd_SecretHash = HashSecret secret,
                  nd_Address = ac_Address req, nd_Disabled = ac_Disabled req\<rparr>"
      obtain u db2 where u: "node_Upsert w ?n db1 = (u, db2)" by fastforce
      have "sv_db s' = db2"
        using h req g sr u by (auto simp: handleAdminCreateNode_def on_db_def split: option.splits if_splits)
      moreover have "keeps {sender r} db1 db2" using keeps_node_Upsert [OF u] req(2) by auto
      ultimately show ?thesis using keeps_trans [OF keeps_get [OF g]] by simp
    qed
  qed
qed

lemma patch_keeps: "handler_keeps (handleAdminPatchNode w c)"
proof (rule handler_keepsI)
  fix r s resp s' assume h: "handleAdminPatchNode w c r s = (resp, s')"
  obtain g db1 where g: "node_Get w (rq_path_id r) (sv_db s) = (g, db1)" by fastforce
  have "s' = s \<or> sv_db s' = db1 \<or> (\<exists>n u. node_Upsert w n db1 = (u, sv_db s') \<and>
      validateAdminNodeFields (nd_ID n) (nd_Role n) (nd_Address n) = None)"
    using h g
    by (fastforce simp: handleAdminPatchNode_def on_db_def Let_def
        split: sum.splits option.splits if_splits prod.splits ctl_error.splits)
  then consider "s' = s" | "sv_db s' = db1" | n u where "node_Upsert w n db1 = (u, sv_db s')"
      "validateAdminNodeFields (nd_ID n) (nd_Role n) (nd_Address n) = None" by blast
  then show "keeps {sender r} (sv_db s) (sv_db s')"
  proof cases
    case 3
    then have "keeps {sender r} db1 (sv_db s')" using keeps_node_Upsert by blast
    with keeps_get [OF g] show ?thesis by (rule keeps_trans)
  qed (use keeps_get [OF g] in auto)
qed

lemma delete_keeps: "handler_keeps (handleAdminDeleteNode w)"
proof (rule handler_keepsI)
  fix r s resp s' assume h: "handleAdminDeleteNode w r s = (resp, s')"
  obtain e db1 where d: "node_Delete w (rq_path_id r) (sv_db s) = (e, db1)" by fastforce
  have "s' = s \<or> sv_db s' = db1"
    using h d by (auto simp: handleAdminDeleteNode_def on_db_def Let_def split: option.splits if_splits)
  then show "keeps {sender r} (sv_db s) (sv_db s')" using keeps_node_Delete [OF d] by auto
qed

lemma ui_delete_keeps: "handler_keeps (handleFragDeleteNode w)"
proof (rule handler_keepsI)
  fix r s resp s' assume h: "handleFragDeleteNode w r s = (resp, s')"
  obtain e db1 where d: "node_Delete w (rq_path_id r) (sv_db s) = (e, db1)" by fastforce
  have "sv_db s' = db1" using h d by (auto simp: handleFragDeleteNode_def on_db_def split: option.splits)
  then show "keeps {sender r} (sv_db s) (sv_db s')" using keeps_node_Delete [OF d] by simp
qed

lemma keeps_infos: "listNodeInfos w s = (x, s') \<Longrightarrow> keeps S (sv_db s) (sv_db s')"
  by (rule on_db_keeps [of "node_List w" s "fst (on_db (node_List w) s)", OF _ node_reads(2)])
    (auto simp: listNodeInfos_def split: prod.splits option.splits)

lemma ui_create_keeps: "handler_keeps (handleFragCreateNode w rnd)"
proof (rule handler_keepsI)
  fix r s resp s' assume h: "handleFragCreateNode w rnd r s = (resp, s')"
  let ?i = "trim_space (rq_form r ''id'')" and ?ro = "trim_space (rq_form r ''role'')"
    and ?ad = "trim_space (rq_form r ''address'')" and ?se = "trim_space (rq_form r ''secret'')"
  let ?sec = "if ?se = [] then mintSecret rnd else Inr ?se"
  show "keeps {sender r} (sv_db s) (sv_db s')"
  proof (cases "validateAdminNodeFields ?i ?ro ?ad")
    case (Some e)
    then show ?thesis using h by (auto simp: handleFragCreateNode_def Let_def)
  next
    case v: None
    show ?thesis
    proof (cases ?sec)
      case (Inl e)
      then show ?thesis using h v by (auto simp: handleFragCreateNode_def Let_def)
    next
      case (Inr secret)
      let ?n = "\<lparr>nd_ID = ?i, nd_Role = ?ro, nd_SecretHash = HashSecret secret, nd_Address = ?ad, nd_Disabled = False\<rparr>"
      obtain u db1 where u: "node_Upsert w ?n (sv_db s) = (u, db1)" by fastforce
      have k: "keeps {sender r} (sv_db s) db1" using keeps_node_Upsert [OF u, of ?i] v by simp
      obtain x s2 where l: "listNodeInfos w (s\<lparr>sv_db := db1\<rparr>) = (x, s2)" by fastforce
      have "keeps {sender r} db1 (sv_db s2)" using keeps_infos [OF l] by simp
      moreover have "sv_db s' = db1 \<or> s' = s2"
        using h v Inr u l
        by (auto simp: handleFragCreateNode_def Let_def on_db_def split: option.splits sum.splits if_splits)
      ultimately show ?thesis using k keeps_trans by auto
    qed
  qed
qed

lemma disable_keeps: "handler_keeps (patchDisabled w b)"
proof (rule handler_keepsI)
  fix r s resp s' assume h: "patchDisabled w b r s = (resp, s')"
  obtain g db1 where g: "node_Get w (rq_path_id r) (sv_db s) = (g, db1)" by fastforce
  show "keeps {sender r} (sv_db s) (sv_db s')"
  proof (cases g)
    case (Inl e)
    then show ?thesis using h g keeps_get [OF g] by (auto simp: patchDisabled_def on_db_def)
  next
    case (Inr nd)
    have "registry (sv_db s) (rq_path_id r) = Some nd" using reg.get_found g Inr by blast
    then have "registry db1 (nd_ID nd) = Some nd"
      using reg.get_view [OF g] find_node_Some by (auto simp: registry_def node_of_def)
    then have "keeps {sender r} db1 (snd (node_Upsert w (nd\<lparr>nd_Disabled := b\<rparr>) db1))"
      by (intro keeps_node_Upsert [of w "nd\<lparr>nd_Disabled := b\<rparr>" db1 "fst (node_Upsert w (nd\<lparr>nd_Disabled := b\<rparr>) db1)"]) auto
    moreover have "sv_db s' = snd (node_Upsert w (nd\<lparr>nd_Disabled := b\<rparr>) db1)"
      using h g Inr by (auto simp: patchDisabled_def on_db_def Let_def split: prod.splits option.splits)
    ultimately show ?thesis using keeps_trans [OF keeps_get [OF g]] by simp
  qed
qed

lemma query_entries_frame: "same_ctl db (snd (query_entries w md db))"
  by (auto simp: query_entries_def cd_call_def same_ctl_def split: option.split prod.split)

lemma keeps_matrix:
  assumes "queryMatrix w md s = (x, s')"
  shows "keeps S (sv_db s) (sv_db s')"
proof -
  obtain ns e s1 where l: "on_db (node_List w) s = ((ns, e), s1)" by (metis prod.exhaust)
  obtain y s2 where q: "on_db (query_entries w md) s1 = (y, s2)" by fastforce
  have "s' = s1 \<or> s' = s2"
    using assms l q by (cases y) (auto simp: queryMatrix_def Let_def split: option.splits if_splits)
  moreover have "keeps S (sv_db s) (sv_db s1)" by (rule on_db_keeps [OF l node_reads(2)])
  moreover have "keeps S (sv_db s1) (sv_db s2)" by (rule on_db_keeps [OF q query_entries_frame])
  ultimately show ?thesis using keeps_trans by blast
qed

lemma page_keeps: "handler_keeps (matrix_page w md pg)" "handler_keeps (handleUINodes w)"
  unfolding handler_keeps_def
  using keeps_matrix [of w md] keeps_infos [of w]
  by (auto simp: matrix_page_def handleUINodes_def split: prod.split sum.split)

lemma static_keeps: "handler_keeps handleHealthz" "handler_keeps (handleReadyz w pf run now)"
  "handler_keeps (metrics_Handler tok (refreshMetrics w now))" "handler_keeps handleUILogin"
  "handler_keeps handleUILogout" "handler_keeps handleFragNewNodeForm"
  "handler_keeps (\<lambda>r s. fst (handleUIWS up r s))" "handler_keeps (\<lambda>r s. (resp, s))"
  by (auto simp: handler_keeps_def handleHealthz_def handleReadyz_def chrony_gate_def litestream_gate_def
      litestream_gauges_def metrics_Handler_def refreshMetrics_def handleUILogin_def handleUILogout_def
      handleFragNewNodeForm_def handleUIWS_def Let_def split: option.split sum.split prod.split)

lemmas route_keeps = bearerAuth_keeps adminAuth_keeps requireSession_keeps targets_keeps ticket_keeps ws_keeps
  list_keeps create_keeps patch_keeps delete_keeps ui_delete_keeps ui_create_keeps disable_keeps page_keeps static_keeps

lemma results_keeps: "node_keeps (handleResults w c)"
  by (rule node_keepsI) (rule keeps_handleResults)

lemma dispatch_keeps:
  "(\<And>m pat h. (m, pat, h) \<in> set rts \<Longrightarrow> handler_keeps h) \<Longrightarrow> handler_keeps (dispatch path seen rts)"
proof (induction rts arbitrary: seen)
  case Nil
  then show ?case by (simp add: handler_keeps_def)
next
  case (Cons rt rts)
  obtain m pat h where rt: "rt = (m, pat, h)" by (cases rt)
  have h: "handler_keeps h" using Cons.prems rt by auto
  have "handler_keeps (dispatch path b rts)" for b using Cons.IH Cons.prems by auto
  moreover have "keeps {sender r} (sv_db s) (sv_db (snd (h (r\<lparr>rq_path_id := v\<rparr>) s)))" for r v s
  proof -
    have "keeps {sender (r\<lparr>rq_path_id := v\<rparr>)} (sv_db s) (sv_db (snd (h (r\<lparr>rq_path_id := v\<rparr>) s)))"
      using h unfolding handler_keeps_def by blast
    then show ?thesis by simp
  qed
  ultimately show ?case by (auto simp: rt handler_keeps_def split: option.split)
qed

lemma routes_keep:
  assumes "(m, pat, h) \<in> set (routes E n path s)"
  shows "handler_keeps h"
proof -
  have "list_all (\<lambda>(m, pat, h). handler_keeps h) (routes E n path s)"
    by (simp add: routes_def agent_routes_def admin_routes_def ui_routes_def route_keeps results_keeps
        handleUIDashboard_def handleFragMatrix_def handleFragDisableNode_def handleFragEnableNode_def)
  then show ?thesis using assms by (auto simp: list_all_iff)
qed

lemma Handler_keeps: "keeps {sender r} (sv_db s) (sv_db (snd (Handler E path r s)))"
proof -
  let ?s0 = "s\<lparr>sv_db := (sv_db s)\<lparr>cd_calls := Suc (cd_calls (sv_db s))\<rparr>\<rparr>"
  have d: "handler_keeps (dispatch path False (routes E (cd_calls (sv_db s)) path s))"
    by (rule dispatch_keeps) (rule routes_keep)
  have "keeps {sender r} (sv_db s) (sv_db ?s0)" by simp
  also have "keeps {sender r} (sv_db ?s0) (sv_db (snd (Handler E path r s)))"
    using d
    unfolding handler_keeps_def Handler_def Let_def by blast
  finally show ?thesis .
qed

lemma serve_requests_keeps:
  "keeps ((sender \<circ> snd) ` set rqs) (sv_db s) (sv_db (snd (serve_requests E rqs s)))"
proof (induction E rqs s rule: serve_requests.induct)
  case (2 E path r rs s)
  let ?T = "(sender \<circ> snd) ` set rs" and ?S = "(sender \<circ> snd) ` set ((path, r) # rs)"
  have sub: "{sender r} \<subseteq> ?S" "?T \<subseteq> ?S" by auto
  obtain resp s1 where h: "Handler E path r s = (resp, s1)" by fastforce
  have "keeps {sender r} (sv_db s) (sv_db s1)" using Handler_keeps [of r s E path] unfolding h snd_conv .
  then have "keeps ?S (sv_db s) (sv_db s1)" using sub(1) by (rule keeps_mono)
  also have "keeps ?S (sv_db s1) (sv_db (snd (serve_requests E rs s1)))"
    using "2.IH" [OF h [symmetric]] sub(2) by (rule keeps_mono)
  finally show ?case unfolding serve_requests.simps h prod.case by (simp add: case_prod_beta)
qed simp

end
