(* ===== verification/Startup.thy ===== *)
theory Startup
  imports Routes_Props Agent_Props
begin

text \<open>
  The programs as a whole: the logger's settings (\<open>internal/logging\<close>), the migrations
  (\<open>internal/dbmigrate\<close>) and the two \<open>main\<close> functions (\<open>cmd/nlm-agent\<close>, \<open>cmd/nlm-controller\<close>). The
  controller's life is the list of what its goroutines do one after the other: requests served, polls of
  the Litestream watcher, ticks of the ticket pruner, the end of the listening goroutine and the signal.
  The property is that no such life breaks the consistency of the tables.
\<close>

section \<open>The logger\<close>

datatype log_level = TraceLevel | DebugLevel | InfoLevel | WarnLevel | ErrorLevel | FatalLevel

definition parseLevel :: "string \<Rightarrow> log_level" where
  "parseLevel s =
     (let l = to_lower s in
      if l = ''trace'' then TraceLevel
      else if l = ''debug'' then DebugLevel
      else if l = ''warn'' \<or> l = ''warning'' then WarnLevel
      else if l = ''error'' then ErrorLevel
      else if l = ''fatal'' then FatalLevel
      else InfoLevel)"

datatype log_writer = JsonStdout | ConsoleWriter

definition Getenv :: "environment \<Rightarrow> string \<Rightarrow> string" where
  "Getenv env k = (case env k of Some v \<Rightarrow> v | None \<Rightarrow> [])"

definition log_Init :: "environment \<Rightarrow> log_level \<times> log_writer" where
  "log_Init env =
     (parseLevel (Getenv env ''NLM_LOG_LEVEL''),
      if equal_fold (Getenv env ''NLM_LOG_FORMAT'') ''console'' then ConsoleWriter else JsonStdout)"

section \<open>Migrations\<close>

text \<open>The third-party migrator: opening the embedded source, attaching the driver to the database,
  building the migrator, and running it.\<close>

datatype up_result = UpDone | ErrNoChange | UpFailed string

record 'db migrator =
  mg_source :: "string option"
  mg_driver :: "'db \<Rightarrow> string option \<times> 'db"
  mg_new :: "string option"
  mg_up :: "'db \<Rightarrow> up_result \<times> 'db"

definition Up :: "'db migrator \<Rightarrow> 'db \<Rightarrow> string option \<times> 'db" where
  "Up M db =
     (case mg_source M of
        Some e \<Rightarrow> (Some (''dbmigrate: open source: '' @ e), db)
      | None \<Rightarrow>
          (case mg_driver M db of
             (Some e, db1) \<Rightarrow> (Some (''dbmigrate: driver: '' @ e), db1)
           | (None, db1) \<Rightarrow>
               (case mg_new M of
                  Some e \<Rightarrow> (Some (''dbmigrate: new: '' @ e), db1)
                | None \<Rightarrow>
                    (case mg_up M db1 of
                       (UpFailed e, db2) \<Rightarrow> (Some (''dbmigrate: up: '' @ e), db2)
                     | (ErrNoChange, db2) \<Rightarrow> (None, db2)
                     | (UpDone, db2) \<Rightarrow> (None, db2)))))"

section \<open>The agent's main\<close>

text \<open>How the process ends: \<open>log.Fatal\<close> with the failure of the mode, or normally; \<open>AgentRunning\<close> when
  the events end before a daemon does.\<close>

datatype agent_exit =
    ModeRequired
  | UnknownMode string
  | SpokeFailed agent_failure
  | ListenerFailed string
  | HubFailed agent_failure
  | AgentDone
  | AgentRunning

record agent_events =
  ae_listen :: "string \<Rightarrow> string option"
  ae_accepts :: "accept_event list"
  ae_ticks :: "hub_event list"

definition agent_main :: "world \<Rightarrow> spool_db migrator \<Rightarrow> (string \<Rightarrow> string + string) \<Rightarrow> environment \<Rightarrow>
    'n agent_env \<Rightarrow> probe_env \<Rightarrow> agent_events \<Rightarrow> string \<Rightarrow> bool \<Rightarrow> 'n agent \<Rightarrow> agent_exit \<times> 'n agent" where
  "agent_main w M rf env E pe ev mode once a =
     (if mode = [] then (ModeRequired, a)
      else if mode = ''spoke'' then
        (case runSpoke w (Up M) rf env E pe once a of
           (Some e, a1) \<Rightarrow> (SpokeFailed e, a1)
         | (None, a1) \<Rightarrow> (AgentDone, a1))
      else if mode = ''listener'' then
        (case runListener env (ae_listen ev) (ae_accepts ev) of
           (Some (Some e), _) \<Rightarrow> (ListenerFailed e, a)
         | (Some None, _) \<Rightarrow> (AgentDone, a)
         | (None, _) \<Rightarrow> (AgentRunning, a))
      else if mode = ''hub'' then
        (case runHub w (Up M) rf env E pe (ae_ticks ev) a of
           (Some (Some e), a1) \<Rightarrow> (HubFailed e, a1)
         | (Some None, a1) \<Rightarrow> (AgentDone, a1)
         | (None, a1) \<Rightarrow> (AgentRunning, a1))
      else (UnknownMode mode, a))"

section \<open>The controller's main\<close>

text \<open>The server shares its Litestream tracker with the watcher and its ticket store with the pruner; the
  shared objects live in the server and the watcher works on the server's tracker. \<open>ct_cmds\<close> is the
  state of the commands that the watcher runs.\<close>

record 'q controller =
  ct_server :: server
  ct_watcher :: watcher
  ct_cmds :: 'q

text \<open>\<open>ServeFailed\<close>: \<open>ListenAndServe\<close> returns an error other than \<open>ErrServerClosed\<close>. \<open>Signal\<close>: the context
  is done; its argument is the error of \<open>Shutdown\<close>.\<close>

datatype ctl_event =
    Request string request
  | PollTick
  | PruneTick gotime
  | ServeFailed string
  | Signal "string option"

datatype ctl_exit = ListenFatal string | ExitCode go_int

definition watch_step :: "world \<Rightarrow> (gotime \<Rightarrow> duration) \<Rightarrow> 'q querier \<Rightarrow> 'q controller \<Rightarrow> 'q controller" where
  "watch_step w zone query c =
     (case sv_litestream (ct_server c) of
        None \<Rightarrow> c
      | Some t \<Rightarrow>
          (case poll w zone query (ct_cmds c) ((ct_watcher c)\<lparr>wa_tracker := t\<rparr>) of (q, wa) \<Rightarrow>
             c\<lparr>ct_server := (ct_server c)\<lparr>sv_litestream := Some (wa_tracker wa)\<rparr>,
               ct_watcher := wa, ct_cmds := q\<rparr>))"

definition prune_step :: "gotime \<Rightarrow> 'q controller \<Rightarrow> 'q controller" where
  "prune_step now c =
     c\<lparr>ct_server := (ct_server c)\<lparr>sv_tickets := snd (Prune now (sv_tickets (ct_server c)))\<rparr>\<rparr>"

fun controller_loop :: "ctl_env \<Rightarrow> (gotime \<Rightarrow> duration) \<Rightarrow> 'q querier \<Rightarrow> ctl_event list \<Rightarrow> 'q controller \<Rightarrow>
    ctl_exit option \<times> 'q controller" where
  "controller_loop E zone query [] c = (None, c)"
| "controller_loop E zone query (Request path r # es) c =
     controller_loop E zone query es (c\<lparr>ct_server := snd (Handler E path r (ct_server c))\<rparr>)"
| "controller_loop E zone query (PollTick # es) c =
     controller_loop E zone query es (watch_step (ce_world E) zone query c)"
| "controller_loop E zone query (PruneTick now # es) c = controller_loop E zone query es (prune_step now c)"
| "controller_loop E zone query (ServeFailed e # es) c = (Some (ListenFatal e), c)"
| "controller_loop E zone query (Signal err # es) c =
     (Some (ExitCode (case err of Some e \<Rightarrow> 1 | None \<Rightarrow> 0)), c)"

text \<open>The watcher is built around the tracker that the server got; its first poll comes before any tick, so
  a run has at least one \<open>PollTick\<close> unless the watcher's goroutine has not been scheduled.\<close>

definition controller_main :: "ctl_env \<Rightarrow> (gotime \<Rightarrow> duration) \<Rightarrow> 'q querier \<Rightarrow> ctl_db migrator \<Rightarrow> environment \<Rightarrow>
    ctl_event list \<Rightarrow> 'q \<Rightarrow> ctl_db \<Rightarrow> controller_failure + ctl_exit option \<times> 'q controller" where
  "controller_main E zone query M env es q db =
     (case LoadController (ce_world E) env of
        Inl e \<Rightarrow> Inl (BadConfig e)
      | Inr cfg \<Rightarrow>
          (case OpenDB (ce_world E) (Up M) (cc_DBPath cfg) db of
             (Some e, db1) \<Rightarrow> Inl (OpenFailed e)
           | (None, db1) \<Rightarrow>
               Inr (controller_loop E zone query es
                      \<lparr>ct_server = controller_server cfg db1,
                       ct_watcher = NewWatcher (NewTracker (MaxLitestreamLag cfg))
                         \<lparr>wc_Service = [], wc_PollInterval = 0, wc_InitialLookback = MaxLitestreamLag cfg\<rparr>,
                       ct_cmds = q\<rparr>)))"

section \<open>Consistency of the controller's tables\<close>

definition senders :: "ctl_event list \<Rightarrow> string set" where
  "senders es = {rq_header r ''X-NLM-Node-Id'' | path r. Request path r \<in> set es}"

lemma watch_step_db [simp]: "sv_db (ct_server (watch_step w zone query c)) = sv_db (ct_server c)"
  by (simp add: watch_step_def split: option.split prod.split)

lemma prune_step_db [simp]: "sv_db (ct_server (prune_step now c)) = sv_db (ct_server c)"
  by (simp add: prune_step_def)

lemma controller_loop_keeps:
  "keeps (senders es) (sv_db (ct_server c)) (sv_db (ct_server (snd (controller_loop E zone query es c))))"
proof (induction E zone query es c rule: controller_loop.induct)
  case (2 E zone query path r es c)
  let ?c = "c\<lparr>ct_server := snd (Handler E path r (ct_server c))\<rparr>" and ?S = "senders (Request path r # es)"
  have sub: "{rq_header r ''X-NLM-Node-Id''} \<subseteq> ?S" "senders es \<subseteq> ?S" by (auto simp: senders_def)
  have "keeps ?S (sv_db (ct_server c)) (sv_db (ct_server ?c))"
    using keeps_mono [OF Handler_keeps sub(1)] by simp
  also have "keeps ?S (sv_db (ct_server ?c)) (sv_db (ct_server (snd (controller_loop E zone query es ?c))))"
    using "2.IH" sub(2) by (rule keeps_mono)
  finally show ?case by simp
next
  case (3 E zone query es c)
  then show ?case by (auto simp: senders_def elim: keeps_mono)
next
  case (4 E zone query now es c)
  then show ?case by (auto simp: senders_def elim: keeps_mono)
qed simp_all

lemma OpenDB_migrates:
  "OpenDB w up path db = (None, db1) \<Longrightarrow> \<exists>n. up (db\<lparr>cd_calls := n\<rparr>) = (None, db1)"
  by (auto simp: OpenDB_def cd_call_def split: prod.splits option.splits if_splits)

lemma controller_server_db [simp]: "sv_db (controller_server cfg db) = db"
  by (simp add: controller_server_def NewWithOptions_def)

lemma controller_main_Inr:
  assumes "controller_main E zone query M env es q db = Inr (ex, c)"
  shows "\<exists>n db1 c0. Up M (db\<lparr>cd_calls := n\<rparr>) = (None, db1) \<and> sv_db (ct_server c0) = db1 \<and>
    controller_loop E zone query es c0 = (ex, c)"
proof -
  obtain cfg where cfg: "LoadController (ce_world E) env = Inr cfg"
    using assms by (auto simp: controller_main_def split: sum.splits)
  obtain r db1 where op: "OpenDB (ce_world E) (Up M) (cc_DBPath cfg) db = (r, db1)" by fastforce
  have "r = None" using assms by (auto simp: controller_main_def cfg op split: option.splits)
  then obtain n where n: "Up M (db\<lparr>cd_calls := n\<rparr>) = (None, db1)"
    using OpenDB_migrates op by blast
  have "\<exists>c0. sv_db (ct_server c0) = db1 \<and> controller_loop E zone query es c0 = (ex, c)"
    using assms by (auto simp: controller_main_def cfg op \<open>r = None\<close> intro!: exI)
  with n show ?thesis by blast
qed

text \<open>C7: whatever happens while the controller runs (requests to any of its routes in any order, polls of the
  watcher, pruner ticks, faults of the database, of the clock and of the network), its tables stay
  consistent once the migrations leave them so: node ids and result keys are unique, every result belongs
  to a registered node, roles are valid and every hub has an address. The results that were there when it
  started are still there, in order and unchanged, and every new one belongs to the node id that some
  request of the run claimed. The run may start on an empty or on an existing database.\<close>

theorem controller_invariant:
  assumes migrations: "\<And>n d. Up M (db\<lparr>cd_calls := n\<rparr>) = (None, d) \<Longrightarrow>
      ctl_inv d \<and> hubs_addressed (registry d) \<and> cd_results d = cd_results db"
    and run: "controller_main E zone query M env es q db = Inr (ex, c)"
  shows "ctl_inv (sv_db (ct_server c)) \<and> hubs_addressed (registry (sv_db (ct_server c))) \<and>
     (\<exists>rows. cd_results (sv_db (ct_server c)) = cd_results db @ rows \<and>
        rr_source ` set rows \<subseteq> {rq_header r ''X-NLM-Node-Id'' | path r. Request path r \<in> set es})"
proof -
  obtain n db1 c0 where up: "Up M (db\<lparr>cd_calls := n\<rparr>) = (None, db1)" and db1: "sv_db (ct_server c0) = db1"
    and loop: "controller_loop E zone query es c0 = (ex, c)"
    using controller_main_Inr [OF run] by blast
  have "keeps (senders es) db1 (sv_db (ct_server c))"
    using controller_loop_keeps [of es c0 E zone query] by (simp add: db1 loop)
  then show ?thesis
    using migrations [OF up] by (simp add: keeps_def well_def senders_def)
qed

definition plain_migrator :: "ctl_db migrator" where
  "plain_migrator = \<lparr>mg_source = None, mg_driver = (\<lambda>db. (None, db)), mg_new = None, mg_up = (\<lambda>db. (ErrNoChange, db))\<rparr>"

definition quiet_env :: ctl_env where
  "quiet_env = \<lparr>ce_world = sample_world, ce_codec = sample_codec, ce_rand = (\<lambda>_. Inl ''none''), ce_now = (\<lambda>_ _. 0),
     ce_upgrade = (\<lambda>_ _. 101), ce_parse_float = (\<lambda>_. Inl ''syntax''), ce_run = (\<lambda>_ _. Inl ''not found''),
     ce_matrix = sample_driver, ce_static = (\<lambda>_. writeJSON 404 BEmpty)\<rparr>"

text \<open>A controller with the default settings, started on the freshly migrated database.\<close>

definition sample_life :: "ctl_event list" where
  "sample_life =
     [PollTick, Request ''/healthz'' (sample_rq\<lparr>rq_method := ''GET''\<rparr>), PruneTick 5, Signal None]"

lemma sample_run: "\<exists>ex c. controller_main quiet_env (\<lambda>_. 0) (\<lambda>q cmd. ((''no journal'', Some ''exit 1''), q)) plain_migrator
    (\<lambda>_. None) sample_life () ctl_init = Inr (ex, c)"
  by (simp add: controller_main_def LoadController_def go_on_def getString_def getInt_def OpenDB_def cd_call_def
      Up_def plain_migrator_def quiet_env_def sample_world_def Let_def)

theorem controller_invariant_witness:
  "\<exists>ex c. controller_main quiet_env (\<lambda>_. 0) (\<lambda>q cmd. ((''no journal'', Some ''exit 1''), q)) plain_migrator
     (\<lambda>_. None) sample_life () ctl_init = Inr (ex, c) \<and>
     ctl_inv (sv_db (ct_server c)) \<and> hubs_addressed (registry (sv_db (ct_server c)))"
proof -
  obtain ex c where run: "controller_main quiet_env (\<lambda>_. 0) (\<lambda>q cmd. ((''no journal'', Some ''exit 1''), q))
      plain_migrator (\<lambda>_. None) sample_life () ctl_init = Inr (ex, c)"
    using sample_run by blast
  have "ctl_inv d \<and> hubs_addressed (registry d) \<and> cd_results d = cd_results ctl_init"
    if "Up plain_migrator (ctl_init\<lparr>cd_calls := n\<rparr>) = (None, d)" for n d
    using that by (auto simp: Up_def plain_migrator_def ctl_init_def ctl_inv_def hubs_addressed_def registry_def
        find_node_def ran_def)
  then show ?thesis using controller_invariant [OF _ run] run by blast
qed

end
