(* ===== verification/End_To_End.thy ===== *)
theory End_To_End
  imports Routes_Props
begin

text \<open>
  Agent and controller together. The agent's HTTP transport is instantiated by the controller's own
  \<open>Handler\<close> behind a network that may lose a request before it arrives or its reply on the way back; between
  two messages of the agent the controller serves any requests of other clients. On this composition two
  guarantees hold that no component gives alone: what leaves the spool as delivered is stored exactly once,
  and a change of the hubs reaches the agents.
\<close>

section \<open>The network between agent and controller\<close>

datatype fate = LoseRequest string | LoseReply string | Deliver

record network =
  nw_server :: server
  nw_count :: nat

record wire =
  wi_ctl :: ctl_env
  wi_base :: string
  wi_fate :: "nat \<Rightarrow> fate"
  wi_others :: "nat \<Rightarrow> (string \<times> request) list"
  wi_url_err :: "string \<Rightarrow> string option"
  wi_now :: "nat \<Rightarrow> gotime"
  wi_host :: string
  wi_remote :: string

definition header_get :: "(string \<times> string) list \<Rightarrow> string \<Rightarrow> string" where
  "header_get hs k = (case map_of hs k of Some v \<Rightarrow> v | None \<Rightarrow> [])"

definition to_request :: "wire \<Rightarrow> http_request \<Rightarrow> request" where
  "to_request V hq =
     \<lparr>rq_method = hq_method hq, rq_header = header_get (hq_header hq), rq_path_id = [], rq_ticket = [],
      rq_form = (\<lambda>_. []), rq_cookie = None, rq_host = wi_host V, rq_remote = wi_remote V, rq_tls = False,
      rq_body = hq_body hq\<rparr>"

definition to_reply :: "wire \<Rightarrow> response \<Rightarrow> http_reply" where
  "to_reply V resp = \<lparr>hr_StatusCode = rs_status resp, hr_Status = itoa (rs_status resp),
     hr_body = json_body (ce_codec (wi_ctl V)) (rs_body resp)\<rparr>"

text \<open>The controller when the agent's message number \<open>n\<close> would reach it.\<close>

definition server_at :: "wire \<Rightarrow> network \<Rightarrow> server" where
  "server_at V net = snd (serve_requests (wi_ctl V) (wi_others V (nw_count net)) (nw_server net))"

definition served :: "wire \<Rightarrow> http_request \<Rightarrow> network \<Rightarrow> response \<times> server" where
  "served V hq net = Handler (wi_ctl V) (drop (length (wi_base V)) (hq_url hq)) (to_request V hq) (server_at V net)"

text \<open>A request that the controller does not answer ends as an error of the client: the connection is closed, or its
  time runs out.\<close>

definition transmit :: "wire \<Rightarrow> duration \<Rightarrow> http_request \<Rightarrow> network \<Rightarrow> (string + http_reply) \<times> network" where
  "transmit V timeout hq net =
     (let k = Suc (nw_count net) in
      case wi_fate V (nw_count net) of
        LoseRequest e \<Rightarrow> (Inl e, \<lparr>nw_server = server_at V net, nw_count = k\<rparr>)
      | LoseReply e \<Rightarrow> (Inl e, \<lparr>nw_server = snd (served V hq net), nw_count = k\<rparr>)
      | Deliver \<Rightarrow>
          ((if rs_status (fst (served V hq net)) = 0 then Inl ''EOF'' else Inr (to_reply V (fst (served V hq net)))),
           \<lparr>nw_server = snd (served V hq net), nw_count = k\<rparr>))"

definition wire_env :: "wire \<Rightarrow> network agent_env" where
  "wire_env V = \<lparr>env_url_err = wi_url_err V, env_do = transmit V, env_now = wi_now V,
     env_codec = ce_codec (wi_ctl V)\<rparr>"

section \<open>A replay means that the batch is stored\<close>

text \<open>The driver reports a violated UNIQUE constraint with its own text and no other error with that text.\<close>

definition driver_honest :: "world \<Rightarrow> bool" where
  "driver_honest w \<longleftrightarrow> (\<forall>n e. fault w n = Some e \<longrightarrow> \<not> isUniqueViolation e) \<and>
     \<not> isUniqueViolation (foreign_key_err w)"

lemma insert_loop_409:
  assumes "insert_loop w req obs tx = (Some (Inr 409), tx')" "driver_honest w" "distinct (map TargetID obs)"
  shows "\<exists>ob \<in> set obs. key_taken req ob tx"
  using assms
proof (induction obs arbitrary: tx)
  case (Cons ob obs)
  obtain x tx1 where x: "insert_obs w req ob tx = (x, tx1)" by fastforce
  from x show ?case
  proof (cases rule: insert_obs_cases)
    case (fault e n)
    then show ?thesis using Cons.prems x by (auto simp: driver_honest_def)
  next
    case no_node
    then show ?thesis using Cons.prems x by (auto simp: driver_honest_def)
  next
    case (added ts)
    then have "insert_loop w req obs tx1 = (Some (Inr 409), tx')" using Cons.prems(1) x by simp
    then obtain ob' where ob': "ob' \<in> set obs" "key_taken req ob' tx1"
      using Cons.IH Cons.prems(2,3) by auto
    have "TargetID ob' \<noteq> TargetID ob" using Cons.prems(3) imageI [OF ob'(1), of TargetID] by auto
    then have "key_taken req ob' tx"
      using ob'(2) added(2) by (auto simp: key_taken_def appends_def obs_row_def result_key_def)
    then show ?thesis using ob'(1) by auto
  qed auto
qed simp

definition batch_stored :: "results_request \<Rightarrow> ctl_db \<Rightarrow> bool" where
  "batch_stored req db \<longleftrightarrow> (\<forall>ob \<in> set (Results req). key_taken req ob db)"

definition batch_touched :: "results_request \<Rightarrow> ctl_db \<Rightarrow> bool" where
  "batch_touched req db \<longleftrightarrow> (\<exists>ob \<in> set (Results req). key_taken req ob db)"

lemma key_taken_mono: "prefix (cd_results db) (cd_results db') \<Longrightarrow> key_taken req ob db \<Longrightarrow> key_taken req ob db'"
  by (auto simp: key_taken_def prefix_def)

lemma batch_stored_mono: "prefix (cd_results db) (cd_results db') \<Longrightarrow> batch_stored req db \<Longrightarrow> batch_stored req db'"
  by (auto simp: batch_stored_def intro: key_taken_mono)

lemma stored_batch:
  assumes "stored req rows" "cd_results db' = cd_results db @ rows"
  shows "batch_stored req db'"
proof -
  have "result_key ` set rows = (\<lambda>ob. (SourceID req, ProbeRunID req, TargetID ob)) ` set (Results req)"
    using stored_keys [OF assms(1)] by (metis list.set_map)
  then show ?thesis using assms(2) unfolding batch_stored_def key_taken_def by (simp add: image_Un)
qed

lemma persistResults_409:
  assumes "persistResults w req db = (Inr 409, db')" "driver_honest w" "distinct (map TargetID (Results req))"
  shows "batch_touched req db"
proof -
  let ?db2 = "db\<lparr>cd_calls := Suc (Suc (cd_calls db))\<rparr>"
  have "\<exists>tx. insert_loop w req (Results req) ?db2 = (Some (Inr 409), tx)"
    using assms(1) by (auto simp: persistResults_def cd_call_def split: option.splits prod.splits)
  then show ?thesis
    using insert_loop_409 [OF _ assms(2,3)] by (fastforce simp: batch_touched_def key_taken_def)
qed

lemma batch_same:
  "cd_results db' = cd_results db \<Longrightarrow> batch_touched req db' = batch_touched req db"
  "cd_results db' = cd_results db \<Longrightarrow> batch_stored req db' = batch_stored req db"
  by (simp_all add: batch_touched_def batch_stored_def key_taken_def)

text \<open>What the results route does with a batch: it stores nothing or all of it, and it answers with an
  accepting status only when the batch is stored or one of its keys was taken before.\<close>

lemma results_route:
  assumes "bearerAuth w (handleResults w cd) r s = (resp, s')" "json_results cd (rq_body r) = Inr req"
    and "driver_honest w"
  shows "(cd_results (sv_db s') = cd_results (sv_db s) \<or>
      (\<exists>rows. cd_results (sv_db s') = cd_results (sv_db s) @ rows \<and> stored req rows)) \<and>
    (rs_status resp \<in> {200..<300} \<or> rs_status resp = 409 \<longrightarrow>
       batch_touched req (sv_db s) \<and> cd_results (sv_db s') = cd_results (sv_db s) \<or> batch_stored req (sv_db s'))"
  using assms(1)
proof (cases rule: bearerAuth_cases)
  case (passed nd n)
  let ?s = "s\<lparr>sv_db := sv_db s\<lparr>cd_calls := n\<rparr>\<rparr>"
  from passed(3) show ?thesis
  proof (cases rule: handleResults_cases)
    case refused
    then show ?thesis by (simp add: same_ctl_def)
  next
    case (failed req' x db0 db1)
    have req': "req' = req" using failed(2) assms(2) by simp
    have "cd_results db0 = cd_results (sv_db s)" "cd_results (sv_db s') = cd_results db1"
      using same_ctl_results [OF failed(4)] same_ctl_results [OF failed(6)] by simp_all
    with failed(5) show ?thesis
      using failed(1) req' by (cases rule: persistResults_cases) (auto simp: same_ctl_results appends_def)
  next
    case (ingested req' st s1 db0 db1 t)
    have req': "req' = req" using ingested(1) assms(2) by simp
    have d: "distinct (map TargetID (Results req))"
      using ingested(2) req' by (auto simp: validateResultsRequest_def validate_obs_None split: if_splits)
    note fin = finish_results_effect(1,2) [OF ingested(6)]
    have r0: "cd_results db0 = cd_results (sv_db s)" "cd_results (sv_db s') = cd_results db1"
      using same_ctl_results [OF ingested(3)] fin(2) ingested(5) by simp_all
    from ingested(4) show ?thesis
    proof (cases rule: persistResults_cases)
      case replay
      then have "batch_touched req (sv_db s)"
        using persistResults_409 [of w req db0 db1] assms(3) d ingested(4) req' batch_same(1) [OF r0(1)] by simp
      then show ?thesis using r0 same_ctl_results [OF replay(2)] by simp
    next
      case (created rows)
      then have "cd_results (sv_db s') = cd_results (sv_db s) @ rows" "stored req rows"
        using r0 req' by (simp_all add: appends_def)
      then show ?thesis using stored_batch by blast
    qed simp_all
  qed
qed auto

section \<open>The sender over the wire\<close>

abbreviation ctl_of :: "network agent_net \<Rightarrow> ctl_db" where
  "ctl_of a \<equiv> sv_db (nw_server (ag_net a))"

text \<open>\<open>plan run\<close> is the request that the run stands for: an agent gives each run an id of its own.\<close>

definition sane_payload :: "wire \<Rightarrow> client \<Rightarrow> (string \<Rightarrow> results_request) \<Rightarrow> string \<Rightarrow> string \<Rightarrow> bool" where
  "sane_payload V c plan run pl \<longleftrightarrow> json_results (ce_codec (wi_ctl V)) pl = Inr (plan run) \<and>
     ProbeRunID (plan run) = run \<and> SourceID (plan run) = cl_nodeID c"

text \<open>A run of this node is stored as a whole or not at all.\<close>

definition runs_whole :: "client \<Rightarrow> (string \<Rightarrow> results_request) \<Rightarrow> ctl_db \<Rightarrow> bool" where
  "runs_whole c plan db \<longleftrightarrow> (\<forall>run. ProbeRunID (plan run) = run \<and> SourceID (plan run) = cl_nodeID c \<and>
     batch_touched (plan run) db \<longrightarrow> batch_stored (plan run) db)"

text \<open>What the agent can rely on: the client talks to this controller, no other client uses the node's
  id, and the controller's tables are consistent.\<close>

definition wire_ok :: "wire \<Rightarrow> client \<Rightarrow> (string \<Rightarrow> results_request) \<Rightarrow> network agent_net \<Rightarrow> bool" where
  "wire_ok V c plan a \<longleftrightarrow> cl_base c = wi_base V \<and> driver_honest (ce_world (wi_ctl V)) \<and>
     (\<forall>n. cl_nodeID c \<notin> (sender \<circ> snd) ` set (wi_others V n)) \<and>
     well (ctl_of a) \<and> runs_whole c plan (ctl_of a)"

lemma batch_touched_before:
  assumes "cd_results db' = cd_results db @ rows" "batch_touched req db'"
    and new: "\<And>x. x \<in> set rows \<Longrightarrow> rr_source x \<noteq> SourceID req \<or> rr_run x \<noteq> ProbeRunID req"
  shows "batch_touched req db"
proof -
  obtain ob x where ob: "ob \<in> set (Results req)" "x \<in> set (cd_results db')"
    "(SourceID req, ProbeRunID req, TargetID ob) = result_key x"
    using assms(2) unfolding batch_touched_def key_taken_def by blast
  then have "x \<in> set (cd_results db)" using new [of x] assms(1) by (auto simp: result_key_def)
  then show ?thesis using ob(1,3) unfolding batch_touched_def key_taken_def by blast
qed

lemma stored_runs:
  assumes "stored req rows" "x \<in> set rows"
  shows "rr_run x = ProbeRunID req"
proof -
  have "map (fst \<circ> snd \<circ> result_key) rows = map (\<lambda>_. ProbeRunID req) (Results req)"
    using arg_cong [OF stored_keys [OF assms(1)], of "map (fst \<circ> snd)"] by (simp add: comp_def)
  then have "set (map (fst \<circ> snd \<circ> result_key) rows) \<subseteq> {ProbeRunID req}" by auto
  then show ?thesis using assms(2) by (auto simp: result_key_def)
qed

lemma runs_whole_other:
  assumes "keeps S db db'" "cl_nodeID c \<notin> S" "runs_whole c plan db"
  shows "runs_whole c plan db'"
  unfolding runs_whole_def
proof (intro allI impI)
  fix run assume r: "ProbeRunID (plan run) = run \<and> SourceID (plan run) = cl_nodeID c \<and> batch_touched (plan run) db'"
  obtain rows where rows: "cd_results db' = cd_results db @ rows" "rr_source ` set rows \<subseteq> S"
    using assms(1) by (auto simp: keeps_def)
  have "batch_touched (plan run) db"
    using r rows(2) assms(2) by (intro batch_touched_before [OF rows(1)]) auto
  then have "batch_stored (plan run) db" using r assms(3) unfolding runs_whole_def by blast
  then show "batch_stored (plan run) db'" using keeps_prefix [OF assms(1)] batch_stored_mono by blast
qed

lemma runs_whole_stored:
  assumes "cd_results db' = cd_results db @ rows" "stored (plan run) rows" "ProbeRunID (plan run) = run"
    and "runs_whole c plan db"
  shows "runs_whole c plan db'"
  unfolding runs_whole_def
proof (intro allI impI)
  fix run' assume r: "ProbeRunID (plan run') = run' \<and> SourceID (plan run') = cl_nodeID c \<and>
    batch_touched (plan run') db'"
  show "batch_stored (plan run') db'"
  proof (cases "run' = run")
    case True
    then show ?thesis using stored_batch [OF assms(2,1)] by simp
  next
    case False
    have "batch_touched (plan run') db"
      using r False stored_runs [OF assms(2)] assms(3) by (intro batch_touched_before [OF assms(1)]) auto
    then have "batch_stored (plan run') db" using r assms(4) unfolding runs_whole_def by blast
    then show ?thesis using assms(1) batch_stored_mono by (metis prefixI)
  qed
qed

lemma served_results:
  assumes "cl_base c = wi_base V"
  shows "served V (results_http c pl) net =
    bearerAuth (ce_world (wi_ctl V)) (handleResults (ce_world (wi_ctl V)) (ce_codec (wi_ctl V)))
      (to_request V (results_http c pl))
      (let s = server_at V net in s\<lparr>sv_db := (sv_db s)\<lparr>cd_calls := Suc (cd_calls (sv_db s))\<rparr>\<rparr>)"
  using assms
  by (simp add: served_def Handler_def routes_def agent_routes_def match_method_def Let_def to_request_def
      results_http_def)

lemma others_keep: "keeps ((sender \<circ> snd) ` set (wi_others V (nw_count net))) (sv_db (nw_server net)) (sv_db (server_at V net))"
  unfolding server_at_def by (rule serve_requests_keeps)

lemma wire_ok_at:
  assumes "wire_ok V c plan a"
  shows "well (sv_db (server_at V (ag_net a)))" "runs_whole c plan (sv_db (server_at V (ag_net a)))"
proof -
  note k = others_keep [of V "ag_net a"]
  show "well (sv_db (server_at V (ag_net a)))" using k assms by (simp add: keeps_def wire_ok_def)
  show "runs_whole c plan (sv_db (server_at V (ag_net a)))"
    using assms by (intro runs_whole_other [OF k]) (simp_all add: wire_ok_def)
qed

lemma served_effect:
  assumes "wire_ok V c plan a" "sane_payload V c plan run pl" "served V (results_http c pl) (ag_net a) = (resp, s')"
  shows "well (sv_db s')" "runs_whole c plan (sv_db s')"
    "prefix (cd_results (sv_db (server_at V (ag_net a)))) (cd_results (sv_db s'))"
    "rs_status resp \<in> {200..<300} \<or> rs_status resp = 409 \<Longrightarrow> batch_stored (plan run) (sv_db s')"
proof -
  let ?s = "server_at V (ag_net a)"
  let ?begun = "?s\<lparr>sv_db := (sv_db ?s)\<lparr>cd_calls := Suc (cd_calls (sv_db ?s))\<rparr>\<rparr>"
  let ?r = "to_request V (results_http c pl)"
  have base: "cl_base c = wi_base V" "driver_honest (ce_world (wi_ctl V))"
    using assms(1) by (simp_all add: wire_ok_def)
  have b: "bearerAuth (ce_world (wi_ctl V)) (handleResults (ce_world (wi_ctl V)) (ce_codec (wi_ctl V))) ?r ?begun
      = (resp, s')"
    using assms(3) unfolding served_results [OF base(1)] Let_def .
  have j: "json_results (ce_codec (wi_ctl V)) (rq_body ?r) = Inr (plan run)"
    using assms(2) by (simp add: sane_payload_def to_request_def results_http_def)
  have pr: "ProbeRunID (plan run) = run" "SourceID (plan run) = cl_nodeID c"
    using assms(2) by (simp_all add: sane_payload_def)
  note rt = results_route [OF b j base(2)]
  note at = wire_ok_at [OF assms(1)]
  have "keeps {sender ?r} (sv_db ?s) (sv_db s')"
    using Handler_keeps [of ?r ?s "wi_ctl V" "drop (length (wi_base V)) (hq_url (results_http c pl))"] assms(3)
    by (simp add: served_def)
  then show "well (sv_db s')" "prefix (cd_results (sv_db ?s)) (cd_results (sv_db s'))"
    using at(1) by (auto simp: keeps_def)
  have at0: "runs_whole c plan (sv_db ?begun)"
    using at(2) by (simp add: runs_whole_def batch_touched_def batch_stored_def key_taken_def)
  from rt consider "cd_results (sv_db s') = cd_results (sv_db ?begun)"
    | rows where "cd_results (sv_db s') = cd_results (sv_db ?begun) @ rows" "stored (plan run) rows" by blast
  then show whole: "runs_whole c plan (sv_db s')"
  proof cases
    case 1
    then show ?thesis using at0 batch_same [OF 1] by (simp add: runs_whole_def)
  next
    case (2 rows)
    then show ?thesis using runs_whole_stored [OF 2(1,2) pr(1) at0] by simp
  qed
  assume "rs_status resp \<in> {200..<300} \<or> rs_status resp = 409"
  then have "batch_touched (plan run) (sv_db s') \<or> batch_stored (plan run) (sv_db s')"
    using rt batch_same(1) [of "sv_db s'" "sv_db ?begun"] by metis
  then show "batch_stored (plan run) (sv_db s')"
    using whole pr unfolding runs_whole_def by blast
qed

lemma ag_net_notifyVersion [simp]: "ag_net (notifyVersion E c b a) = ag_net a"
  by (simp add: notifyVersion_def split: option.split)

lemma Send_wire_cases:
  assumes "Send (wire_env V) c a run pl = ((out, e), a')"
  obtains (unsent) "out \<noteq> OutcomeAccepted" "ag_net a' = ag_net a"
  | (lost) "out \<noteq> OutcomeAccepted" "nw_server (ag_net a') = server_at V (ag_net a)"
  | (reached) resp s' where "served V (results_http c pl) (ag_net a) = (resp, s')" "nw_server (ag_net a') = s'"
      "out = OutcomeAccepted \<Longrightarrow> rs_status resp \<in> {200..<300} \<or> rs_status resp = 409"
proof (cases "wi_url_err V (cl_base c @ ''/api/v1/results'')")
  case (Some x)
  then show thesis using assms by (intro unsent) (auto simp: Send_def wire_env_def outcome_defs)
next
  case None
  obtain resp s' where s': "served V (results_http c pl) (ag_net a) = (resp, s')" by fastforce
  show thesis
  proof (cases "wi_fate V (nw_count (ag_net a))")
    case (LoseRequest x)
    then show thesis using assms None
      by (intro lost) (auto simp: Send_def wire_env_def transmit_def outcome_defs Let_def)
  next
    case (LoseReply x)
    then show thesis using assms None s'
      by (intro reached [of resp s']) (auto simp: Send_def wire_env_def transmit_def outcome_defs Let_def)
  next
    case Deliver
    then show thesis using assms None s'
      by (intro reached [of resp s'])
        (auto simp: Send_def wire_env_def transmit_def outcome_defs to_reply_def Let_def split: if_splits)
  qed
qed

lemma Send_wire_effect:
  assumes "wire_ok V c plan a" "sane_payload V c plan run pl" "Send (wire_env V) c a run pl = ((out, e), a')"
  shows "wire_ok V c plan a'" "prefix (cd_results (ctl_of a)) (cd_results (ctl_of a'))"
    "out = OutcomeAccepted \<Longrightarrow> batch_stored (plan run) (ctl_of a')"
proof -
  note at = wire_ok_at [OF assms(1)]
  have pre: "prefix (cd_results (ctl_of a)) (cd_results (sv_db (server_at V (ag_net a))))"
    by (rule keeps_prefix [OF others_keep])
  have "(well (ctl_of a') \<and> runs_whole c plan (ctl_of a')) \<and>
      prefix (cd_results (ctl_of a)) (cd_results (ctl_of a')) \<and>
      (out = OutcomeAccepted \<longrightarrow> batch_stored (plan run) (ctl_of a'))"
    using assms(3)
  proof (cases rule: Send_wire_cases)
    case unsent
    then show ?thesis using assms(1) by (simp add: wire_ok_def)
  next
    case lost
    then show ?thesis using at pre by simp
  next
    case (reached resp s')
    note sv = served_effect [OF assms(1,2) reached(1)]
    show ?thesis using sv reached(2,3) prefix_order.trans [OF pre sv(3)] by auto
  qed
  then show "wire_ok V c plan a'" "prefix (cd_results (ctl_of a)) (cd_results (ctl_of a'))"
    "out = OutcomeAccepted \<Longrightarrow> batch_stored (plan run) (ctl_of a')"
    using assms(1) by (auto simp: wire_ok_def)
qed

interpretation wire: delivering_sender "Send (wire_env V) c" "wire_ok V c plan" "sane_payload V c plan"
  "\<lambda>run pl a. batch_stored (plan run) (ctl_of a)" for V c plan
proof
  fix a run pl r
  obtain out e a' where s: "Send (wire_env V) c a run pl = ((out, e), a')" by (metis prod.exhaust)
  assume ok: "wire_ok V c plan a" "sane_payload V c plan run pl"
  note eff = Send_wire_effect [OF ok s]
  show "wire_ok V c plan (snd (Send (wire_env V) c a run pl))" using eff(1) s by simp
  show "batch_stored (plan r) (ctl_of a) \<Longrightarrow> batch_stored (plan r) (ctl_of (snd (Send (wire_env V) c a run pl)))"
    using batch_stored_mono [OF eff(2)] s by simp
  show "fst (fst (Send (wire_env V) c a run pl)) = OutcomeAccepted \<Longrightarrow>
      batch_stored (plan run) (ctl_of (snd (Send (wire_env V) c a run pl)))"
    using eff(3) s by simp
qed

section \<open>Delivery\<close>

text \<open>C1: an agent drains its spool into the controller over a network that loses any requests and
  replies, with any faults of the agent's database and of the controller's, and with any other clients
  active. Every row that is gone from the spool afterwards has its whole batch in the controller's result table,
  or it is counted in \<open>drops_total\<close> (but for one row when the drain ends with an error); and the table
  holds no observation twice, however often a batch was sent.\<close>

theorem spool_rows_delivered_exactly_once:
  assumes "Drain w sp (Send (wire_env V) c) db a = ((st, err), db', a')"
    and "wire_ok V c plan a" "spool_inv db"
    and "\<And>r. r \<in> set (sp_rows db) \<Longrightarrow> sane_payload V c plan (probe_run_id r) (payload r)"
  shows "int (length (filter (\<lambda>r. sp_key r \<notin> set (sp_keys db') \<and>
             \<not> batch_stored (plan (probe_run_id r)) (ctl_of a')) (sp_rows db)))
           \<le> drops db' - drops db + (if err = None then 0 else 1) \<and>
         distinct (map result_key (cd_results (ctl_of a')))"
proof -
  have "wire_ok V c plan a'" using wire.Drain_arrives(1) [OF assms(1-3)] assms(4) by blast
  then have "distinct (map result_key (cd_results (ctl_of a')))"
    by (simp add: wire_ok_def well_def ctl_inv_def)
  then show ?thesis using wire.Drain_arrives(2) [OF assms(1-3)] assms(4) by blast
qed

definition sample_wire :: wire where
  "sample_wire = \<lparr>wi_ctl = \<lparr>ce_world = sample_world, ce_codec = sample_codec, ce_rand = (\<lambda>_. Inl ''none''),
       ce_now = (\<lambda>_ _. 0), ce_upgrade = (\<lambda>_ _. 400), ce_parse_float = (\<lambda>_. Inl ''none''),
       ce_run = (\<lambda>_ _. Inl ''none''), ce_matrix = sample_driver, ce_static = (\<lambda>_. writeJSON 404 BEmpty)\<rparr>,
     wi_base = ''http://c'', wi_fate = (\<lambda>n. if n = 0 then LoseReply ''EOF'' else Deliver), wi_others = (\<lambda>_. []),
     wi_url_err = (\<lambda>_. None), wi_now = (\<lambda>_. 9000), wi_host = ''c'', wi_remote = ''1.2.3.4:5''\<rparr>"

definition sample_client :: client where
  "sample_client = SetVersionNotifier (NewClient ''http://c/'' ''h1'' ''s'' 10)"

definition sample_agent :: "network agent_net" where
  "sample_agent = \<lparr>ag_cache = NewTargetCache ''http://c/'' ''h1'' ''s'' 10 300,
     ag_net = \<lparr>nw_server = sample_server, nw_count = 0\<rparr>, ag_calls = 0\<rparr>"

lemma sample_wire_ok: "wire_ok sample_wire sample_client (\<lambda>_. sample_request) sample_agent"
proof -
  have "\<not> isUniqueViolation ''FOREIGN KEY constraint failed''" by code_simp
  then show ?thesis
    using sample_ctl_well
    by (simp add: wire_ok_def sample_wire_def sample_client_def SetVersionNotifier_def NewClient_def
        trim_right_slash_def driver_honest_def sample_agent_def runs_whole_def batch_touched_def key_taken_def)
      (simp add: sample_ctl_def ctl_init_def)
qed

definition sample_spooled :: spool_db where
  "sample_spooled = spool_init\<lparr>sp_rows := [new_row 1 ''2'' ''run'' ''p''], sp_next_id := 2\<rparr>"

theorem spool_rows_delivered_exactly_once_witness:
  "\<exists>st err db' a'. Drain sample_world sample_spool (Send (wire_env sample_wire) sample_client) sample_spooled
       sample_agent = ((st, err), db', a') \<and>
     length (filter (\<lambda>r. sp_key r \<notin> set (sp_keys db') \<and> \<not> batch_stored sample_request (ctl_of a'))
       (sp_rows sample_spooled)) \<le> nat (drops db' - drops sample_spooled + (if err = None then 0 else 1))"
proof -
  obtain st err db' a' where d: "Drain sample_world sample_spool (Send (wire_env sample_wire) sample_client)
      sample_spooled sample_agent = ((st, err), db', a')" by (metis prod.exhaust)
  have "spool_inv sample_spooled" by (simp add: sample_spooled_def spool_inv_def spool_init_def new_row_def)
  moreover have "sane_payload sample_wire sample_client (\<lambda>_. sample_request) (probe_run_id r) (payload r)"
    if "r \<in> set (sp_rows sample_spooled)" for r
    using that
    by (simp add: sample_spooled_def new_row_def sane_payload_def sample_wire_def sample_codec_def
        sample_request_def sample_client_def SetVersionNotifier_def NewClient_def)
  ultimately show ?thesis
    using spool_rows_delivered_exactly_once [OF d sample_wire_ok] d by (fastforce simp: nat_le_iff)
qed

section \<open>Targets\<close>

lemma HubTargetsFor_faultless:
  assumes "faultless w" "ctl_inv db"
  shows "\<exists>db'. HubTargetsFor w i db = (Inr (hub_list i db, version db), db')"
proof -
  obtain v where "cd_meta db ''targets_version'' = Some v" using ctl_inv_version [OF assms(2)] by blast
  then show ?thesis
    using assms(1)
    by (simp add: HubTargetsFor_def cd_query_def TargetsVersion_def cd_call_def hub_list_def version_def)
qed

lemma parseBearer_token: "secret \<noteq> [] \<Longrightarrow> parseBearer (''Bearer '' @ secret) = Some (trim_space secret)"
  by (simp add: parseBearer_def)

lemma bearerAuth_passes:
  assumes "faultless w" "authenticates r s = Some nd"
  shows "\<exists>n. bearerAuth w nxt r s = nxt (Some nd) r (s\<lparr>sv_db := sv_db s\<lparr>cd_calls := n\<rparr>\<rparr>)"
proof -
  obtain resp s' where b: "bearerAuth w nxt r s = (resp, s')" by fastforce
  then show ?thesis
  proof (cases rule: bearerAuth_cases)
    case (passed nd' n)
    then show ?thesis using assms(2) b by (intro exI [of _ n]) simp
  qed (use assms in auto)
qed

text \<open>Bytes that are valid UTF-8, as \<open>unicode/utf8\<close> defines it: no overlong form, no surrogate, at most U+10FFFF.\<close>

definition cont_byte :: "char \<Rightarrow> nat \<Rightarrow> nat \<Rightarrow> bool" where
  "cont_byte c lo hi \<longleftrightarrow> lo \<le> of_char c \<and> of_char c \<le> hi"

fun valid_utf8 :: "string \<Rightarrow> bool" where
  "valid_utf8 [] \<longleftrightarrow> True"
| "valid_utf8 (c # s) \<longleftrightarrow>
     cont_byte c 0x00 0x7F \<and> valid_utf8 s \<or>
     (case s of
        [] \<Rightarrow> False
      | c1 # s1 \<Rightarrow>
          cont_byte c 0xC2 0xDF \<and> cont_byte c1 0x80 0xBF \<and> valid_utf8 s1 \<or>
          (case s1 of
             [] \<Rightarrow> False
           | c2 # s2 \<Rightarrow>
               cont_byte c 0xE0 0xEF \<and>
                 cont_byte c1 (if of_char c = (0xE0 :: nat) then 0xA0 else 0x80) (if of_char c = (0xED :: nat) then 0x9F else 0xBF) \<and>
                 cont_byte c2 0x80 0xBF \<and> valid_utf8 s2 \<or>
               (case s2 of
                  [] \<Rightarrow> False
                | c3 # s3 \<Rightarrow>
                    cont_byte c 0xF0 0xF4 \<and>
                      cont_byte c1 (if of_char c = (0xF0 :: nat) then 0x90 else 0x80) (if of_char c = (0xF4 :: nat) then 0x8F else 0xBF) \<and>
                      cont_byte c2 0x80 0xBF \<and> cont_byte c3 0x80 0xBF \<and> valid_utf8 s3)))"

text \<open>What \<open>encoding/json\<close> promises for the two answers the agent reads: it decodes what it encoded, as long as the
  strings are valid UTF-8 (it replaces other bytes).\<close>

definition utf8_entry :: "target_entry \<Rightarrow> bool" where
  "utf8_entry e \<longleftrightarrow> valid_utf8 (te_ID e) \<and> valid_utf8 (te_Address e)"

definition codec_faithful :: "codec \<Rightarrow> bool" where
  "codec_faithful cd \<longleftrightarrow>
     (\<forall>v. int64 v \<longrightarrow> json_body cd (BStatus (Some v)) \<noteq> [] \<and>
        json_version cd (take 4096 (json_body cd (BStatus (Some v)))) = Some v) \<and>
     (\<forall>es v. int64 v \<and> list_all utf8_entry es \<longrightarrow> json_targets cd (json_body cd (BTargets es v)) = Inr (es, v))"

text \<open>An accepted delivery whose reply arrives tells the cache the controller's version.\<close>

lemma accepted_notices_version:
  assumes "Send (wire_env V) c a run pl = ((OutcomeAccepted, e), a')"
    and "wire_ok V c plan a" "faultless (ce_world (wi_ctl V))" "codec_faithful (ce_codec (wi_ctl V))" "cl_notifier c"
    and "int64 (version (ctl_of a'))"
  shows "ag_cache a' = NoticeVersion (version (ctl_of a')) (ag_cache a) \<and> 0 < version (ctl_of a')"
proof -
  let ?w = "ce_world (wi_ctl V)" and ?cd = "ce_codec (wi_ctl V)"
  obtain resp s' where sv: "served V (results_http c pl) (ag_net a) = (resp, s')" by fastforce
  have url: "wi_url_err V (cl_base c @ ''/api/v1/results'') = None"
    using assms(1) by (auto simp: Send_def wire_env_def outcome_defs split: option.splits)
  have fate: "wi_fate V (nw_count (ag_net a)) = Deliver"
    using assms(1) url
    by (cases "wi_fate V (nw_count (ag_net a))") (auto simp: Send_def wire_env_def transmit_def outcome_defs Let_def)
  have st: "rs_status resp \<in> {200..<300} \<or> rs_status resp = 409"
    and a': "nw_server (ag_net a') = s'"
      "a' = notifyVersion (wire_env V) c (take 4096 (json_body ?cd (rs_body resp))) (a\<lparr>ag_net := ag_net a'\<rparr>)"
    using assms(1) url fate sv
    by (auto simp: Send_def wire_env_def transmit_def outcome_defs to_reply_def Let_def split: if_splits)
  have "rs_body resp = BStatus (Some (version (sv_db s'))) \<and> 0 < version (sv_db s')"
  proof -
    let ?s = "server_at V (ag_net a)"
    let ?begun = "?s\<lparr>sv_db := (sv_db ?s)\<lparr>cd_calls := Suc (cd_calls (sv_db ?s))\<rparr>\<rparr>"
    have inv: "ctl_inv (sv_db ?s)" using wire_ok_at(1) [OF assms(2)] by (simp add: well_def)
    have b: "bearerAuth ?w (handleResults ?w ?cd) (to_request V (results_http c pl)) ?begun = (resp, s')"
      using sv served_results [of c V pl "ag_net a"] assms(2) by (simp add: wire_ok_def Let_def)
    from b show ?thesis
    proof (cases rule: bearerAuth_cases)
      case (passed nd n)
      from passed(3) show ?thesis
      proof (cases rule: handleResults_cases)
        case (ingested req k s1 db0 db1 t)
        have i0: "ctl_inv db0" using ctl_inv_same [OF ingested(3)] inv by (simp add: ctl_inv_def)
        then have i1: "ctl_inv (sv_db s1)" using ctl_inv_persistResults [OF _ ingested(4)] ingested(5) by simp
        note fin = finish_results_effect [OF ingested(6)]
        have "version (sv_db s') = version (sv_db s1)" using version_meta [OF fin(4)] .
        moreover have "0 < version (sv_db s1)" using i1 by (auto simp: ctl_inv_def version_def)
        moreover have "rs_body resp = BStatus (Some (version (sv_db s1)))"
          using fin(1) fin(9) [OF assms(3) i1] st by (auto split: if_splits)
        ultimately show ?thesis by simp
      qed (use st in auto)
    qed (use st in auto)
  qed
  then show ?thesis
    using arg_cong [OF a'(2), of ag_cache] a'(1) assms(4-6)
    by (simp add: notifyVersion_def codec_faithful_def wire_env_def)
qed

definition target_of :: "node \<Rightarrow> target" where
  "target_of h = \<lparr>tg_ID = nd_ID h, tg_Address = nd_Address h\<rparr>"

text \<open>Whether the credentials a cache sends are those of a registered node.\<close>

definition enrolled :: "target_cache \<Rightarrow> server \<Rightarrow> bool" where
  "enrolled tc s \<longleftrightarrow> tc_nodeID tc \<noteq> [] \<and> tc_secret tc \<noteq> [] \<and>
     (case registry (sv_db s) (tc_nodeID tc) of None \<Rightarrow> False | Some nd \<Rightarrow> VerifySecret nd (trim_space (tc_secret tc)))"

definition utf8_hub :: "node \<Rightarrow> bool" where
  "utf8_hub h \<longleftrightarrow> valid_utf8 (nd_ID h) \<and> valid_utf8 (nd_Address h)"

lemma fetch_delivers:
  assumes "wi_url_err V (tc_base tc @ ''/api/v1/targets'') = None" "tc_base tc = wi_base V"
    and "wi_fate V (nw_count net) = Deliver" "faultless (ce_world (wi_ctl V))" "codec_faithful (ce_codec (wi_ctl V))"
    and "enrolled tc (server_at V net)" "ctl_inv (sv_db (server_at V net))" "int64 (version (sv_db (server_at V net)))"
    and "list_all utf8_hub (hub_list (tc_nodeID tc) (sv_db (server_at V net)))"
  shows "\<exists>net'. fetch (wire_env V) tc net =
    (Inr (map target_of (hub_list (tc_nodeID tc) (sv_db (server_at V net))), version (sv_db (server_at V net))), net')"
proof -
  let ?w = "ce_world (wi_ctl V)" and ?s = "server_at V net"
  let ?begun = "?s\<lparr>sv_db := (sv_db ?s)\<lparr>cd_calls := Suc (cd_calls (sv_db ?s))\<rparr>\<rparr>"
  define hq where "hq = \<lparr>hq_method = ''GET'', hq_url = tc_base tc @ ''/api/v1/targets'',
    hq_header = [(''X-NLM-Node-Id'', tc_nodeID tc), (''Authorization'', ''Bearer '' @ tc_secret tc)], hq_body = []\<rparr>"
  let ?r = "to_request V hq"
  obtain nd where nd: "registry (sv_db ?s) (tc_nodeID tc) = Some nd" "VerifySecret nd (trim_space (tc_secret tc))"
    "tc_nodeID tc \<noteq> []" "tc_secret tc \<noteq> []"
    using assms(6) by (auto simp: enrolled_def split: option.splits)
  have "nd_ID nd = tc_nodeID tc" using nd(1) find_node_Some by (auto simp: registry_def node_of_def)
  have hd: "sender ?r = tc_nodeID tc" "rq_header ?r ''Authorization'' = ''Bearer '' @ tc_secret tc"
    by (simp_all add: hq_def to_request_def header_get_def)
  have "authenticates ?r ?begun = Some nd"
    using nd hd parseBearer_token [OF nd(4)] registry_nodes [of "sv_db ?begun" "sv_db ?s"]
    by (simp add: authenticates_code)
  then obtain n where b: "bearerAuth ?w (handleTargets ?w) ?r ?begun =
      handleTargets ?w (Some nd) ?r (?begun\<lparr>sv_db := sv_db ?begun\<lparr>cd_calls := n\<rparr>\<rparr>)"
    using bearerAuth_passes [OF assms(4)] by blast
  let ?db = "(sv_db ?begun)\<lparr>cd_calls := n\<rparr>"
  have same: "hub_list i ?db = hub_list i (sv_db ?s)" "version ?db = version (sv_db ?s)" for i
    by (simp_all add: hub_list_def hub_rows_def version_def)
  obtain db' where h: "HubTargetsFor ?w (nd_ID nd) ?db = (Inr (hub_list (nd_ID nd) ?db, version ?db), db')"
    using HubTargetsFor_faultless [OF assms(4), of ?db "nd_ID nd"] assms(7) by (auto simp: ctl_inv_def)
  have "fst (served V hq net) = writeJSON 200 (BTargets (map (\<lambda>h. \<lparr>te_ID = nd_ID h, te_Address = nd_Address h\<rparr>)
      (hub_list (tc_nodeID tc) (sv_db ?s))) (version (sv_db ?s)))"
  proof -
    have "served V hq net = bearerAuth ?w (handleTargets ?w) ?r ?begun"
      using assms(2)
      by (simp add: served_def Handler_def routes_def agent_routes_def match_method_def Let_def to_request_def hq_def)
    also have "fst \<dots> = writeJSON 200 (BTargets (map (\<lambda>h. \<lparr>te_ID = nd_ID h, te_Address = nd_Address h\<rparr>)
      (hub_list (tc_nodeID tc) (sv_db ?s))) (version (sv_db ?s)))"
      unfolding b using h same \<open>nd_ID nd = tc_nodeID tc\<close> by (simp add: handleTargets_def on_db_def)
    finally show ?thesis .
  qed
  moreover have "list_all utf8_entry (map (\<lambda>h. \<lparr>te_ID = nd_ID h, te_Address = nd_Address h\<rparr>) (hub_list (tc_nodeID tc) (sv_db ?s)))"
    using assms(9) by (simp add: list_all_iff utf8_hub_def utf8_entry_def)
  ultimately show ?thesis
    using assms(1,3,5,8) unfolding hq_def
    by (simp add: fetch_def wire_env_def transmit_def to_reply_def codec_faithful_def comp_def target_of_def Let_def)
qed

text \<open>C2: a change of the hubs reaches the agents with their next delivery. When a delivery is accepted by a
  controller whose hub version is not the one the agent's cache knows, the agent's next \<open>Targets\<close>, if it
  reaches the controller, returns exactly the list of enabled hubs (other than the node itself) that the
  controller has at that time, with its version. The names and addresses of the hubs are valid UTF-8: JSON
  carries nothing else.\<close>

theorem hub_change_reaches_agent:
  assumes "Send (wire_env V) c a run pl = ((OutcomeAccepted, e), a')" "wire_ok V c plan a"
    and "faultless (ce_world (wi_ctl V))" "codec_faithful (ce_codec (wi_ctl V))" "cl_notifier c"
    and "int64 (version (ctl_of a'))" "version (ctl_of a') \<noteq> tc_knownVersion (ag_cache a)"
    and "sane_payload V c plan run pl" "tc_base (ag_cache a) = wi_base V"
    and "wi_url_err V (wi_base V @ ''/api/v1/targets'') = None" "wi_fate V (nw_count (ag_net a')) = Deliver"
    and "enrolled (ag_cache a) (server_at V (ag_net a'))" "int64 (version (sv_db (server_at V (ag_net a'))))"
    and "list_all utf8_hub (hub_list (tc_nodeID (ag_cache a)) (sv_db (server_at V (ag_net a'))))"
  shows "fst (cache_Targets (wire_env V) a') =
    (map target_of (hub_list (tc_nodeID (ag_cache a)) (sv_db (server_at V (ag_net a')))),
     version (sv_db (server_at V (ag_net a'))), None)"
proof -
  note nv = accepted_notices_version [OF assms(1-6)]
  let ?tc = "ag_cache a'"
  have sel: "tc_base ?tc = wi_base V" "tc_nodeID ?tc = tc_nodeID (ag_cache a)" "tc_secret ?tc = tc_secret (ag_cache a)"
    using nv assms(9) by (auto simp: NoticeVersion_def)
  have "ctl_inv (sv_db (server_at V (ag_net a')))"
    using wire_ok_at(1) [OF Send_wire_effect(1) [OF assms(2,8,1)]] by (simp add: well_def)
  moreover have "enrolled ?tc (server_at V (ag_net a'))" using assms(12) unfolding enrolled_def sel .
  ultimately obtain net' where f: "fetch (wire_env V) ?tc (ag_net a') =
      (Inr (map target_of (hub_list (tc_nodeID ?tc) (sv_db (server_at V (ag_net a')))),
            version (sv_db (server_at V (ag_net a')))), net')"
    using fetch_delivers [of V ?tc "ag_net a'"] assms(3,4,10,11,13,14) sel(1,2) by auto
  have "needs_refresh now ?tc" for now
    using nv assms(7) by (simp add: needs_refresh_def NoticeVersion_def)
  then show ?thesis using f sel by (simp add: cache_Targets_def)
qed

text \<open>A codec with the promised behaviour: numbers in decimal, lists of strings with unary lengths.\<close>

definition enc_str :: "string \<Rightarrow> string" where
  "enc_str s = replicate (length s) (CHR ''1'') @ CHR ''0'' # s"

definition dec_str :: "string \<Rightarrow> string \<times> string" where
  "dec_str t = (let n = length (takeWhile (\<lambda>c. c = CHR ''1'') t); rest = drop (Suc n) t in (take n rest, drop n rest))"

lemma dec_enc_str: "dec_str (enc_str s @ u) = (s, u)"
proof -
  have "takeWhile (\<lambda>c. c = CHR ''1'') (replicate n (CHR ''1'') @ CHR ''0'' # v) = replicate n (CHR ''1'')" for n v
    by (induction n) auto
  then have "takeWhile (\<lambda>c. c = CHR ''1'') (enc_str s @ u) = replicate (length s) (CHR ''1'')"
    by (simp add: enc_str_def)
  then show ?thesis by (simp add: dec_str_def enc_str_def)
qed

fun enc_targets :: "target_entry list \<Rightarrow> string" where
  "enc_targets [] = ''0''"
| "enc_targets (t # ts) = CHR ''1'' # enc_str (te_ID t) @ enc_str (te_Address t) @ enc_targets ts"

fun dec_targets :: "nat \<Rightarrow> string \<Rightarrow> target_entry list \<times> string" where
  "dec_targets 0 s = ([], s)"
| "dec_targets (Suc k) s =
     (case s of
        [] \<Rightarrow> ([], s)
      | c # r \<Rightarrow>
          if c \<noteq> CHR ''1'' then ([], r)
          else (let (i, r1) = dec_str r; (a, r2) = dec_str r1; (ts, r3) = dec_targets k r2
                in (\<lparr>te_ID = i, te_Address = a\<rparr> # ts, r3)))"

lemma dec_enc_targets: "length ts < k \<Longrightarrow> dec_targets k (enc_targets ts @ u) = (ts, u)"
proof (induction ts arbitrary: k)
  case Nil
  then show ?case by (cases k) simp_all
next
  case (Cons t ts)
  then obtain j where "k = Suc j" "length ts < j" by (cases k) auto
  then show ?case using Cons.IH [of j] by (simp add: dec_enc_str)
qed

definition echo_codec :: codec where
  "echo_codec = sample_codec
     \<lparr>json_body := (\<lambda>b. case b of BStatus (Some v) \<Rightarrow> itoa v
                     | BTargets es v \<Rightarrow> enc_targets es @ itoa v | _ \<Rightarrow> []),
      json_targets := (\<lambda>b. case dec_targets (Suc (length b)) b of (es, r) \<Rightarrow>
                     (case atoi r of Inr v \<Rightarrow> Inr (es, v) | Inl _ \<Rightarrow> Inl ''syntax''))\<rparr>"

lemma length_enc_targets: "length ts < length (enc_targets ts)"
  by (induction ts) auto

lemma nat_digits_length: "n < 10 ^ Suc k \<Longrightarrow> length (nat_digits n) \<le> Suc k"
proof (induction k arbitrary: n)
  case 0
  then show ?case by (simp add: nat_digits.simps [of n])
next
  case (Suc k)
  then have "n div 10 < 10 ^ Suc k" by (simp add: less_mult_imp_div_less)
  then show ?case using Suc.IH by (simp add: nat_digits.simps [of n])
qed

lemma itoa_short:
  assumes "int64 v"
  shows "take 4096 (itoa v) = itoa v" "itoa v \<noteq> []"
proof -
  have "nat v < 10 ^ Suc 19" "nat (- v) < 10 ^ Suc 19" using assms by (auto simp: int64_def)
  then have "length (nat_digits (nat v)) \<le> 20" "length (nat_digits (nat (- v))) \<le> 20"
    using nat_digits_length [of _ 19] by auto
  then show "take 4096 (itoa v) = itoa v" by (simp add: itoa_def)
  show "itoa v \<noteq> []" using nat_digits_val by (simp add: itoa_def)
qed

lemma echo_codec_faithful: "codec_faithful echo_codec"
  unfolding codec_faithful_def
proof (intro conjI allI impI)
  fix v assume v: "int64 v"
  show "json_body echo_codec (BStatus (Some v)) \<noteq> []" using itoa_short(2) [OF v] by (simp add: echo_codec_def)
  show "json_version echo_codec (take 4096 (json_body echo_codec (BStatus (Some v)))) = Some v"
    using itoa_short(1) [OF v] atoi_itoa [OF v] by (simp add: echo_codec_def sample_codec_def)
next
  fix es v assume "int64 v \<and> list_all utf8_entry es"
  then have v: "int64 v" by simp
  have "length es < Suc (length (enc_targets es) + length (itoa v))" using length_enc_targets [of es] by simp
  then show "json_targets echo_codec (json_body echo_codec (BTargets es v)) = Inr (es, v)"
    using dec_enc_targets [of es _ "itoa v"] atoi_itoa [OF v]
    by (simp add: echo_codec_def del: dec_targets.simps)
qed

text \<open>The sample node with a secret of its own, and a second hub.\<close>

definition two_hubs :: ctl_db where
  "two_hubs = ctl_init\<lparr>cd_nodes := [set_node (sample_hub\<lparr>nd_SecretHash := HashSecret ''s''\<rparr>) (fresh_node_row ''9'' ''h1''),
     set_node (sample_hub\<lparr>nd_Address := ''b:2''\<rparr>) (fresh_node_row ''9'' ''h2'')]\<rparr>"

definition echo_wire :: wire where
  "echo_wire = sample_wire\<lparr>wi_fate := (\<lambda>_. Deliver), wi_ctl := (wi_ctl sample_wire)\<lparr>ce_codec := echo_codec\<rparr>\<rparr>"

definition two_hubs_agent :: "network agent_net" where
  "two_hubs_agent = sample_agent\<lparr>ag_net := \<lparr>nw_server = server_New two_hubs, nw_count = 0\<rparr>\<rparr>"

lemma two_hubs_well: "well two_hubs"
  by (auto simp: well_def ctl_inv_def two_hubs_def ctl_init_def hubs_addressed_def registry_def find_node_def
      fresh_node_row_def set_node_def sample_hub_def node_of_def ran_def split: if_splits)

lemma echo_wire_ok: "wire_ok echo_wire sample_client (\<lambda>_. sample_request) two_hubs_agent"
  using sample_wire_ok two_hubs_well
  by (simp add: wire_ok_def echo_wire_def sample_wire_def two_hubs_agent_def runs_whole_def batch_touched_def
      key_taken_def server_New_def NewWithOptions_def default_options_def)
    (simp add: two_hubs_def ctl_init_def)

lemma two_hubs_lists: "map target_of (hub_list ''h1'' two_hubs) = [\<lparr>tg_ID = ''h2'', tg_Address = ''b:2''\<rparr>]" "version two_hubs = 1"
  by (simp_all add: two_hubs_def hub_list_def hub_rows_def hub_row_def hub_node_def target_of_def zero_node_def
      set_node_def fresh_node_row_def sample_hub_def ctl_init_def version_def)

lemma two_hubs_results:
  assumes "bearerAuth sample_world (handleResults sample_world cd) r s = (resp, s')" "sv_db s = two_hubs\<lparr>cd_calls := k\<rparr>"
    and "sender r = ''h1''" "rq_header r ''Authorization'' = ''Bearer s''" "json_results cd (rq_body r) = Inr sample_request"
    and "\<not> ingest_stuck ''h1'' sample_request s"
  shows "rs_status resp = 201" "registry (sv_db s') = registry two_hubs"
    "hub_list x (sv_db s') = hub_list x two_hubs" "version (sv_db s') = version two_hubs"
proof -
  let ?nd = "sample_hub\<lparr>nd_SecretHash := HashSecret ''s''\<rparr>"
  have "registry (sv_db s) ''h1'' = Some ?nd"
    by (simp add: assms(2) registry_def two_hubs_def find_node_def set_node_def fresh_node_row_def node_of_def sample_hub_def)
  moreover have "parseBearer ''Bearer s'' = Some ''s''" by code_simp
  ultimately have "authenticates r s = Some ?nd" using assms(3,4) by (simp add: authenticates_code)
  then obtain n where h: "handleResults sample_world cd (Some ?nd) r (s\<lparr>sv_db := sv_db s\<lparr>cd_calls := n\<rparr>\<rparr>) = (resp, s')"
    using bearerAuth_passes [OF sample_world_faultless] assms(1) by metis
  have "validateResultsRequest (nd_ID ?nd) sample_request = None"
    by (simp add: validateResultsRequest_def sample_request_def sample_hub_def time_is_zero_def)
  then have st: "rs_status resp = 201"
    using handleResults_fresh [OF sample_world_faultless assms(5), of ?nd "s\<lparr>sv_db := sv_db s\<lparr>cd_calls := n\<rparr>\<rparr>"] h
    by (simp add: assms(2,6) key_taken_def two_hubs_def ctl_init_def fresh_node_row_def sample_hub_def)
  show "rs_status resp = 201" by (rule st)
  from h show "registry (sv_db s') = registry two_hubs" "hub_list x (sv_db s') = hub_list x two_hubs"
    "version (sv_db s') = version two_hubs"
  proof (atomize(full), cases rule: handleResults_cases)
    case (ingested req st s1 db0 db1 t)
    note fin = finish_results_effect [OF ingested(6)]
    have n: "cd_nodes db1 = cd_nodes db0 \<and> cd_meta db1 = cd_meta db0"
      using ingested(4) by (cases rule: persistResults_cases) (auto simp: same_ctl_def appends_def)
    then have "cd_nodes db1 = cd_nodes two_hubs" "cd_meta db1 = cd_meta two_hubs"
      using ingested(3) assms(2) by (simp_all add: same_ctl_def)
    then show "registry (sv_db s') = registry two_hubs \<and> hub_list x (sv_db s') = hub_list x two_hubs \<and>
        version (sv_db s') = version two_hubs"
      using fin(5) fin(7) [of x] version_meta [OF fin(4)] ingested(5) registry_nodes [of db1 two_hubs]
        hub_list_same [of db1 two_hubs x] version_meta [of db1 two_hubs] by simp
  qed (use st in simp_all)
qed

theorem hub_change_reaches_agent_witness:
  "\<exists>a'. Send (wire_env echo_wire) sample_client two_hubs_agent ''run'' ''p'' = ((OutcomeAccepted, None), a') \<and>
     fst (cache_Targets (wire_env echo_wire) a') = ([\<lparr>tg_ID = ''h2'', tg_Address = ''b:2''\<rparr>], 1, None)"
proof -
  let ?hq = "results_http sample_client ''p''"
  let ?s = "server_New two_hubs"
  have at: "server_at echo_wire net = nw_server net" for net
    by (simp add: server_at_def echo_wire_def sample_wire_def)
  have cl: "cl_base sample_client = ''http://c''" "cl_nodeID sample_client = ''h1''" "cl_secret sample_client = ''s''"
    "cl_notifier sample_client"
    by (simp_all add: sample_client_def SetVersionNotifier_def NewClient_def trim_right_slash_def)
  have sel: "wi_base echo_wire = ''http://c''" "ce_world (wi_ctl echo_wire) = sample_world"
    "ce_codec (wi_ctl echo_wire) = echo_codec" "wi_fate echo_wire n = Deliver" "wi_url_err echo_wire u = None"
    "sv_db ?s = two_hubs" for n u
    by (simp_all add: echo_wire_def sample_wire_def server_New_def NewWithOptions_def)
  have ag: "nw_server (ag_net two_hubs_agent) = ?s"
    "ag_cache two_hubs_agent = NewTargetCache ''http://c/'' ''h1'' ''s'' 10 300"
    by (simp_all add: two_hubs_agent_def sample_agent_def)
  obtain resp s' where sv: "served echo_wire ?hq (ag_net two_hubs_agent) = (resp, s')" by fastforce
  have b: "bearerAuth sample_world (handleResults sample_world echo_codec) (to_request echo_wire ?hq)
      (?s\<lparr>sv_db := two_hubs\<lparr>cd_calls := Suc (cd_calls two_hubs)\<rparr>\<rparr>) = (resp, s')"
    using sv served_results [of sample_client echo_wire "''p''" "ag_net two_hubs_agent"]
    by (simp add: at ag sel cl Let_def)
  note res = two_hubs_results [OF b, of "Suc (cd_calls two_hubs)"]
  have pre: "sender (to_request echo_wire ?hq) = ''h1''"
    "rq_header (to_request echo_wire ?hq) ''Authorization'' = ''Bearer s''"
    "json_results echo_codec (rq_body (to_request echo_wire ?hq)) = Inr sample_request"
    "\<not> ingest_stuck ''h1'' sample_request (?s\<lparr>sv_db := d\<rparr>)" for d
    by (simp_all add: to_request_def results_http_def header_get_def cl echo_codec_def sample_codec_def)
  obtain e a' where sd: "Send (wire_env echo_wire) sample_client two_hubs_agent ''run'' ''p'' = ((OutcomeAccepted, e), a')"
    "e = None" "nw_server (ag_net a') = s'"
    using sv res(1) pre
    by (simp add: Send_def wire_env_def transmit_def to_reply_def sel Let_def)
  have sane: "sane_payload echo_wire sample_client (\<lambda>_. sample_request) ''run'' ''p''"
    by (simp add: sane_payload_def sel echo_codec_def sample_codec_def sample_request_def cl)
  have v: "version (ctl_of a') = 1" using res(4) pre sd(3) two_hubs_lists(2) by simp
  have en: "enrolled (ag_cache two_hubs_agent) (server_at echo_wire (ag_net a'))"
    using res(2) pre sd(3)
    by (simp add: enrolled_def at ag NewTargetCache_def)
      (simp add: registry_def two_hubs_def find_node_def set_node_def fresh_node_row_def node_of_def trim_space_def
        go_space_def)
  have utf8: "list_all utf8_hub (hub_list ''h1'' two_hubs)"
    by (simp add: two_hubs_def hub_list_def hub_rows_def hub_row_def hub_node_def zero_node_def set_node_def
        fresh_node_row_def sample_hub_def utf8_hub_def cont_byte_def)
  from hub_change_reaches_agent [OF sd(1) echo_wire_ok, unfolded at] show ?thesis
    using v en sane sd utf8 res(3) [of "''h1''"] pre two_hubs_lists echo_codec_faithful
    by (simp add: at sel cl ag NewTargetCache_def trim_right_slash_def int64_def)
qed

end
