(* ===== verification/Templates.thy ===== *)
theory Templates
  imports Routes
begin

text \<open>
  The HTML of the browser UI: the components that \<open>templ\<close> generates (\<open>internal/ui/*_templ.go\<close>), with their
  fixed texts, the places where data goes in, and the early return after every failing write; and the
  script of the dashboard that updates the cells of the latency matrix from the WebSocket messages.
  Texts are bytes; characters beyond ASCII are written in UTF-8.
\<close>

section \<open>The templ runtime\<close>

text \<open>What the generated code takes from \<open>templ\<close> and from its surroundings: \<open>EscapeString\<close>, the value of
  a class attribute and the style element for a class (both for a class given as a string), the state of the
  context at an operation, and the error of a write, by the number of the operation.\<close>

record render_env =
  re_escape :: "string \<Rightarrow> string"
  re_classes :: "string \<Rightarrow> string"
  re_css_items :: "string \<Rightarrow> string"
  re_ctx :: "nat \<Rightarrow> string option"
  re_write :: "nat \<Rightarrow> string option"

record buffer =
  bf_text :: string
  bf_ops :: nat

text \<open>A component writes into a buffer and returns an error or none.\<close>

type_synonym component = "buffer \<Rightarrow> string option \<times> buffer"

definition WriteString :: "render_env \<Rightarrow> string \<Rightarrow> component" where
  "WriteString E s b =
     (case re_write E (bf_ops b) of
        Some e \<Rightarrow> (Some e, b\<lparr>bf_ops := Suc (bf_ops b)\<rparr>)
      | None \<Rightarrow> (None, \<lparr>bf_text = bf_text b @ s, bf_ops = Suc (bf_ops b)\<rparr>))"

definition WriteEscaped :: "render_env \<Rightarrow> string \<Rightarrow> component" where
  "WriteEscaped E s = WriteString E (re_escape E s)"

text \<open>Statement after statement, each followed by \<open>if err != nil { return err }\<close>.\<close>

fun block :: "component list \<Rightarrow> component" where
  "block [] b = (None, b)"
| "block (c # cs) b = (case c b of (Some e, b1) \<Rightarrow> (Some e, b1) | (None, b1) \<Rightarrow> block cs b1)"

text \<open>A component looks at its context first. Nested components share the buffer of the outermost one.\<close>

definition GeneratedTemplate :: "render_env \<Rightarrow> component \<Rightarrow> component" where
  "GeneratedTemplate E c b =
     (case re_ctx E (bf_ops b) of
        Some e \<Rightarrow> (Some e, b\<lparr>bf_ops := Suc (bf_ops b)\<rparr>)
      | None \<Rightarrow> c (b\<lparr>bf_ops := Suc (bf_ops b)\<rparr>))"

text \<open>The outermost component releases its buffer to the connection, also after an error; nothing is said
  about what arrives when that fails.\<close>

definition Render :: "render_env \<Rightarrow> component \<Rightarrow> string option \<times> string" where
  "Render E c =
     (case c \<lparr>bf_text = [], bf_ops = 0\<rparr> of (err, b) \<Rightarrow>
       (case re_write E (bf_ops b) of
          None \<Rightarrow> (err, bf_text b)
        | Some e \<Rightarrow> (case err of None \<Rightarrow> (Some e, []) | Some e1 \<Rightarrow> (Some e1, []))))"

text \<open>\<open>html.EscapeString\<close> of the standard library, which \<open>templ.EscapeString\<close> is.\<close>

definition html_escape_char :: "char \<Rightarrow> string" where
  "html_escape_char c =
     (if c = CHR ''<'' then ''&lt;'' else if c = CHR ''>'' then ''&gt;'' else if c = CHR ''&'' then ''&amp;''
      else if c = CHR 0x27 then ''&#39;'' else if c = CHR 0x22 then ''&#34;'' else [c])"

definition html_EscapeString :: "string \<Rightarrow> string" where
  "html_EscapeString s = concat (map html_escape_char s)"

section \<open>Formatting\<close>

text \<open>\<open>fmt\<close>'s verb \<open>%.1f\<close>: the exact value rounded to one decimal, a tie to the even digit.\<close>

definition round_half_even :: "rat \<Rightarrow> int" where
  "round_half_even x =
     (let f = \<lfloor>x\<rfloor>; d = x - of_int f in
      if d < 1 / 2 then f else if d > 1 / 2 then f + 1 else if even f then f else f + 1)"

definition fmt_1f :: "rat \<Rightarrow> string" where
  "fmt_1f x =
     (let n = round_half_even (\<bar>x\<bar> * 10) in
      (if x < 0 then ''-'' else []) @ itoa (n div 10) @ ''.'' @ itoa (n mod 10))"

definition cell_title :: "matrix_entry \<Rightarrow> string" where
  "cell_title e =
     ''avg '' @ fmt_1f (me_AvgLatMS e) @ '' ms  min '' @ fmt_1f (me_MinLatMS e) @
     ''  max '' @ fmt_1f (me_MaxLatMS e) @ ''  n='' @ itoa (me_Samples e)"

section \<open>Layout and login\<close>

definition layout :: "render_env \<Rightarrow> string \<Rightarrow> component \<Rightarrow> component" where
  "layout E title children =
     GeneratedTemplate E (block
       [WriteString E (''<!doctype html><html lang=\"en\"><head><meta charset=\"UTF-8\"><meta name=\"viewport\" content=\"width=device-width, '' @
        ''initial-scale=1.0\"><title>''),
        WriteEscaped E title,
        WriteString E ('' '' @ [CHR 0xE2, CHR 0x80, CHR 0x93] @
        '' NLM</title><link rel=\"stylesheet\" href=\"/static/style.css\"><script src=\"https://unpkg.com/htmx.org@2.0.4/dist/htmx.min.js\" '' @
        ''defer></script></head><body><nav class=\"nav\"><a href=\"/ui/\" class=\"nav-brand\">NLM</a>'' @
        '' <a href=\"/ui/\">Dashboard</a> <a href=\"/ui/nodes\">Nodes</a><form method=\"POST\" action=\"/ui/logout\" '' @
        ''class=\"nav-form\"><button type=\"submit\" class=\"nav-logout\">Logout</button></form></nav>'' @
        ''<main>''),
        children,
        WriteString E ''</main></body></html>''])"

definition Login :: "render_env \<Rightarrow> string \<Rightarrow> component" where
  "Login E errMsg =
     GeneratedTemplate E (block
       [WriteString E (''<!doctype html><html lang=\"en\"><head><meta charset=\"UTF-8\"><meta name=\"viewport\" content=\"width=device-width, '' @
        ''initial-scale=1.0\"><title>Login '' @ [CHR 0xE2, CHR 0x80, CHR 0x93] @
        '' NLM</title><link rel=\"stylesheet\" href=\"/static/style.css\"></head><body class=\"login-body\">'' @
        ''<div class=\"login-card\"><h1>NetLatencyMonitor</h1><p class=\"subtitle\">Enter your admin '' @
        ''token to continue.</p>''),
        (if errMsg \<noteq> [] then block
           [WriteString E ''<div class=\"alert alert-error\">'',
            WriteEscaped E errMsg,
            WriteString E ''</div>'']
         else block []),
        WriteString E (''<form method=\"POST\" action=\"/ui/login\"><label>Admin Token <input type=\"password\" name=\"token\" '' @
        ''autofocus required></label> <button type=\"submit\" class=\"btn-primary btn-full\">Sign in</button>'' @
        ''</form></div></body></html>'')])"

section \<open>The dashboard\<close>

definition cellID :: "string \<Rightarrow> string \<Rightarrow> string" where
  "cellID src dst = ''cell-'' @ src @ ''-'' @ dst"

definition matrixCell :: "render_env \<Rightarrow> matrix_entry option \<Rightarrow> string \<Rightarrow> string \<Rightarrow> component" where
  "matrixCell E me src dst =
     GeneratedTemplate E
       (case me of
          None \<Rightarrow> block
            [WriteString E ''<td id=\"'',
             WriteEscaped E (cellID src dst),
             WriteString E ''\" class=\"cell-unknown\">?</td>'']
        | Some e \<Rightarrow>
            (if me_HasError e then block
               [WriteString E ''<td id=\"'',
                WriteEscaped E (cellID src dst),
                WriteString E (''\" class=\"cell-error\" title=\"probe error\">'' @ [CHR 0xE2, CHR 0x9C, CHR 0x95] @ ''</td>'')]
             else block
               [WriteString E (re_css_items E (cellClass (me_AvgLatMS e))),
                WriteString E ''<td id=\"'',
                WriteEscaped E (cellID src dst),
                WriteString E ''\" class=\"'',
                WriteEscaped E (re_classes E (cellClass (me_AvgLatMS e))),
                WriteString E ''\" title=\"'',
                WriteEscaped E (cell_title e),
                WriteString E ''\">'',
                WriteEscaped E (fmt_1f (me_AvgLatMS e)),
                WriteString E ''</td>'']))"

definition MatrixTable :: "render_env \<Rightarrow> latency_matrix \<Rightarrow> component" where
  "MatrixTable E m =
     GeneratedTemplate E (block
       [WriteString E ''<div id=\"matrix-wrap\" hx-get=\"/ui/frag/matrix\" hx-trigger=\"every 30s\" hx-swap=\"outerHTML\">'',
        (if length (lm_Nodes m) = 0 then
           WriteString E (''<p class=\"empty\">No hub nodes yet. <a href=\"/ui/nodes\">Add one '' @
        [CHR 0xE2, CHR 0x86, CHR 0x92] @ ''</a></p>'')
         else block
           [WriteString E (''<table class=\"matrix\"><thead><tr><th class=\"corner\">from '' @ [CHR 0xE2, CHR 0x95, CHR 0xB2] @
        '' to</th>''),
            block (map (\<lambda>n. block
              [WriteString E ''<th>'', WriteEscaped E n, WriteString E ''</th>'']) (lm_Nodes m)),
            WriteString E ''</tr></thead> <tbody>'',
            block (map (\<lambda>src. block
              [WriteString E ''<tr><td class=\"row-label\">'',
               WriteEscaped E src,
               WriteString E ''</td>'',
               block (map (\<lambda>dst.
                 if src = dst then
                   WriteString E (''<td class=\"cell-self\">'' @ [CHR 0xE2, CHR 0x80, CHR 0x94] @ ''</td>'')
                 else matrixCell E (LatencyMatrix_Get m src dst) src dst) (lm_Nodes m)),
               WriteString E ''</tr>'']) (lm_Nodes m)),
            WriteString E ''</tbody></table>'']),
        WriteString E ''</div>''])"

text \<open>The lines of the script, each with its indentation in tabs.\<close>

fun script_text :: "(nat \<times> string) list \<Rightarrow> string" where
  "script_text [] = []"
| "script_text [(k, l)] = replicate k (CHR 0x09) @ l"
| "script_text ((k, l) # ls) = replicate k (CHR 0x09) @ l @ CHR 0x0A # script_text ls"

definition ws_script :: string where
  "ws_script = script_text
     [(0, ''<script>''),
      (1, ''(function () {''),
      (2, ''var statusEl = document.getElementById('ws-status');''),
      (2, ''var dot = document.createElement('span');''),
      (2, ''dot.className = 'ws-dot';''),
      (2, ''dot.style.background = 'var(--unknown)';''),
      (0, ''''),
      (2, ''function setStatus(msg, color) {''),
      (3, ''dot.style.background = color || 'var(--unknown)';''),
      (3, (''statusEl.textContent = msg ? ' ' + msg : '' @ [CHR 0x27, CHR 0x27] @ '';'')),
      (3, ''statusEl.prepend(dot);''),
      (2, ''}''),
      (0, ''''),
      (2, ''var proto = location.protocol === 'https:' ? 'wss:' : 'ws:';''),
      (2, ''var ws = new WebSocket(proto + '//' + location.host + '/api/v1/ui/ws');''),
      (0, ''''),
      (2, (''ws.onopen = function () { setStatus('' @ [CHR 0x27, CHR 0x27] @ '', 'var(--good)'); };'')),
      (2, ''ws.onclose = function () { setStatus('disconnected', 'var(--bad)'); };''),
      (2, ''ws.onerror = function () { setStatus('error', 'var(--bad)'); };''),
      (0, ''''),
      (2, ''ws.onmessage = function (ev) {''),
      (3, ''var msg;''),
      (3, ''try { msg = JSON.parse(ev.data); } catch (_) { return; }''),
      (3, ''if (msg.type !== 'probe_result') return;''),
      (0, ''''),
      (3, ''var id = 'cell-' + msg.source_id + '-' + msg.target_id;''),
      (3, ''var cell = document.getElementById(id);''),
      (3, ''if (!cell) return;''),
      (0, ''''),
      (3, ''if (msg.error) {''),
      (4, (''cell.textContent = '' @ [CHR 0x27] @ [CHR 0xE2, CHR 0x9C, CHR 0x95] @ [CHR 0x27] @ '';'')),
      (4, ''cell.className = 'cell-error';''),
      (4, ''cell.title = 'probe error';''),
      (3, ''} else {''),
      (4, ''var ms = msg.latency_ms;''),
      (4, ''cell.textContent = ms.toFixed(1);''),
      (4, ''cell.className = ms < 10 ? 'cell-good' : ms < 50 ? 'cell-warn' : 'cell-bad';''),
      (4, ''cell.title = ms.toFixed(2) + ' ms';''),
      (3, ''}''),
      (2, ''};''),
      (1, ''})();''),
      (1, ''</script>'')]"

definition wsScript :: "render_env \<Rightarrow> component" where
  "wsScript E = GeneratedTemplate E (block [WriteString E ws_script])"

definition Dashboard :: "render_env \<Rightarrow> latency_matrix \<Rightarrow> component" where
  "Dashboard E m =
     GeneratedTemplate E (layout E ''Dashboard'' (block
       [WriteString E (''<div class=\"page-header\"><div><h1>Latency Matrix</h1><p class=\"subtitle\">TCP probe latency '' @
        ''between hub nodes (ms, 5-min avg). Updates in real-time.</p></div><span id=\"ws-status\" '' @
        ''class=\"ws-status\"></span></div><div class=\"matrix-scroll\">''),
        MatrixTable E m,
        WriteString E ''</div>'',
        wsScript E]))"

section \<open>The nodes page\<close>

definition enable_url :: "string \<Rightarrow> string" where
  "enable_url i = ''/ui/frag/nodes/'' @ i @ ''/enable''"

definition disable_url :: "string \<Rightarrow> string" where
  "disable_url i = ''/ui/frag/nodes/'' @ i @ ''/disable''"

definition delete_url :: "string \<Rightarrow> string" where
  "delete_url i = ''/ui/frag/nodes/'' @ i"

text \<open>The two buttons at the end of a row.\<close>

definition toggle_button :: "render_env \<Rightarrow> node_info \<Rightarrow> component" where
  "toggle_button E n =
     (if ni_Disabled n then block
        [WriteString E ''<button class=\"btn-secondary btn-sm\" hx-patch=\"'',
         WriteEscaped E (enable_url (ni_ID n)),
         WriteString E ''\" hx-target=\"'',
         WriteEscaped E (''#node-'' @ ni_ID n),
         WriteString E ''\" hx-swap=\"outerHTML\">Enable</button> '']
      else block
        [WriteString E ''<button class=\"btn-danger btn-sm\" hx-patch=\"'',
         WriteEscaped E (disable_url (ni_ID n)),
         WriteString E ''\" hx-target=\"'',
         WriteEscaped E (''#node-'' @ ni_ID n),
         WriteString E ''\" hx-swap=\"outerHTML\">Disable</button> ''])"

definition delete_button :: "render_env \<Rightarrow> node_info \<Rightarrow> component" where
  "delete_button E n = block
     [WriteString E ''<button class=\"btn-danger btn-sm\" hx-delete=\"'',
      WriteEscaped E (delete_url (ni_ID n)),
      WriteString E ''\" hx-confirm=\"'',
      WriteEscaped E (''Delete node '' @ ni_ID n @ ''? This cannot be undone.''),
      WriteString E ''\" hx-target=\"'',
      WriteEscaped E (''#node-'' @ ni_ID n),
      WriteString E ''\" hx-swap=\"outerHTML\">Delete</button></td></tr>'']"

definition NodeRow :: "render_env \<Rightarrow> node_info \<Rightarrow> component" where
  "NodeRow E n =
     GeneratedTemplate E (block
       [WriteString E ''<tr id=\"'',
        WriteEscaped E (''node-'' @ ni_ID n),
        WriteString E ''\"><td class=\"mono\">'',
        WriteEscaped E (ni_ID n),
        WriteString E ''</td><td>'',
        WriteString E (re_css_items E (''badge badge-'' @ ni_Role n)),
        WriteString E ''<span class=\"'',
        WriteEscaped E (re_classes E (''badge badge-'' @ ni_Role n)),
        WriteString E ''\">'',
        WriteEscaped E (ni_Role n),
        WriteString E ''</span></td><td class=\"mono\">'',
        WriteEscaped E (ni_Address n),
        WriteString E ''</td><td>'',
        (if ni_Disabled n then
           WriteString E ''<span class=\"badge badge-disabled\">Disabled</span>''
         else
           WriteString E ''<span class=\"badge badge-active\">Active</span>''),
        WriteString E ''</td><td>'',
        WriteEscaped E (itoa (ni_SpoolDepth n)),
        WriteString E ''</td><td class=\"actions\">'',
        toggle_button E n,
        delete_button E n])"

definition NodesTable :: "render_env \<Rightarrow> node_info list \<Rightarrow> component" where
  "NodesTable E nodes =
     GeneratedTemplate E (block
       [WriteString E (''<div id=\"nodes-table-wrap\"><table class=\"nodes-table\"><thead><tr><th>ID</th><th>Role</th>'' @
        ''<th>Address</th><th>Status</th><th>Spool</th><th></th></tr></thead> <tbody>''),
        (if length nodes = 0 then
           WriteString E ''<tr><td colspan=\"6\" class=\"empty\">No nodes provisioned yet.</td></tr>''
         else block []),
        block (map (NodeRow E) nodes),
        WriteString E ''</tbody></table></div>''])"

definition Nodes :: "render_env \<Rightarrow> node_info list \<Rightarrow> string \<Rightarrow> component" where
  "Nodes E nodes secret =
     GeneratedTemplate E (layout E ''Nodes'' (block
       [WriteString E (''<div class=\"page-header\"><div><h1>Nodes</h1><p class=\"subtitle\">Manage agent nodes. Hub '' @
        ''nodes form the probe mesh.</p></div><button class=\"btn-primary\" hx-get=\"/ui/frag/nodes/new\" '' @
        ''hx-target=\"#create-slot\" hx-swap=\"innerHTML\">+ Add Node</button></div>''),
        (if secret \<noteq> [] then block
           [WriteString E (''<div class=\"secret-box\"><p>'' @ [CHR 0xE2, CHR 0x9A, CHR 0xA0] @ '' Save this secret '' @
        [CHR 0xE2, CHR 0x80, CHR 0x94] @ '' it will not be shown again.</p><span class=\"secret-value\">''),
            WriteEscaped E secret,
            WriteString E ''</span></div>'']
         else block []),
        WriteString E '' <div id=\"create-slot\"></div><div id=\"nodes-table-wrap\">'',
        NodesTable E nodes,
        WriteString E ''</div>'']))"

definition CreateNodeForm :: "render_env \<Rightarrow> component" where
  "CreateNodeForm E =
     GeneratedTemplate E (block
       [WriteString E (''<form class=\"create-form\" hx-post=\"/ui/frag/nodes\" hx-target=\"#nodes-table-wrap\" hx-swap=\"outerHTML\">'' @
        ''<h2>Add Node</h2><div class=\"form-row\"><label>ID <input type=\"text\" name=\"id\" placeholder=\"hub-nyc1\" '' @
        ''required></label> <label>Role <select name=\"role\"><option value=\"hub\">hub</option> <option '' @
        ''value=\"spoke\">spoke</option> <option value=\"listener\">listener</option></select></label>'' @
        '' <label>Address <small>(hub only, host:port)</small> <input type=\"text\" name=\"address\" '' @
        ''placeholder=\"203.0.113.1:8444\"></label> <label>Secret <small>(blank = auto-generate)</small>'' @
        '' <input type=\"text\" name=\"secret\" placeholder=\"auto\"></label></div><div class=\"form-actions\">'' @
        ''<button type=\"submit\" class=\"btn-primary\">Create</button> <button type=\"button\" class=\"btn-secondary\" '' @
        ''onclick=\"document.getElementById('create-slot').innerHTML='' @ [CHR 0x27, CHR 0x27] @
        ''\">Cancel</button></div></form>'')])"

section \<open>Requests of the row's buttons\<close>

text \<open>The path of a request for a URL: \<open>net/url\<close> cuts off the fragment and the query and decodes the percent
  signs; a bad escape is refused.\<close>

definition unhex :: "char \<Rightarrow> nat option" where
  "unhex c =
     (let n = of_char c :: nat in
      if 48 \<le> n \<and> n \<le> 57 then Some (n - 48)
      else if 97 \<le> n \<and> n \<le> 102 then Some (n - 87)
      else if 65 \<le> n \<and> n \<le> 70 then Some (n - 55)
      else None)"

fun path_unescape :: "string \<Rightarrow> string option" where
  "path_unescape [] = Some []"
| "path_unescape (c # cs) =
     (if c = CHR ''%'' then
        (case cs of
           x # y # rest \<Rightarrow>
             (case (unhex x, unhex y) of
                (Some h, Some l) \<Rightarrow> map_option ((#) (char_of (16 * h + l))) (path_unescape rest)
              | _ \<Rightarrow> None)
         | _ \<Rightarrow> None)
      else map_option ((#) c) (path_unescape cs))"

definition request_path :: "string \<Rightarrow> string option" where
  "request_path url = path_unescape (takeWhile (\<lambda>c. c \<notin> {CHR ''?'', CHR ''#''}) url)"

text \<open>The answer to a request that a browser makes for a URL of a page.\<close>

definition follow :: "ctl_env \<Rightarrow> string \<Rightarrow> handler" where
  "follow E url r s =
     (case request_path url of
        None \<Rightarrow> (writeJSON 400 (BText ''400 Bad Request''), s)
      | Some path \<Rightarrow> Handler E path r s)"

section \<open>What a handler's answer looks like on the wire\<close>

text \<open>The component of a page or fragment; the other bodies are not HTML.\<close>

fun page_of :: "render_env \<Rightarrow> body \<Rightarrow> component option" where
  "page_of E (BLogin msg) = Some (Login E msg)"
| "page_of E (BDashboard m) = Some (Dashboard E m)"
| "page_of E (BMatrixTable m) = Some (MatrixTable E m)"
| "page_of E (BNodesPage ns secret) = Some (Nodes E ns secret)"
| "page_of E BNodeForm = Some (CreateNodeForm E)"
| "page_of E (BNodeRow n) = Some (NodeRow E n)"
| "page_of E _ = None"

section \<open>The script of the dashboard\<close>

text \<open>An element of the table that has an id, in document order.\<close>

record cell =
  cl_id :: string
  cl_text :: string
  cl_class :: string
  cl_title :: string

text \<open>The cross that marks a failed probe.\<close>

definition cross :: string where
  "cross = [CHR 0xE2, CHR 0x9C, CHR 0x95]"

text \<open>The message as \<open>JSON.parse\<close> gives it: the two fields marked \<open>omitempty\<close> are missing when they have
  their zero value.\<close>

record message =
  ms_type :: string
  ms_source_id :: string
  ms_target_id :: string
  ms_latency_ms :: "rat option"
  ms_error :: "string option"

definition event_message :: "probe_event \<Rightarrow> message" where
  "event_message ev =
     \<lparr>ms_type = pe_Type ev, ms_source_id = pe_SourceID ev, ms_target_id = pe_TargetID ev,
      ms_latency_ms = (if pe_LatencyMS ev = 0 then None else Some (pe_LatencyMS ev)),
      ms_error = (if pe_Error ev = [] then None else Some (pe_Error ev))\<rparr>"

text \<open>\<open>Number.prototype.toFixed\<close> of a number below \<open>10\<^sup>2\<^sup>1\<close>: the nearest decimal, of two the larger.\<close>

definition padded :: "nat \<Rightarrow> string \<Rightarrow> string" where
  "padded k s = replicate (k - length s) (CHR ''0'') @ s"

definition toFixed :: "nat \<Rightarrow> rat \<Rightarrow> string" where
  "toFixed k x =
     (let n = \<lfloor>\<bar>x\<bar> * 10 ^ k + 1 / 2\<rfloor> in
      (if x < 0 then ''-'' else []) @ itoa (n div 10 ^ k) @ ''.'' @ padded k (itoa (n mod 10 ^ k)))"

fun update_first :: "('a \<Rightarrow> bool) \<Rightarrow> ('a \<Rightarrow> 'a) \<Rightarrow> 'a list \<Rightarrow> 'a list" where
  "update_first P f [] = []"
| "update_first P f (x # xs) = (if P x then f x # xs else x # update_first P f xs)"

definition live_class :: "rat \<Rightarrow> string" where
  "live_class ms = (if ms < 10 then ''cell-good'' else if ms < 50 then ''cell-warn'' else ''cell-bad'')"

text \<open>The first component is true when the handler throws: \<open>toFixed\<close> of an undefined latency.\<close>

definition onmessage :: "message \<Rightarrow> cell list \<Rightarrow> bool \<times> cell list" where
  "onmessage msg cells =
     (if ms_type msg \<noteq> ''probe_result'' then (False, cells)
      else
        (let i = ''cell-'' @ ms_source_id msg @ ''-'' @ ms_target_id msg; the_cell = (\<lambda>c. cl_id c = i) in
         if \<not> list_ex the_cell cells then (False, cells)
         else if (case ms_error msg of None \<Rightarrow> False | Some e \<Rightarrow> e \<noteq> [])
         then (False, update_first the_cell
                 (\<lambda>c. c\<lparr>cl_text := cross, cl_class := ''cell-error'', cl_title := ''probe error''\<rparr>) cells)
         else (case ms_latency_ms msg of
                 None \<Rightarrow> (True, cells)
               | Some ms \<Rightarrow> (False, update_first the_cell
                   (\<lambda>c. c\<lparr>cl_text := toFixed 1 ms, cl_class := live_class ms, cl_title := toFixed 2 ms @ '' ms''\<rparr>)
                   cells))))"

text \<open>The cells with an id that a browser finds in the rendered table.\<close>

definition matrix_cell :: "matrix_entry option \<Rightarrow> string \<Rightarrow> string \<Rightarrow> cell" where
  "matrix_cell me src dst =
     (case me of
        None \<Rightarrow> \<lparr>cl_id = cellID src dst, cl_text = ''?'', cl_class = ''cell-unknown'', cl_title = []\<rparr>
      | Some e \<Rightarrow>
          (if me_HasError e
           then \<lparr>cl_id = cellID src dst, cl_text = cross, cl_class = ''cell-error'', cl_title = ''probe error''\<rparr>
           else \<lparr>cl_id = cellID src dst, cl_text = fmt_1f (me_AvgLatMS e), cl_class = cellClass (me_AvgLatMS e),
                 cl_title = cell_title e\<rparr>))"

definition pairs :: "latency_matrix \<Rightarrow> (string \<times> string) list" where
  "pairs m = filter (\<lambda>(src, dst). src \<noteq> dst) (List.product (lm_Nodes m) (lm_Nodes m))"

definition matrix_cells :: "latency_matrix \<Rightarrow> cell list" where
  "matrix_cells m = map (\<lambda>(src, dst). matrix_cell (LatencyMatrix_Get m src dst) src dst) (pairs m)"

end
