(* ===== verification/Templates_Props.thy ===== *)
theory Templates_Props
  imports Templates Startup
begin

text \<open>
  Properties of the pages: data never contributes markup, the buttons of a node's row address that node, and the
  script of the dashboard updates the right cell in the way the server would have rendered it.
\<close>

section \<open>Data contributes no markup\<close>

text \<open>The characters that open, close or delimit tags and attribute values.\<close>

definition markup :: "string \<Rightarrow> string" where
  "markup s = filter (\<lambda>c. c \<in> {CHR ''<'', CHR ''>'', CHR 0x22, CHR 0x27}) s"

lemma markup_append [simp]: "markup (s @ t) = markup s @ markup t"
  by (simp add: markup_def)

text \<open>Two pages have the same shape when they differ in texts and numbers only: they are of one kind, show as many
  nodes with the same flags, and their matrices are filled in the same places.\<close>

definition cell_kind :: "latency_matrix \<Rightarrow> string \<Rightarrow> string \<Rightarrow> bool option option" where
  "cell_kind m src dst = (if src = dst then None else Some (map_option me_HasError (LatencyMatrix_Get m src dst)))"

definition same_table :: "latency_matrix \<Rightarrow> latency_matrix \<Rightarrow> bool" where
  "same_table m m' \<longleftrightarrow>
     list_all2 (\<lambda>src src'. list_all2 (\<lambda>dst dst'. cell_kind m src dst = cell_kind m' src' dst') (lm_Nodes m) (lm_Nodes m'))
       (lm_Nodes m) (lm_Nodes m')"

definition same_flag :: "node_info \<Rightarrow> node_info \<Rightarrow> bool" where
  "same_flag n n' \<longleftrightarrow> ni_Disabled n = ni_Disabled n'"

inductive same_shape :: "body \<Rightarrow> body \<Rightarrow> bool" where
  "(msg = [] \<longleftrightarrow> msg' = []) \<Longrightarrow> same_shape (BLogin msg) (BLogin msg')"
| "same_table m m' \<Longrightarrow> same_shape (BDashboard m) (BDashboard m')"
| "same_table m m' \<Longrightarrow> same_shape (BMatrixTable m) (BMatrixTable m')"
| "list_all2 same_flag ns ns' \<Longrightarrow> (secret = [] \<longleftrightarrow> secret' = []) \<Longrightarrow>
   same_shape (BNodesPage ns secret) (BNodesPage ns' secret')"
| "same_shape BNodeForm BNodeForm"
| "same_flag n n' \<Longrightarrow> same_shape (BNodeRow n) (BNodeRow n')"

definition same_markup :: "buffer \<Rightarrow> buffer \<Rightarrow> bool" where
  "same_markup b b' \<longleftrightarrow> markup (bf_text b) = markup (bf_text b') \<and> bf_ops b = bf_ops b'"

text \<open>Two components agree when they return the same error and leave the same markup behind.\<close>

definition agree :: "component \<Rightarrow> component \<Rightarrow> bool" where
  "agree c d \<longleftrightarrow> (\<forall>b b'. same_markup b b' \<longrightarrow>
     fst (c b) = fst (d b') \<and> same_markup (snd (c b)) (snd (d b')))"

named_theorems agreement \<open>components that agree\<close>

lemma agreeD:
  assumes "agree c d" "same_markup b b'" "c b = (e, b1)"
  obtains b1' where "d b' = (e, b1')" "same_markup b1 b1'"
  using assms unfolding agree_def by (metis fst_conv prod.collapse snd_conv)

lemma agree_Nil [agreement]: "agree (block []) (block [])"
  by (simp add: agree_def)

lemma agree_Cons [agreement]:
  assumes "agree c d" "agree (block cs) (block ds)"
  shows "agree (block (c # cs)) (block (d # ds))"
  unfolding agree_def
proof (intro allI impI)
  fix b b' assume bb: "same_markup b b'"
  obtain e b1 where c: "c b = (e, b1)" by fastforce
  obtain b1' where d: "d b' = (e, b1')" "same_markup b1 b1'" using agreeD [OF assms(1) bb c] .
  show "fst (block (c # cs) b) = fst (block (d # ds) b') \<and>
      same_markup (snd (block (c # cs) b)) (snd (block (d # ds) b'))"
    using c d assms(2) by (cases e) (auto simp: agree_def)
qed

lemma agree_map:
  assumes "list_all2 R xs ys" "\<And>x y. R x y \<Longrightarrow> agree (f x) (g y)"
  shows "agree (block (map f xs)) (block (map g ys))"
  using assms(1) by (induction rule: list_all2_induct) (simp_all del: block.simps add: agreement assms(2))

lemma agree_if [agreement]:
  "(P \<longleftrightarrow> Q) \<Longrightarrow> (P \<Longrightarrow> agree c d) \<Longrightarrow> (\<not> P \<Longrightarrow> agree c' d') \<Longrightarrow> agree (if P then c else c') (if Q then d else d')"
  by simp

lemma agree_template [agreement]: "agree c d \<Longrightarrow> agree (GeneratedTemplate E c) (GeneratedTemplate E d)"
  by (auto simp: agree_def GeneratedTemplate_def same_markup_def split: option.split)

lemma agree_write: "markup s = markup t \<Longrightarrow> agree (WriteString E s) (WriteString E t)"
  by (auto simp: agree_def WriteString_def same_markup_def split: option.split)

lemma agree_write_same [agreement]: "agree (WriteString E s) (WriteString E s)"
  by (simp add: agree_write)

text \<open>What a page needs of the escaping: its results contain no markup.\<close>

locale escaper =
  fixes escape :: "string \<Rightarrow> string"
  assumes no_markup: "markup (escape s) = []"
begin

lemma agree_escaped: "re_escape E = escape \<Longrightarrow> agree (WriteEscaped E s) (WriteEscaped E t)"
  unfolding WriteEscaped_def by (rule agree_write) (simp add: no_markup)

lemma agree_css: "(\<And>c. re_css_items E c = []) \<Longrightarrow>
    agree (WriteString E (re_css_items E c)) (WriteString E (re_css_items E c'))"
  by (rule agree_write) simp

lemma cells_agree:
  assumes "re_escape E = escape" "\<And>c. re_css_items E c = []" "map_option me_HasError me = map_option me_HasError me'"
  shows "agree (matrixCell E me src dst) (matrixCell E me' src' dst')"
  unfolding matrixCell_def using assms(3)
  by (cases me; cases me') (auto intro!: agreement agree_escaped [OF assms(1)] agree_css [of E, OF assms(2)])

lemma tables_agree:
  assumes "re_escape E = escape" "\<And>c. re_css_items E c = []" "same_table m m'"
  shows "agree (MatrixTable E m) (MatrixTable E m')"
proof -
  note table = assms(3) [unfolded same_table_def]
  let ?cell = "\<lambda>m src dst. if src = dst
      then WriteString E (''<td class=\"cell-self\">'' @ [CHR 0xE2, CHR 0x80, CHR 0x94] @ ''</td>'')
      else matrixCell E (LatencyMatrix_Get m src dst) src dst"
  have cell: "agree (?cell m src dst) (?cell m' src' dst')" if "cell_kind m src dst = cell_kind m' src' dst'" for src dst src' dst'
    using that cells_agree [OF assms(1,2)] by (auto simp: cell_kind_def agree_write_same split: if_splits)
  have row: "agree (block (map (?cell m src) (lm_Nodes m))) (block (map (?cell m' src') (lm_Nodes m')))"
    if "list_all2 (\<lambda>dst dst'. cell_kind m src dst = cell_kind m' src' dst') (lm_Nodes m) (lm_Nodes m')" for src src'
    by (rule agree_map [OF that]) (rule cell)
  have "length (lm_Nodes m) = 0 \<longleftrightarrow> length (lm_Nodes m') = 0" using list_all2_lengthD [OF table] by simp
  then show ?thesis
    unfolding MatrixTable_def
    by (intro row agreement agree_escaped [OF assms(1)] agree_map [OF table])
qed

lemma rows_agree:
  assumes "re_escape E = escape" "\<And>c. re_css_items E c = []" "same_flag n n'"
  shows "agree (NodeRow E n) (NodeRow E n')"
  unfolding NodeRow_def toggle_button_def delete_button_def
  by (intro agreement agree_escaped [OF assms(1)] agree_css [of E, OF assms(2)]) (use assms(3) in \<open>simp_all add: same_flag_def\<close>)

lemma pages_agree:
  assumes E: "re_escape E = escape" and css: "\<And>c. re_css_items E c = []"
    and "same_shape b b'" "page_of E b = Some p" "page_of E b' = Some q"
  shows "agree p q"
proof -
  note [agreement] = agree_escaped [OF E] tables_agree [OF E css] rows_agree [OF E css]
  have rows: "agree (NodesTable E ns) (NodesTable E ns')" if "list_all2 same_flag ns ns'" for ns ns'
    unfolding NodesTable_def using that
    by (intro agreement agree_map [OF that]) (auto simp: list_all2_lengthD)
  show ?thesis
    using assms(3-5)
    by (cases rule: same_shape.cases) (auto simp: Login_def Dashboard_def Nodes_def CreateNodeForm_def layout_def wsScript_def
        intro!: agreement rows)
qed

lemma markup_kept:
  assumes "agree p q"
  shows "fst (Render E p) = fst (Render E q) \<and> markup (snd (Render E p)) = markup (snd (Render E q))"
proof -
  let ?b = "\<lparr>bf_text = [], bf_ops = 0\<rparr>"
  obtain e b1 where p: "p ?b = (e, b1)" by fastforce
  have "same_markup ?b ?b" by (simp add: same_markup_def)
  from agreeD [OF assms this p] obtain b2 where "q ?b = (e, b2)" "same_markup b1 b2" .
  then show ?thesis by (simp add: Render_def p same_markup_def split: option.split)
qed

end

lemma markup_html_char: "markup (html_escape_char c) = []"
  by (simp add: html_escape_char_def markup_def)

interpretation html: escaper html_EscapeString
proof
  fix s show "markup (html_EscapeString s) = []"
    by (induction s) (simp_all add: html_EscapeString_def markup_html_char, simp add: markup_def)
qed

text \<open>C23: nothing that is stored or typed can inject markup into a page. Two pages or fragments of the same shape
  have exactly the same tags, attribute delimiters and quotes, whatever their ids, addresses, roles, messages,
  secrets and measurements are; so only the fixed texts of the templates contribute them, also when the rendering
  is cut off by an error. It relies on what \<open>templ\<close> documents: \<open>EscapeString\<close> is
  \<open>html.EscapeString\<close>, and a class given as a string has no style element.\<close>

theorem page_markup_fixed:
  assumes "re_escape E = html_EscapeString" "\<And>c. re_css_items E c = []"
    and "same_shape b b'" "page_of E b = Some p" "page_of E b' = Some q"
  shows "fst (Render E p) = fst (Render E q) \<and> markup (snd (Render E p)) = markup (snd (Render E q))"
  by (rule html.markup_kept) (rule html.pages_agree [OF assms])

definition plain_env :: render_env where
  "plain_env = \<lparr>re_escape = html_EscapeString, re_classes = id, re_css_items = (\<lambda>_. []), re_ctx = (\<lambda>_. None),
     re_write = (\<lambda>_. None)\<rparr>"

definition hostile_node :: node_info where
  "hostile_node = \<lparr>ni_ID = ''<b>'', ni_Role = ''hub'', ni_Address = [CHR 0x22, CHR ''>''], ni_Disabled = False,
     ni_SpoolDepth = 0, ni_LastSeen = 0\<rparr>"

definition harmless_node :: node_info where
  "harmless_node = hostile_node\<lparr>ni_ID := ''h1'', ni_Address := ''a:1''\<rparr>"

theorem page_markup_fixed_witness:
  "markup (ni_ID hostile_node) \<noteq> markup (ni_ID harmless_node) \<and>
   markup (snd (Render plain_env (NodeRow plain_env hostile_node))) =
     markup (snd (Render plain_env (NodeRow plain_env harmless_node)))"
proof -
  have "same_shape (BNodeRow hostile_node) (BNodeRow harmless_node)"
    by (simp add: same_shape.simps same_flag_def harmless_node_def)
  then have "markup (snd (Render plain_env (NodeRow plain_env hostile_node))) =
      markup (snd (Render plain_env (NodeRow plain_env harmless_node)))"
    using page_markup_fixed [of plain_env] by (simp add: plain_env_def)
  then show ?thesis by (simp add: hostile_node_def harmless_node_def markup_def)
qed

section \<open>The buttons of a row\<close>

text \<open>An id that no URL rule touches: unreserved characters only, and no dot segment.\<close>

definition plain_id :: "string \<Rightarrow> bool" where
  "plain_id i \<longleftrightarrow> i \<noteq> [] \<and> i \<noteq> ''.'' \<and> i \<noteq> ''..'' \<and>
     list_all (\<lambda>c. is_digit c \<or> 97 \<le> (of_char c :: nat) \<and> (of_char c :: nat) \<le> 122 \<or>
       65 \<le> (of_char c :: nat) \<and> (of_char c :: nat) \<le> 90 \<or> c \<in> {CHR ''-'', CHR ''_'', CHR ''.'', CHR ''~''}) i"

lemma plain_id_chars: "plain_id i \<Longrightarrow> set i \<inter> {CHR ''/'', CHR ''?'', CHR ''#'', CHR ''%''} = {}"
  by (auto simp: plain_id_def list_all_iff is_digit_def)

lemma path_unescape_plain: "CHR ''%'' \<notin> set s \<Longrightarrow> path_unescape s = Some s"
  by (induction s) auto

lemma request_path_plain: "set url \<inter> {CHR ''?'', CHR ''#'', CHR ''%''} = {} \<Longrightarrow> request_path url = Some url"
  by (subst request_path_def, subst takeWhile_eq_all_conv [THEN iffD2]) (auto simp: path_unescape_plain)

text \<open>The server when it begins a request.\<close>

definition begun :: "server \<Rightarrow> server" where
  "begun s = s\<lparr>sv_db := (sv_db s)\<lparr>cd_calls := Suc (cd_calls (sv_db s))\<rparr>\<rparr>"

lemma match_node_segment:
  assumes "i \<noteq> []" "CHR ''/'' \<notin> set i"
  shows "match_wildcard pre suf (pre @ i @ suf) = Some i"
  using assms by (simp add: match_wildcard_def has_prefix_def)

text \<open>The mux runs the first route that matches.\<close>

definition takes :: "string \<Rightarrow> string \<Rightarrow> route \<Rightarrow> bool" where
  "takes meth path rt \<longleftrightarrow> match_method (fst rt) meth \<and> match_path (fst (snd rt)) path \<noteq> None"

lemma dispatch_find:
  assumes "find (takes (rq_method r) path) rts = Some (m, pat, h)" "match_path pat path = Some v"
  shows "dispatch path seen rts r s = h (r\<lparr>rq_path_id := v\<rparr>) s"
  using assms
  by (induction path seen rts r s rule: dispatch.induct) (auto simp: takes_def split: if_splits option.splits)

lemma Handler_find:
  assumes "find (takes (rq_method r) path) (routes E (cd_calls (sv_db s)) path s) = Some (m, pat, h)"
    and "match_path pat path = Some v"
  shows "Handler E path r s = h (r\<lparr>rq_path_id := v\<rparr>) (begun s)"
  unfolding Handler_def Let_def begun_def by (rule dispatch_find [OF assms])

lemma match_wildcard_other:
  assumes "\<not> prefix pre path \<or> \<not> suffix suf path"
  shows "match_wildcard pre suf path = None"
proof -
  have "suffix suf path" if "drop (length (drop (length pre) path) - length suf) (drop (length pre) path) = suf"
    using that by (metis drop_drop suffix_drop)
  then show ?thesis using assms by (auto simp: match_wildcard_def has_prefix_iff Let_def)
qed

lemma not_disable: "\<not> suffix ''/disable'' (s @ ''/enable'')"
  by (auto simp: suffix_def append_eq_append_conv2 Cons_eq_append_conv append_eq_Cons_conv)

lemma delete_route:
  assumes "i \<noteq> []" "CHR ''/'' \<notin> set i" "rq_method r = ''DELETE''"
  shows "Handler E (delete_url i) r s =
    requireSession (handleFragDeleteNode (ce_world E)) (r\<lparr>rq_path_id := i\<rparr>) (begun s)"
proof (rule Handler_find)
  show "find (takes (rq_method r) (delete_url i)) (routes E (cd_calls (sv_db s)) (delete_url i) s) =
      Some (''DELETE'', Wildcard ''/ui/frag/nodes/'' [], requireSession (handleFragDeleteNode (ce_world E)))"
    using assms match_node_segment [of i "''/ui/frag/nodes/''" "[]"]
    by (simp add: routes_def agent_routes_def admin_routes_def ui_routes_def takes_def match_method_def
        match_wildcard_other delete_url_def)
  show "match_path (Wildcard ''/ui/frag/nodes/'' []) (delete_url i) = Some i"
    using assms match_node_segment [of i "''/ui/frag/nodes/''" "[]"] by (simp add: delete_url_def)
qed

lemma enable_route:
  assumes "i \<noteq> []" "CHR ''/'' \<notin> set i" "rq_method r = ''PATCH''"
  shows "Handler E (enable_url i) r s =
    requireSession (handleFragEnableNode (ce_world E)) (r\<lparr>rq_path_id := i\<rparr>) (begun s)"
proof (rule Handler_find)
  have other: "match_wildcard ''/ui/frag/nodes/'' ''/disable'' (enable_url i) = None"
    using not_disable [of "''/ui/frag/nodes/'' @ i"] by (intro match_wildcard_other) (simp add: enable_url_def)
  show "find (takes (rq_method r) (enable_url i)) (routes E (cd_calls (sv_db s)) (enable_url i) s) =
      Some (''PATCH'', Wildcard ''/ui/frag/nodes/'' ''/enable'', requireSession (handleFragEnableNode (ce_world E)))"
    using assms other match_node_segment [of i "''/ui/frag/nodes/''" "''/enable''"]
    by (simp add: routes_def agent_routes_def admin_routes_def ui_routes_def takes_def match_method_def
        match_wildcard_other enable_url_def)
  show "match_path (Wildcard ''/ui/frag/nodes/'' ''/enable'') (enable_url i) = Some i"
    using assms match_node_segment [of i "''/ui/frag/nodes/''" "''/enable''"] by (simp add: enable_url_def)
qed

lemma disable_route:
  assumes "i \<noteq> []" "CHR ''/'' \<notin> set i" "rq_method r = ''PATCH''"
  shows "Handler E (disable_url i) r s =
    requireSession (handleFragDisableNode (ce_world E)) (r\<lparr>rq_path_id := i\<rparr>) (begun s)"
proof (rule Handler_find)
  show "find (takes (rq_method r) (disable_url i)) (routes E (cd_calls (sv_db s)) (disable_url i) s) =
      Some (''PATCH'', Wildcard ''/ui/frag/nodes/'' ''/disable'', requireSession (handleFragDisableNode (ce_world E)))"
    using assms match_node_segment [of i "''/ui/frag/nodes/''" "''/disable''"]
    by (simp add: routes_def agent_routes_def admin_routes_def ui_routes_def takes_def match_method_def
        match_wildcard_other disable_url_def)
  show "match_path (Wildcard ''/ui/frag/nodes/'' ''/disable'') (disable_url i) = Some i"
    using assms match_node_segment [of i "''/ui/frag/nodes/''" "''/disable''"] by (simp add: disable_url_def)
qed

text \<open>C28: the buttons that the page shows for a node act on that node. For an id of unreserved characters the
  requests of the delete, enable and disable buttons are routed, past every other route, to the session check
  and the handler of the button, with exactly that id. For other ids this fails: the delete button of a
  node \<open>a?b\<close> addresses the node \<open>a\<close>.\<close>

theorem row_buttons_reach_node:
  assumes "plain_id i"
  shows "follow E (delete_url i) (r\<lparr>rq_method := ''DELETE''\<rparr>) s =
      requireSession (handleFragDeleteNode (ce_world E)) (r\<lparr>rq_method := ''DELETE'', rq_path_id := i\<rparr>) (begun s) \<and>
    follow E (enable_url i) (r\<lparr>rq_method := ''PATCH''\<rparr>) s =
      requireSession (handleFragEnableNode (ce_world E)) (r\<lparr>rq_method := ''PATCH'', rq_path_id := i\<rparr>) (begun s) \<and>
    follow E (disable_url i) (r\<lparr>rq_method := ''PATCH''\<rparr>) s =
      requireSession (handleFragDisableNode (ce_world E)) (r\<lparr>rq_method := ''PATCH'', rq_path_id := i\<rparr>) (begun s) \<and>
    follow E (delete_url ''a?b'') (r\<lparr>rq_method := ''DELETE''\<rparr>) s =
      requireSession (handleFragDeleteNode (ce_world E)) (r\<lparr>rq_method := ''DELETE'', rq_path_id := ''a''\<rparr>) (begun s)"
proof -
  have i: "i \<noteq> []" "set i \<inter> {CHR ''/'', CHR ''?'', CHR ''#'', CHR ''%''} = {}"
    using assms plain_id_chars by (auto simp: plain_id_def)
  have "request_path (delete_url i) = Some (delete_url i)" "request_path (enable_url i) = Some (enable_url i)"
    "request_path (disable_url i) = Some (disable_url i)"
    using i(2) by (auto intro!: request_path_plain simp: delete_url_def enable_url_def disable_url_def)
  moreover have "request_path (delete_url ''a?b'') = Some (delete_url ''a'')"
    by (simp add: request_path_def delete_url_def)
  ultimately show ?thesis
    using i by (simp add: follow_def delete_route enable_route disable_route)
qed

theorem row_buttons_reach_node_witness:
  "plain_id ''hub-nyc1'' \<and>
   follow quiet_env (delete_url ''hub-nyc1'') (sample_rq\<lparr>rq_method := ''DELETE''\<rparr>) sample_server =
     requireSession (handleFragDeleteNode (ce_world quiet_env))
       (sample_rq\<lparr>rq_method := ''DELETE'', rq_path_id := ''hub-nyc1''\<rparr>) (begun sample_server)"
proof -
  have "plain_id ''hub-nyc1''" by (simp add: plain_id_def is_digit_def)
  then show ?thesis using row_buttons_reach_node [of "''hub-nyc1''"] by blast
qed

section \<open>Live updates\<close>

text \<open>A hyphen separates the two ids of a cell, so the ids of cells are different when no node id has one.\<close>

lemma cellID_inj:
  assumes "CHR ''-'' \<notin> set a" "CHR ''-'' \<notin> set c"
  shows "cellID a b = cellID c d \<longleftrightarrow> a = c \<and> b = d"
proof
  assume "cellID a b = cellID c d"
  then have "a @ CHR ''-'' # b = c @ CHR ''-'' # d" by (simp add: cellID_def)
  moreover have "takeWhile ((\<noteq>) (CHR ''-'')) (u @ CHR ''-'' # v) = u" if "CHR ''-'' \<notin> set u" for u v
    using that by (induction u) auto
  ultimately show "a = c \<and> b = d"
    using assms by (metis append_same_eq list.inject same_append_eq)
qed simp

lemma update_first_unique:
  assumes "distinct (map f xs)" "x \<in> set xs"
  shows "update_first (\<lambda>y. f y = f x) g xs = map (\<lambda>y. if f y = f x then g y else y) xs"
  using assms
proof (induction xs)
  case (Cons y ys)
  have "f z \<noteq> f y" if "z \<in> set ys" for z using Cons.prems(1) that by (simp, metis image_eqI)
  then have "map (\<lambda>z. if f z = f x then g z else z) ys = ys" if "f y = f x"
    using that by (intro map_idI) auto
  then show ?case using Cons by auto
qed simp

lemma pairs_iff: "(a, b) \<in> set (pairs m) \<longleftrightarrow> a \<in> set (lm_Nodes m) \<and> b \<in> set (lm_Nodes m) \<and> a \<noteq> b"
  by (auto simp: pairs_def)

lemma distinct_pairs: "distinct (lm_Nodes m) \<Longrightarrow> distinct (pairs m)"
  by (simp add: pairs_def distinct_product)

lemma matrix_cell_id [simp]: "cl_id (matrix_cell me a b) = cellID a b"
  by (simp add: matrix_cell_def split: option.split)

lemma distinct_cells:
  assumes "distinct (lm_Nodes m)" "\<And>n. n \<in> set (lm_Nodes m) \<Longrightarrow> CHR ''-'' \<notin> set n"
  shows "distinct (map cl_id (matrix_cells m))"
proof -
  have "inj_on (\<lambda>(a, b). cellID a b) (set (pairs m))"
    using assms(2) by (auto simp: inj_on_def pairs_iff cellID_inj)
  then have "distinct (map (\<lambda>(a, b). cellID a b) (pairs m))"
    using distinct_pairs [OF assms(1)] by (simp add: distinct_map)
  moreover have "map cl_id (matrix_cells m) = map (\<lambda>(a, b). cellID a b) (pairs m)"
    by (auto simp: matrix_cells_def)
  ultimately show ?thesis by simp
qed

lemma live_class_cellClass: "live_class = cellClass"
  by (simp add: live_class_def cellClass_def fun_eq_iff)

subsection \<open>The table on the screen\<close>

text \<open>The element that a browser shows as the cell \<open>c\<close>.\<close>

definition td_html :: "cell \<Rightarrow> string" where
  "td_html c = ''<td id=\"'' @ html_EscapeString (cl_id c) @ ''\" class=\"'' @ html_EscapeString (cl_class c) @
     (if cl_title c = [] then [] else ''\" title=\"'' @ html_EscapeString (cl_title c)) @ ''\">'' @
     html_EscapeString (cl_text c) @ ''</td>''"

text \<open>Texts that stand in a text one behind the other.\<close>

fun embedded :: "string list \<Rightarrow> string \<Rightarrow> bool" where
  "embedded [] t \<longleftrightarrow> True"
| "embedded (x # xs) t \<longleftrightarrow> (\<exists>p r. t = p @ x @ r \<and> embedded xs r)"

lemma embedded_append: "embedded xs s \<Longrightarrow> embedded ys t \<Longrightarrow> embedded (xs @ ys) (s @ t)"
proof (induction xs arbitrary: s)
  case Nil
  then show ?case by (cases ys) (auto, metis append.assoc)
next
  case (Cons x xs)
  then obtain p r where "s = p @ x @ r" "embedded xs r" by auto
  then have "s @ t = p @ x @ (r @ t)" "embedded (xs @ ys) (r @ t)" using Cons by simp_all
  then show ?case by (simp only: embedded.simps append_Cons) blast
qed

lemma embedded_one: "embedded [x] x"
proof -
  have "x = [] @ x @ []" by simp
  then show ?thesis unfolding embedded.simps by blast
qed

lemma embedded_behind: "embedded xs t \<Longrightarrow> embedded xs (p @ t)"
  using embedded_append [of "[]" p xs t] by simp

lemma embedded_before: "embedded xs t \<Longrightarrow> embedded xs (t @ q)"
  using embedded_append [of xs t "[]" q] by simp

lemma embedded_concat: "(\<And>x. x \<in> set xs \<Longrightarrow> embedded (f x) (g x)) \<Longrightarrow> embedded (concat (map f xs)) (concat (map g xs))"
  by (induction xs) (simp_all add: embedded_append)

lemma embedded_others: "embedded (map f (filter (\<lambda>x. s \<noteq> x) xs)) (concat (map (\<lambda>x. if s = x then z else f x) xs))"
proof (induction xs)
  case (Cons x xs)
  then show ?case using embedded_append [OF embedded_one Cons, of "f x"] embedded_append [of "[]" z, OF _ Cons]
    by (cases "s = x") (simp_all del: embedded.simps(2))
qed simp

text \<open>A component that writes \<open>t\<close> and does not fail.\<close>

definition writes :: "component \<Rightarrow> string \<Rightarrow> bool" where
  "writes c t \<longleftrightarrow> (\<forall>b. \<exists>n. c b = (None, \<lparr>bf_text = bf_text b @ t, bf_ops = n\<rparr>))"

definition quiet_render :: "render_env \<Rightarrow> bool" where
  "quiet_render E \<longleftrightarrow> re_ctx E = (\<lambda>_. None) \<and> re_write E = (\<lambda>_. None)"

text \<open>What \<open>templ\<close> documents of its escaping and of a class given as a string.\<close>

definition templ_ok :: "render_env \<Rightarrow> bool" where
  "templ_ok E \<longleftrightarrow> re_escape E = html_EscapeString \<and> re_classes E = id \<and> re_css_items E = (\<lambda>_. [])"

lemma writes_string: "quiet_render E \<Longrightarrow> writes (WriteString E s) s"
  by (simp add: writes_def WriteString_def quiet_render_def)

lemma writes_escaped: "quiet_render E \<Longrightarrow> templ_ok E \<Longrightarrow> writes (WriteEscaped E s) (html_EscapeString s)"
  by (simp add: WriteEscaped_def writes_string templ_ok_def)

lemma writes_template:
  assumes "quiet_render E" "writes c t"
  shows "writes (GeneratedTemplate E c) t"
  unfolding writes_def
proof
  fix b
  have "GeneratedTemplate E c b = c (b\<lparr>bf_ops := Suc (bf_ops b)\<rparr>)"
    using assms(1) by (simp add: GeneratedTemplate_def quiet_render_def)
  moreover obtain n where "c (b\<lparr>bf_ops := Suc (bf_ops b)\<rparr>) =
      (None, \<lparr>bf_text = bf_text (b\<lparr>bf_ops := Suc (bf_ops b)\<rparr>) @ t, bf_ops = n\<rparr>)"
    using assms(2) unfolding writes_def by blast
  ultimately show "\<exists>n. GeneratedTemplate E c b = (None, \<lparr>bf_text = bf_text b @ t, bf_ops = n\<rparr>)" by simp
qed

lemma writes_Nil: "writes (block []) []"
  by (simp add: writes_def) (metis buffer.surjective old.unit.exhaust)

lemma writes_Cons:
  assumes "writes c s" "writes (block cs) t"
  shows "writes (block (c # cs)) (s @ t)"
  unfolding writes_def
proof
  fix b
  obtain n where n: "c b = (None, \<lparr>bf_text = bf_text b @ s, bf_ops = n\<rparr>)" using assms(1) unfolding writes_def by blast
  obtain k where "block cs \<lparr>bf_text = bf_text b @ s, bf_ops = n\<rparr> = (None, \<lparr>bf_text = (bf_text b @ s) @ t, bf_ops = k\<rparr>)"
    using assms(2) unfolding writes_def by (metis buffer.select_convs(1))
  then show "\<exists>k. block (c # cs) b = (None, \<lparr>bf_text = bf_text b @ s @ t, bf_ops = k\<rparr>)" using n by simp
qed

lemma writes_map: "(\<And>x. x \<in> set xs \<Longrightarrow> writes (f x) (g x)) \<Longrightarrow> writes (block (map f xs)) (concat (map g xs))"
  by (induction xs) (simp_all add: writes_Nil writes_Cons del: block.simps)

lemma Render_writes: "quiet_render E \<Longrightarrow> writes c t \<Longrightarrow> Render E c = (None, t)"
  unfolding writes_def Render_def quiet_render_def by (drule spec [of _ "\<lparr>bf_text = [], bf_ops = 0\<rparr>"]) auto

text \<open>The template of a cell writes exactly the element of that cell.\<close>

lemma cell_title_nonempty: "cell_title e \<noteq> []"
  by (simp add: cell_title_def)

lemma matrixCell_writes:
  assumes "quiet_render E" "templ_ok E"
  shows "writes (matrixCell E me src dst) (td_html (matrix_cell me src dst))"
proof -
  note w = writes_template [OF assms(1)] writes_Cons writes_Nil writes_string [OF assms(1)] writes_escaped [OF assms]
  have templ: "re_css_items E c = []" "re_classes E c = c" for c using assms(2) by (simp_all add: templ_ok_def)
  consider (none) "me = None" | (failed) e where "me = Some e" "me_HasError e" | (measured) e where "me = Some e" "\<not> me_HasError e"
    by (cases me) auto
  then show ?thesis
  proof cases
    case none
    have "writes (matrixCell E me src dst)
        (''<td id=\"'' @ html_EscapeString (cellID src dst) @ ''\" class=\"cell-unknown\">?</td>'' @ [])"
      unfolding matrixCell_def none option.case by (intro w)
    then show ?thesis
      by (simp add: none td_html_def matrix_cell_def html_EscapeString_def html_escape_char_def)
  next
    case (failed e)
    have "writes (matrixCell E me src dst) (''<td id=\"'' @ html_EscapeString (cellID src dst) @
        (''\" class=\"cell-error\" title=\"probe error\">'' @ [CHR 0xE2, CHR 0x9C, CHR 0x95] @ ''</td>'') @ [])"
      unfolding matrixCell_def failed(1) option.case if_P [OF failed(2)] by (intro w)
    then show ?thesis
      by (simp add: failed td_html_def matrix_cell_def html_EscapeString_def html_escape_char_def cross_def)
  next
    case (measured e)
    have "writes (matrixCell E me src dst) ([] @ ''<td id=\"'' @ html_EscapeString (cellID src dst) @ ''\" class=\"'' @
        html_EscapeString (cellClass (me_AvgLatMS e)) @ ''\" title=\"'' @ html_EscapeString (cell_title e) @ ''\">'' @
        html_EscapeString (fmt_1f (me_AvgLatMS e)) @ ''</td>'' @ [])"
      unfolding matrixCell_def measured(1) option.case if_not_P [OF measured(2)] templ by (intro w)
    then show ?thesis by (simp add: measured td_html_def matrix_cell_def cell_title_nonempty)
  qed
qed

text \<open>The table has the elements of all its cells, in their order.\<close>

lemma pairs_concat: "pairs m = concat (map (\<lambda>src. map (Pair src) (filter (\<lambda>dst. src \<noteq> dst) (lm_Nodes m))) (lm_Nodes m))"
  by (simp add: pairs_def product_concat_map filter_concat filter_map comp_def)

lemma MatrixTable_shows_cells:
  assumes "quiet_render E" "templ_ok E" "lm_Nodes m \<noteq> []"
  shows "\<exists>t. writes (MatrixTable E m) t \<and> embedded (map td_html (matrix_cells m)) t"
proof -
  note w = writes_template [OF assms(1)] writes_Cons writes_Nil writes_string [OF assms(1)] writes_escaped [OF assms(1,2)]
    writes_map matrixCell_writes [OF assms(1,2)]
  let ?cell = "\<lambda>src dst. matrix_cell (LatencyMatrix_Get m src dst) src dst"
  let ?self = "''<td class=\"cell-self\">'' @ [CHR 0xE2, CHR 0x80, CHR 0x94] @ ''</td>''"
  let ?td = "\<lambda>src dst. if src = dst then ?self else td_html (?cell src dst)"
  let ?row = "\<lambda>src. ''<tr><td class=\"row-label\">'' @ html_EscapeString src @ ''</td>'' @
      concat (map (?td src) (lm_Nodes m)) @ ''</tr>'' @ []"
  let ?head = "\<lambda>n. ''<th>'' @ html_EscapeString n @ ''</th>'' @ []"
  let ?text = "''<div id=\"matrix-wrap\" hx-get=\"/ui/frag/matrix\" hx-trigger=\"every 30s\" hx-swap=\"outerHTML\">'' @
      ((''<table class=\"matrix\"><thead><tr><th class=\"corner\">from '' @ [CHR 0xE2, CHR 0x95, CHR 0xB2] @ '' to</th>'') @
       concat (map ?head (lm_Nodes m)) @ ''</tr></thead> <tbody>'' @ concat (map ?row (lm_Nodes m)) @ ''</tbody></table>'' @ []) @
      ''</div>'' @ []"
  have td: "writes (if src = dst then WriteString E ?self else matrixCell E (LatencyMatrix_Get m src dst) src dst) (?td src dst)"
    for src dst using writes_string [OF assms(1)] matrixCell_writes [OF assms(1,2)] by simp
  have ne: "length (lm_Nodes m) \<noteq> 0" using assms(3) by simp
  have "writes (MatrixTable E m) ?text"
    unfolding MatrixTable_def if_not_P [OF ne] by (intro w td)
  moreover have "embedded (concat (map (\<lambda>src. map (\<lambda>dst. td_html (?cell src dst)) (filter (\<lambda>dst. src \<noteq> dst) (lm_Nodes m))) (lm_Nodes m)))
      (concat (map ?row (lm_Nodes m)))"
    by (intro embedded_concat embedded_behind embedded_before embedded_others)
  then have "embedded (map td_html (matrix_cells m)) ?text"
    unfolding matrix_cells_def pairs_concat map_concat map_map comp_def prod.case
    by (intro embedded_behind embedded_before)
  ultimately show ?thesis by blast
qed

text \<open>An element begins with the id and the class of its cell; no class has a character that is escaped.\<close>

lemma escape_class: "html_EscapeString (cl_class (matrix_cell me src dst)) = cl_class (matrix_cell me src dst)"
  by (simp add: matrix_cell_def cellClass_def html_EscapeString_def html_escape_char_def split: option.split)

lemma td_html_begins:
  "prefix (''<td id=\"'' @ html_EscapeString (cl_id (matrix_cell me src dst)) @ ''\" class=\"'' @ cl_class (matrix_cell me src dst) @ ''\"'')
     (td_html (matrix_cell me src dst))"
  by (simp add: td_html_def escape_class)

text \<open>What the script makes of a cell for an event.\<close>

definition live_cell :: "probe_event \<Rightarrow> cell \<Rightarrow> cell" where
  "live_cell ev c =
     (if pe_Error ev \<noteq> [] then c\<lparr>cl_text := cross, cl_class := ''cell-error'', cl_title := ''probe error''\<rparr>
      else c\<lparr>cl_text := toFixed 1 (pe_LatencyMS ev), cl_class := cellClass (pe_LatencyMS ev),
             cl_title := toFixed 2 (pe_LatencyMS ev) @ '' ms''\<rparr>)"

lemma onmessage_hit:
  assumes "list_ex (\<lambda>c. cl_id c = cellID (pe_SourceID ev) (pe_TargetID ev)) cells"
    and "pe_Type ev = ''probe_result''" "pe_Error ev \<noteq> [] \<or> pe_LatencyMS ev \<noteq> 0"
  shows "onmessage (event_message ev) cells =
    (False, update_first (\<lambda>c. cl_id c = cellID (pe_SourceID ev) (pe_TargetID ev)) (live_cell ev) cells)"
  using assms
  by (auto simp: onmessage_def event_message_def live_cell_def [abs_def] cellID_def live_class_cellClass Let_def)

text \<open>C33: in a table of at least two hubs, rendered without faults, the elements of the cells stand one behind the
  other. When no node id has a hyphen, the message for a new observation that failed or has a latency other than 0
  changes exactly the cell of its source and target, keeps its id, and gives it the class that the template of the
  cell writes for an entry of that observation alone. (With a hyphen in the ids two cells can share an id, and for a
  latency of 0 the script throws and the cell keeps what it showed.)\<close>

theorem live_update_correct:
  assumes "quiet_render E" "templ_ok E"
    and "distinct (lm_Nodes m)" "\<And>n. n \<in> set (lm_Nodes m) \<Longrightarrow> CHR ''-'' \<notin> set n"
    and "src \<in> set (lm_Nodes m)" "TargetID obs \<in> set (lm_Nodes m)" "src \<noteq> TargetID obs"
    and "ObsError obs \<noteq> [] \<or> (\<exists>l. LatencyMs obs = Some l \<and> l \<noteq> 0)"
    and "me_HasError e \<longleftrightarrow> ObsError obs \<noteq> []" "LatencyMs obs \<noteq> None \<Longrightarrow> LatencyMs obs = Some (me_AvgLatMS e)"
  shows "embedded (map td_html (matrix_cells m)) (snd (Render E (MatrixTable E m))) \<and>
    (\<exists>cl. onmessage (event_message (probe_event_of src obs)) (matrix_cells m) =
       (False, map (\<lambda>(a, b). if a = src \<and> b = TargetID obs then cl else matrix_cell (LatencyMatrix_Get m a b) a b) (pairs m)) \<and>
     cl_id cl = cellID src (TargetID obs) \<and>
     prefix (''<td id=\"'' @ html_EscapeString (cl_id cl) @ ''\" class=\"'' @ cl_class cl @ ''\"'')
       (snd (Render E (matrixCell E (Some e) src (TargetID obs)))))"
proof -
  let ?ev = "probe_event_of src obs" and ?id = "cellID src (TargetID obs)"
  let ?old = "matrix_cell (LatencyMatrix_Get m src (TargetID obs)) src (TargetID obs)"
  have pair: "(src, TargetID obs) \<in> set (pairs m)" using assms(5-7) by (simp add: pairs_iff)
  then have old: "?old \<in> set (matrix_cells m)" by (force simp: matrix_cells_def)
  then have "onmessage (event_message ?ev) (matrix_cells m) =
      (False, update_first (\<lambda>c. cl_id c = ?id) (live_cell ?ev) (matrix_cells m))"
    using onmessage_hit [of ?ev "matrix_cells m"] assms(8)
    by (fastforce simp: probe_event_of_def list_ex_iff)
  also have "update_first (\<lambda>c. cl_id c = ?id) (live_cell ?ev) (matrix_cells m) =
      map (\<lambda>c. if cl_id c = ?id then live_cell ?ev c else c) (matrix_cells m)"
    using update_first_unique [OF distinct_cells [OF assms(3,4)] old] by simp
  also have "\<dots> = map (\<lambda>(a, b). if a = src \<and> b = TargetID obs then live_cell ?ev ?old
      else matrix_cell (LatencyMatrix_Get m a b) a b) (pairs m)"
    using assms(4,5) by (auto simp: matrix_cells_def pairs_iff cellID_inj)
  finally have hit: "onmessage (event_message ?ev) (matrix_cells m) =
      (False, map (\<lambda>(a, b). if a = src \<and> b = TargetID obs then live_cell ?ev ?old
        else matrix_cell (LatencyMatrix_Get m a b) a b) (pairs m))" .
  let ?new = "matrix_cell (Some e) src (TargetID obs)"
  have cl: "cl_id (live_cell ?ev ?old) = ?id" "cl_id (live_cell ?ev ?old) = cl_id ?new" "cl_class (live_cell ?ev ?old) = cl_class ?new"
    using assms(8-10) by (auto simp: live_cell_def matrix_cell_def probe_event_of_def split: option.split)
  have cell: "Render E (matrixCell E (Some e) src (TargetID obs)) = (None, td_html ?new)"
    by (rule Render_writes [OF assms(1) matrixCell_writes [OF assms(1,2)]])
  have "lm_Nodes m \<noteq> []" using assms(5) by auto
  then obtain t where "writes (MatrixTable E m) t" "embedded (map td_html (matrix_cells m)) t"
    using MatrixTable_shows_cells [OF assms(1,2)] by blast
  then have table: "embedded (map td_html (matrix_cells m)) (snd (Render E (MatrixTable E m)))"
    using Render_writes [OF assms(1)] by simp
  show ?thesis
    by (intro conjI exI [of _ "live_cell ?ev ?old"])
      (rule table, rule hit, rule cl(1), unfold cell cl(2,3) snd_conv, rule td_html_begins)
qed

text \<open>What the hypotheses exclude: two cells can share an id when node ids have hyphens, and a latency of 0
  makes the handler throw and leaves the cell as it was.\<close>

lemma hyphens_make_cells_collide: "cellID ''a-b'' ''c'' = cellID ''a'' ''b-c''"
  by (simp add: cellID_def)

lemma zero_latency_throws:
  "LatencyMs obs = Some 0 \<Longrightarrow> ObsError obs = [] \<Longrightarrow>
   list_ex (\<lambda>c. cl_id c = cellID src (TargetID obs)) cells \<Longrightarrow>
   onmessage (event_message (probe_event_of src obs)) cells = (True, cells)"
  by (simp add: onmessage_def event_message_def probe_event_of_def cellID_def Let_def)

definition two_hub_matrix :: latency_matrix where
  "two_hub_matrix = \<lparr>lm_Nodes = [''a'', ''b''], lm_Entries = []\<rparr>"

definition slow_observation :: observation where
  "slow_observation = \<lparr>TargetID = ''b'', LatencyMs = Some 60, ObsError = []\<rparr>"

theorem live_update_correct_witness:
  "\<exists>cl. onmessage (event_message (probe_event_of ''a'' slow_observation)) (matrix_cells two_hub_matrix) =
     (False, [cl, matrix_cell None ''b'' ''a'']) \<and> cl_class cl = ''cell-bad''"
proof -
  let ?e = "\<lparr>me_SourceID = ''a'', me_TargetID = ''b'', me_AvgLatMS = 60, me_MinLatMS = 60, me_MaxLatMS = 60,
     me_Samples = 1, me_HasError = False, me_LastSeen = 0\<rparr>"
  have E: "quiet_render plain_env" "templ_ok plain_env" by (simp_all add: quiet_render_def templ_ok_def plain_env_def)
  have "CHR ''-'' \<notin> set n" if "n \<in> set (lm_Nodes two_hub_matrix)" for n
    using that by (auto simp: two_hub_matrix_def)
  with live_update_correct [OF E, of two_hub_matrix "''a''" slow_observation ?e] obtain cl where
    "onmessage (event_message (probe_event_of ''a'' slow_observation)) (matrix_cells two_hub_matrix) =
       (False, [cl, matrix_cell None ''b'' ''a''])"
    by (auto simp: two_hub_matrix_def slow_observation_def pairs_def LatencyMatrix_Get_def)
  then show ?thesis
    by (simp add: onmessage_def event_message_def probe_event_of_def slow_observation_def matrix_cells_def two_hub_matrix_def
        pairs_def LatencyMatrix_Get_def matrix_cell_def cellID_def live_class_def Let_def) auto
qed

end
