(* ===== verification/Concurrency.thy ===== *)
theory Concurrency
  imports Routes
begin

text \<open>
  Requests that run at the same time. \<open>net/http\<close> serves every request in its own goroutine. Two mutexes and the only
  connection of the controller's database (\<open>SetMaxOpenConns(1)\<close> in \<open>db.go\<close>) are locks: a goroutine that needs one
  waits until it is free. A statement, or a transaction as a whole, takes the connection and returns it (a query
  returns it when its rows are read to the end), so the statements of different requests alternate.

  A handler is a \<^emph>\<open>task\<close>: a tree of steps, each with the condition it waits for. The tasks below split the handlers of
  \<open>admin.go\<close>, \<open>ui.go\<close>, \<open>targets.go\<close> and \<open>results.go\<close> and the store's methods in \<open>nodes.go\<close> at the points where
  they take a lock, work under it and release it; \<open>pool_step\<close> lets any task of a pool go on whose condition holds.
\<close>

section \<open>Tasks\<close>

datatype 'a task = Return 'a | Await "server \<Rightarrow> bool" "server \<Rightarrow> 'a task \<times> server"

abbreviation Atomic :: "(server \<Rightarrow> 'a task \<times> server) \<Rightarrow> 'a task" where
  "Atomic f \<equiv> Await (\<lambda>_. True) f"

text \<open>A task that runs alone; the first argument is the answer of a task that waits for ever.\<close>

primrec run :: "'a \<Rightarrow> 'a task \<Rightarrow> server \<Rightarrow> 'a \<times> server" where
  "run b (Return x) = (\<lambda>s. (x, s))"
| "run b (Await g f) = (\<lambda>s. if g s then (case map_prod (run b) id (f s) of (h, s1) \<Rightarrow> h s1) else (b, s))"

section \<open>Locks\<close>

datatype lock = DbConn | DropsMu | HubMu

fun is_locked :: "lock \<Rightarrow> server \<Rightarrow> bool" where
  "is_locked DbConn s = sv_connBusy s"
| "is_locked DropsMu s = sv_dropsMu s"
| "is_locked HubMu s = sv_hubMu s"

fun set_lock :: "lock \<Rightarrow> bool \<Rightarrow> server \<Rightarrow> server" where
  "set_lock DbConn b s = s\<lparr>sv_connBusy := b\<rparr>"
| "set_lock DropsMu b s = s\<lparr>sv_dropsMu := b\<rparr>"
| "set_lock HubMu b s = s\<lparr>sv_hubMu := b\<rparr>"

definition acquire :: "lock \<Rightarrow> 'a task \<Rightarrow> 'a task" where
  "acquire l t = Await (\<lambda>s. \<not> is_locked l s) (\<lambda>s. (t, set_lock l True s))"

definition release :: "lock \<Rightarrow> 'a task \<Rightarrow> 'a task" where
  "release l t = Atomic (\<lambda>s. (t, set_lock l False s))"

text \<open>A statement or a transaction; a call outside the database; work of the handler itself.\<close>

definition statement :: "(ctl_db \<Rightarrow> 'b \<times> ctl_db) \<Rightarrow> ('b \<Rightarrow> 'a task) \<Rightarrow> 'a task" where
  "statement f k = acquire DbConn (Atomic (\<lambda>s. case on_db f s of (x, s1) \<Rightarrow> (release DbConn (k x), s1)))"

definition external :: "(ctl_db \<Rightarrow> 'b \<times> ctl_db) \<Rightarrow> ('b \<Rightarrow> 'a task) \<Rightarrow> 'a task" where
  "external f k = Atomic (\<lambda>s. case on_db f s of (x, s1) \<Rightarrow> (k x, s1))"

definition perform :: "(server \<Rightarrow> server) \<Rightarrow> 'a task \<Rightarrow> 'a task" where
  "perform f t = Atomic (\<lambda>s. (t, f s))"

text \<open>Any task that is not finished and does not wait may make its next step.\<close>

inductive pool_step :: "'a task list \<times> server \<Rightarrow> 'a task list \<times> server \<Rightarrow> bool" where
  go_on: "i < length ts \<Longrightarrow> ts ! i = Await g f \<Longrightarrow> g s \<Longrightarrow> f s = (t, s') \<Longrightarrow> pool_step (ts, s) (ts[i := t], s')"

inductive_cases pool_stepE: "pool_step (ts, s) (ts', s')"

text \<open>The pool after the tasks with the given numbers made a step each, in this order; a task that waits makes none.\<close>

fun run_schedule :: "nat list \<Rightarrow> 'a task list \<Rightarrow> server \<Rightarrow> 'a task list \<times> server" where
  "run_schedule [] ts s = (ts, s)"
| "run_schedule (i # is) ts s =
     (if i < length ts
      then (case ts ! i of
              Return x \<Rightarrow> run_schedule is ts s
            | Await g f \<Rightarrow> if g s then (case f s of (t, s1) \<Rightarrow> run_schedule is (ts[i := t]) s1) else run_schedule is ts s)
      else run_schedule is ts s)"

section \<open>The store\<close>

definition upsert_task :: "world \<Rightarrow> node \<Rightarrow> (ctl_error option \<Rightarrow> 'a task) \<Rightarrow> 'a task" where
  "upsert_task w n k =
     statement (node_Get w (nd_ID n)) (\<lambda>got.
       let priorMissing = (got = Inl ErrUnknownNode);
           prior = (case got of Inr p \<Rightarrow> p | Inl _ \<Rightarrow> zero_node)
       in case (got, priorMissing) of
            (Inl e, False) \<Rightarrow> k (Some e)
          | _ \<Rightarrow>
              statement (upsert_stmt w n) (\<lambda>u.
                case u of
                  Some e \<Rightarrow> k (Some (CtlErr ''controller: upsert node'' e))
                | None \<Rightarrow>
                    if hubSetChanged prior n priorMissing
                    then statement (bumpTargetsVersion w) (\<lambda>_. k None)
                    else k None))"

definition delete_task :: "world \<Rightarrow> string \<Rightarrow> (ctl_error option \<Rightarrow> 'a task) \<Rightarrow> 'a task" where
  "delete_task w i k =
     statement (node_Get w i) (\<lambda>got.
       case got of
         Inl e \<Rightarrow> k (Some e)
       | Inr prior \<Rightarrow>
           statement (delete_node_stmt w i) (\<lambda>d.
             case d of
               Inl e \<Rightarrow> k (Some (CtlErr ''controller: delete node'' e))
             | Inr n \<Rightarrow>
                 external (cd_call w) (\<lambda>c.
                   case c of
                     Some e \<Rightarrow> k (Some (CtlErr ''controller: delete rows'' e))
                   | None \<Rightarrow>
                       if n = 0 then k (Some ErrNoRows)
                       else if nd_Role prior = RoleHub \<and> \<not> nd_Disabled prior
                       then statement (bumpTargetsVersion w) (\<lambda>_. k None)
                       else k None)))"

definition hub_targets_task :: "world \<Rightarrow> string \<Rightarrow> (ctl_error + node list \<times> go_int \<Rightarrow> 'a task) \<Rightarrow> 'a task" where
  "hub_targets_task w nodeID k =
     statement (\<lambda>db. cd_query w (hub_rows nodeID db) db) (\<lambda>q.
       case q of
         Inl (QSelect, e, _) \<Rightarrow> k (Inl (CtlErr ''controller: hub targets'' e))
       | Inl (QScan, e, _) \<Rightarrow> k (Inl (DbErr e))
       | Inl (QRows, e, _) \<Rightarrow> k (Inl (DbErr e))
       | Inr rs \<Rightarrow>
           statement (TargetsVersion w) (\<lambda>v.
             case v of Inl e \<Rightarrow> k (Inl e) | Inr x \<Rightarrow> k (Inr (map hub_node rs, x))))"

section \<open>The handlers\<close>

definition create_task :: "world \<Rightarrow> codec \<Rightarrow> rand_read \<Rightarrow> request \<Rightarrow> response task" where
  "create_task w c rnd r =
     (case json_create c (rq_body r) of
        Inl e \<Rightarrow> Return (writeJSONError 422 (''invalid json: '' @ e))
      | Inr req \<Rightarrow>
          (case validateAdminNodeFields (ac_ID req) (ac_Role req) (ac_Address req) of
             Some e \<Rightarrow> Return (writeJSONError 422 e)
           | None \<Rightarrow>
               statement (node_Get w (ac_ID req)) (\<lambda>got.
                 case got of
                   Inr _ \<Rightarrow> Return (writeJSONError 409 ''node already exists'')
                 | Inl e \<Rightarrow>
                     if e \<noteq> ErrUnknownNode then Return (writeJSONError 500 (ctl_error_text e))
                     else
                       (case (if ac_Secret req = [] then mintSecret rnd else Inr (ac_Secret req)) of
                          Inl _ \<Rightarrow> Return (writeJSONError 500 ''internal error'')
                        | Inr secret \<Rightarrow>
                            (let n = \<lparr>nd_ID = ac_ID req, nd_Role = ac_Role req, nd_SecretHash = HashSecret secret,
                                      nd_Address = ac_Address req, nd_Disabled = ac_Disabled req\<rparr>
                             in upsert_task w n (\<lambda>u.
                                  case u of
                                    Some _ \<Rightarrow> Return (writeJSONError 500 ''internal error'')
                                  | None \<Rightarrow> Return (writeJSON 201 (BCreated (admin_node_of n) secret))))))))"

definition patch_task :: "world \<Rightarrow> codec \<Rightarrow> request \<Rightarrow> response task" where
  "patch_task w c r =
     (let i = rq_path_id r in
      if i = [] then Return (writeJSONError 422 ''missing id'')
      else
        statement (node_Get w i) (\<lambda>got.
          case got of
            Inl ErrUnknownNode \<Rightarrow> Return (writeJSONError 404 ''unknown node'')
          | Inl e \<Rightarrow> Return (writeJSONError 500 (ctl_error_text e))
          | Inr cur \<Rightarrow>
              (case json_patch c (rq_body r) of
                 Inl e \<Rightarrow> Return (writeJSONError 422 (''invalid json: '' @ e))
               | Inr req \<Rightarrow>
                   (let nxt = apply_patch req cur in
                    case validateAdminNodeFields (nd_ID nxt) (nd_Role nxt) (nd_Address nxt) of
                      Some e \<Rightarrow> Return (writeJSONError 422 e)
                    | None \<Rightarrow>
                        upsert_task w nxt (\<lambda>u.
                          case u of
                            Some _ \<Rightarrow> Return (writeJSONError 500 ''internal error'')
                          | None \<Rightarrow> Return (writeJSON 200 (BNode (admin_node_of nxt))))))))"

definition admin_delete_task :: "world \<Rightarrow> request \<Rightarrow> response task" where
  "admin_delete_task w r =
     (let i = rq_path_id r in
      if i = [] then Return (writeJSONError 422 ''missing id'')
      else
        delete_task w i (\<lambda>d.
          case d of
            Some e \<Rightarrow> (if e = ErrUnknownNode \<or> e = ErrNoRows then Return (writeJSONError 404 ''unknown node'')
                        else Return (writeJSONError 500 ''internal error''))
          | None \<Rightarrow> Return (writeJSON 204 BEmpty)))"

definition ui_create_task :: "world \<Rightarrow> rand_read \<Rightarrow> request \<Rightarrow> response task" where
  "ui_create_task w rnd r =
     (let i = trim_space (rq_form r ''id''); role = trim_space (rq_form r ''role'');
          address = trim_space (rq_form r ''address''); secret0 = trim_space (rq_form r ''secret'') in
      case validateAdminNodeFields i role address of
        Some e \<Rightarrow> Return (http_Error e 422)
      | None \<Rightarrow>
          (case (if secret0 = [] then mintSecret rnd else Inr secret0) of
             Inl _ \<Rightarrow> Return (http_Error ''internal error'' 500)
           | Inr secret \<Rightarrow>
               upsert_task w \<lparr>nd_ID = i, nd_Role = role, nd_SecretHash = HashSecret secret, nd_Address = address,
                              nd_Disabled = False\<rparr> (\<lambda>u.
                 case u of
                   Some _ \<Rightarrow> Return (http_Error ''internal error'' 500)
                 | None \<Rightarrow>
                     statement (node_List w) (\<lambda>l.
                       case l of
                         (_, Some _) \<Rightarrow> Return (http_Error ''internal error'' 500)
                       | (ns, None) \<Rightarrow> Return (renderHTML (BNodesPage (map nodeToInfo ns) secret))))))"

definition ui_delete_task :: "world \<Rightarrow> request \<Rightarrow> response task" where
  "ui_delete_task w r =
     delete_task w (rq_path_id r) (\<lambda>d.
       case d of
         Some _ \<Rightarrow> Return (http_Error ''not found'' 404)
       | None \<Rightarrow> Return (writeJSON 200 BEmpty))"

definition ui_toggle_task :: "world \<Rightarrow> bool \<Rightarrow> request \<Rightarrow> response task" where
  "ui_toggle_task w disable r =
     statement (node_Get w (rq_path_id r)) (\<lambda>got.
       case got of
         Inl _ \<Rightarrow> Return (http_Error ''not found'' 404)
       | Inr nd \<Rightarrow>
           (let nd1 = nd\<lparr>nd_Disabled := disable\<rparr> in
            upsert_task w nd1 (\<lambda>u.
              case u of
                Some _ \<Rightarrow> Return (http_Error ''internal error'' 500)
              | None \<Rightarrow> Return (renderHTML (BNodeRow (nodeToInfo nd1))))))"

definition targets_task :: "world \<Rightarrow> node \<Rightarrow> response task" where
  "targets_task w nd =
     hub_targets_task w (nd_ID nd) (\<lambda>t.
       case t of
         Inl _ \<Rightarrow> Return (writeJSONError 500 ''internal error'')
       | Inr (hubs, v) \<Rightarrow>
           Return (writeJSON 200 (BTargets (map (\<lambda>h. \<lparr>te_ID = nd_ID h, te_Address = nd_Address h\<rparr>) hubs) v)))"

text \<open>The section under \<open>dropsMu\<close>: a panic ends the handler without an answer and skips the \<open>Unlock\<close>.\<close>

definition drops_task :: "string \<Rightarrow> go_int \<Rightarrow> response task \<Rightarrow> response task" where
  "drops_task nodeID reported t =
     acquire DropsMu (Atomic (\<lambda>s.
       case drops_section nodeID reported s of
         None \<Rightarrow> (Return no_answer, s)
       | Some s1 \<Rightarrow> (release DropsMu t, s1)))"

definition ingest_task :: "string \<Rightarrow> results_request \<Rightarrow> go_int \<Rightarrow> response task \<Rightarrow> response task" where
  "ingest_task nodeID req status t =
     Atomic (\<lambda>s.
       if sv_metrics s = None then (t, s)
       else (drops_task nodeID (SpoolDropsTotal (SpoolMetadata req)) (perform (count_results req status) t),
             set_gauges nodeID req s))"

text \<open>The hub's mutex is taken for every message.\<close>

primrec broadcast_task :: "codec \<Rightarrow> string \<Rightarrow> observation list \<Rightarrow> 'a task \<Rightarrow> 'a task" where
  "broadcast_task c sourceID [] t = t"
| "broadcast_task c sourceID (ob # obs) t =
     acquire HubMu
     (perform (\<lambda>s. s\<lparr>sv_wsHub := Broadcast (json_event c (probe_event_of sourceID ob)) (sv_wsHub s)\<rparr>)
     (release HubMu (broadcast_task c sourceID obs t)))"

definition finish_task :: "world \<Rightarrow> codec \<Rightarrow> string \<Rightarrow> results_request \<Rightarrow> go_int \<Rightarrow> gotime \<Rightarrow> response task" where
  "finish_task w c nodeID req status start =
     external (cd_now w) (\<lambda>now.
     statement (UpdateSpoolStats w nodeID (request_stats req now)) (\<lambda>_.
     ingest_task nodeID req status
     (broadcast_task c nodeID (if status = 201 then Results req else [])
     (perform (observeIngest w nodeID status start)
     (statement (TargetsVersion w) (\<lambda>v.
        Return (writeJSON status (BStatus (case v of Inr x \<Rightarrow> Some x | Inl _ \<Rightarrow> None)))))))))"

definition results_task :: "world \<Rightarrow> codec \<Rightarrow> node \<Rightarrow> request \<Rightarrow> response task" where
  "results_task w c nd r =
     external (cd_now w) (\<lambda>start.
       let nodeID = nd_ID nd in
       case json_results c (rq_body r) of
         Inl e \<Rightarrow> perform (observeIngest w nodeID 422 start) (Return (writeJSONError 422 (''invalid json: '' @ e)))
       | Inr req \<Rightarrow>
           (case validateResultsRequest nodeID req of
              Some e \<Rightarrow> perform (observeIngest w nodeID 422 start) (Return (writeJSON 422 (BInvalid e)))
            | None \<Rightarrow>
                statement (persistResults w req) (\<lambda>p.
                  case p of
                    Inl e \<Rightarrow> perform (observeIngest w nodeID 500 start) (Return (writeJSONError 500 ''internal error''))
                  | Inr status \<Rightarrow> finish_task w c nodeID req status start)))"

text \<open>\<open>bearerAuth\<close> reads the node before the handler runs.\<close>

definition bearer_task :: "world \<Rightarrow> (node \<Rightarrow> response task) \<Rightarrow> request \<Rightarrow> response task" where
  "bearer_task w nxt r =
     (let nodeID = rq_header r ''X-NLM-Node-Id'' in
      case parseBearer (rq_header r ''Authorization'') of
        None \<Rightarrow> Return (writeJSONError 401 ''unauthorized'')
      | Some token \<Rightarrow>
          if nodeID = [] then Return (writeJSONError 401 ''unauthorized'')
          else
            statement (node_Get w nodeID) (\<lambda>got.
              case got of
                Inl ErrUnknownNode \<Rightarrow> Return (writeJSONError 401 ''unauthorized'')
              | Inl _ \<Rightarrow> Return (writeJSONError 500 ''internal error'')
              | Inr nd \<Rightarrow>
                  if \<not> VerifySecret nd token then Return (writeJSONError 401 ''unauthorized'')
                  else nxt nd))"

text \<open>The requests that change the tables, and those for the targets, behind their checks.\<close>

datatype job =
    JCreate rand_read | JPatch | JDelete | JUICreate rand_read | JUIDelete | JUIToggle bool | JTargets | JResults

fun job_task :: "world \<Rightarrow> codec \<Rightarrow> job \<Rightarrow> request \<Rightarrow> response task" where
  "job_task w c (JCreate rnd) r = create_task w c rnd r"
| "job_task w c JPatch r = patch_task w c r"
| "job_task w c JDelete r = admin_delete_task w r"
| "job_task w c (JUICreate rnd) r = ui_create_task w rnd r"
| "job_task w c JUIDelete r = ui_delete_task w r"
| "job_task w c (JUIToggle b) r = ui_toggle_task w b r"
| "job_task w c JTargets r = bearer_task w (targets_task w) r"
| "job_task w c JResults r = bearer_task w (\<lambda>nd. results_task w c nd r) r"

fun job_handler :: "world \<Rightarrow> codec \<Rightarrow> job \<Rightarrow> handler" where
  "job_handler w c (JCreate rnd) = handleAdminCreateNode w c rnd"
| "job_handler w c JPatch = handleAdminPatchNode w c"
| "job_handler w c JDelete = handleAdminDeleteNode w"
| "job_handler w c (JUICreate rnd) = handleFragCreateNode w rnd"
| "job_handler w c JUIDelete = handleFragDeleteNode w"
| "job_handler w c (JUIToggle b) = patchDisabled w b"
| "job_handler w c JTargets = bearerAuth w (handleTargets w)"
| "job_handler w c JResults = bearerAuth w (handleResults w c)"

end
