(* ===== verification/Concurrency_Props.thy ===== *)
theory Concurrency_Props
  imports Concurrency Routes_Props
begin

text \<open>
  Properties of concurrent requests: a task that runs alone is the handler it splits; every interleaving ends, and
  as long as no report makes the handler panic under its mutex every request is answered; the tables stay
  consistent, and what is acknowledged is stored. At the end, schedules in which the atomicity of the handlers is
  missed, and one in which a panic makes the later requests wait for ever.
\<close>

section \<open>A task alone is its handler\<close>

text \<open>A request that runs alone finds the connection and the hub's mutex free.\<close>

definition idle :: "server \<Rightarrow> bool" where
  "idle s \<longleftrightarrow> \<not> sv_hubMu s \<and> \<not> sv_connBusy s"

lemma idle_db [simp]: "idle (s\<lparr>sv_db := d\<rparr>) = idle s"
  by (simp add: idle_def)

lemma run_perform [simp]: "run b (perform f t) s = run b t (f s)"
  by (simp add: perform_def)

lemma run_external [simp]: "run b (external f k) s = run b (k (fst (f (sv_db s)))) (s\<lparr>sv_db := snd (f (sv_db s))\<rparr>)"
  by (simp add: external_def on_db_def case_prod_beta)

lemma run_acquire: "run b (acquire l t) s = (if is_locked l s then (b, s) else run b t (set_lock l True s))"
  by (simp add: acquire_def)

lemma run_release: "run b (release l t) s = run b t (set_lock l False s)"
  by (simp add: release_def)

lemma run_statement [simp]:
  assumes "idle s"
  shows "run b (statement f k) s = run b (k (fst (f (sv_db s)))) (s\<lparr>sv_db := snd (f (sv_db s))\<rparr>)"
proof -
  have eq: "s\<lparr>sv_db := d, sv_connBusy := False\<rparr> = s\<lparr>sv_db := d\<rparr>" for d
    using assms by (cases s) (simp add: idle_def)
  show ?thesis
    using assms by (simp add: statement_def run_acquire run_release on_db_def case_prod_beta idle_def eq)
qed

lemma run_upsert_task:
  assumes "idle s"
  shows "run b (upsert_task w n k) s =
    run b (k (fst (node_Upsert w n (sv_db s)))) (s\<lparr>sv_db := snd (node_Upsert w n (sv_db s))\<rparr>)"
proof -
  obtain got db1 where g: "node_Get w (nd_ID n) (sv_db s) = (got, db1)" by fastforce
  obtain u db2 where u: "upsert_stmt w n db1 = (u, db2)" by fastforce
  obtain v db3 where v: "bumpTargetsVersion w db2 = (v, db3)" by fastforce
  show ?thesis
    using assms by (cases got; cases u) (simp_all add: upsert_task_def node_Upsert_def g u v Let_def split: bool.split)
qed

lemma run_delete_task:
  assumes "idle s"
  shows "run b (delete_task w i k) s =
    run b (k (fst (node_Delete w i (sv_db s)))) (s\<lparr>sv_db := snd (node_Delete w i (sv_db s))\<rparr>)"
proof -
  obtain got db1 where g: "node_Get w i (sv_db s) = (got, db1)" by fastforce
  obtain d db2 where d: "delete_node_stmt w i db1 = (d, db2)" by fastforce
  obtain c db3 where c: "cd_call w db2 = (c, db3)" by fastforce
  obtain v db4 where v: "bumpTargetsVersion w db3 = (v, db4)" by fastforce
  show ?thesis
    using assms by (cases got; cases d; cases c) (simp_all add: delete_task_def node_Delete_def g d c v)
qed

lemma run_hub_targets_task:
  assumes "idle s"
  shows "run b (hub_targets_task w i k) s =
    run b (k (fst (HubTargetsFor w i (sv_db s)))) (s\<lparr>sv_db := snd (HubTargetsFor w i (sv_db s))\<rparr>)"
proof -
  obtain q db1 where q: "cd_query w (hub_rows i (sv_db s)) (sv_db s) = (q, db1)" by fastforce
  obtain v db2 where v: "TargetsVersion w db1 = (v, db2)" by fastforce
  show ?thesis
    using assms by (cases q; cases v) (auto simp: hub_targets_task_def HubTargetsFor_def q v split: query_stage.split)
qed

lemmas run_store = run_upsert_task run_delete_task run_hub_targets_task on_db_def Let_def

lemma run_create: "idle s \<Longrightarrow> run b (create_task w c rnd r) s = handleAdminCreateNode w c rnd r s"
  by (auto simp: create_task_def handleAdminCreateNode_def run_store split: sum.split option.split prod.split)

lemma run_patch: "idle s \<Longrightarrow> run b (patch_task w c r) s = handleAdminPatchNode w c r s"
  by (auto simp: patch_task_def handleAdminPatchNode_def run_store split: sum.split option.split prod.split ctl_error.split)

lemma run_admin_delete: "idle s \<Longrightarrow> run b (admin_delete_task w r) s = handleAdminDeleteNode w r s"
  by (auto simp: admin_delete_task_def handleAdminDeleteNode_def run_store split: option.split prod.split)

lemma run_ui_create:
  assumes "idle s"
  shows "run b (ui_create_task w rnd r) s = handleFragCreateNode w rnd r s"
proof (cases "validateAdminNodeFields (trim_space (rq_form r ''id'')) (trim_space (rq_form r ''role''))
    (trim_space (rq_form r ''address''))")
  case (Some e)
  then show ?thesis by (simp add: ui_create_task_def handleFragCreateNode_def Let_def)
next
  case valid: None
  let ?secret = "trim_space (rq_form r ''secret'')"
  show ?thesis
  proof (cases "if ?secret = [] then mintSecret rnd else Inr ?secret")
    case (Inl e)
    then show ?thesis by (simp add: ui_create_task_def handleFragCreateNode_def valid Let_def)
  next
    case (Inr secret)
    let ?n = "\<lparr>nd_ID = trim_space (rq_form r ''id''), nd_Role = trim_space (rq_form r ''role''), nd_SecretHash = HashSecret secret,
      nd_Address = trim_space (rq_form r ''address''), nd_Disabled = False\<rparr>"
    obtain u db1 where u: "node_Upsert w ?n (sv_db s) = (u, db1)" by fastforce
    obtain ns e db2 where l: "node_List w db1 = ((ns, e), db2)" by (metis prod.exhaust)
    show ?thesis
      using assms Inr u l
      by (cases u; cases e)
        (simp_all add: ui_create_task_def handleFragCreateNode_def listNodeInfos_def valid run_upsert_task on_db_def Let_def)
  qed
qed

lemma run_ui_delete: "idle s \<Longrightarrow> run b (ui_delete_task w r) s = handleFragDeleteNode w r s"
  by (auto simp: ui_delete_task_def handleFragDeleteNode_def run_store split: option.split prod.split)

lemma run_ui_toggle: "idle s \<Longrightarrow> run b (ui_toggle_task w d r) s = patchDisabled w d r s"
  by (auto simp: ui_toggle_task_def patchDisabled_def run_store split: sum.split option.split prod.split)

lemma run_targets: "idle s \<Longrightarrow> run b (targets_task w nd) s = handleTargets w (Some nd) r s"
  by (auto simp: targets_task_def handleTargets_def run_store split: sum.split prod.split)

text \<open>The sections of the ingest.\<close>

lemma idle_on_metrics [simp]: "idle (on_metrics f s) = idle s"
  by (simp add: idle_def)

lemma idle_ingest [simp]:
  "idle (set_gauges i req s) = idle s" "idle (count_results req st s) = idle s" "idle (broadcastResults c i obs s) = idle s"
  by (simp_all add: set_gauges_def count_results_def Let_def) (simp add: idle_def broadcastResults_def)

lemma idle_observe [simp]: "idle (observeIngest w i st t s) = idle s"
  by (simp add: observeIngest_def on_db_def case_prod_beta Let_def)

lemma idle_drops: "drops_metric i n s = (x, s1) \<Longrightarrow> idle s1 = idle s"
  by (auto simp: idle_def drops_metric_def drops_section_def on_metrics_def split: if_splits option.splits)

lemma idle_record: "record_ingest i req st s = (x, s1) \<Longrightarrow> idle s1 = idle s"
  by (auto simp: record_ingest_def dest!: idle_drops split: if_splits prod.splits bool.splits)

lemma run_drops:
  "run no_answer (drops_task i n t) s =
     (case drops_metric i n s of (True, s1) \<Rightarrow> run no_answer t s1 | (False, s1) \<Rightarrow> (no_answer, s1))"
  by (auto simp: drops_task_def run_acquire run_release drops_metric_def split: option.split)

lemma run_broadcast:
  assumes "idle s"
  shows "run b (broadcast_task c i obs t) s = run b t (broadcastResults c i obs s)"
  using assms
proof (induction obs arbitrary: s)
  case (Cons ob obs)
  let ?s1 = "s\<lparr>sv_wsHub := Broadcast (json_event c (probe_event_of i ob)) (sv_wsHub s)\<rparr>"
  have eq: "s\<lparr>sv_wsHub := h, sv_hubMu := False\<rparr> = s\<lparr>sv_wsHub := h\<rparr>" for h
    using Cons.prems by (cases s) (simp add: idle_def)
  have "run b (broadcast_task c i (ob # obs) t) s = run b (broadcast_task c i obs t) ?s1"
    using Cons.prems by (simp add: run_acquire run_release idle_def eq)
  also have "\<dots> = run b t (broadcastResults c i obs ?s1)" using Cons.prems by (intro Cons.IH) (simp add: idle_def)
  finally show ?case by (simp add: broadcastResults_def)
qed (simp add: broadcastResults_def)

lemma broadcast_none: "broadcastResults c i [] s = s"
  by (simp add: broadcastResults_def)

lemma run_finish:
  assumes "idle s"
  shows "run no_answer (finish_task w c i req st t) s = finish_results w c i req st t s"
proof -
  obtain now db1 where n: "cd_now w (sv_db s) = (now, db1)" by fastforce
  obtain u db2 where u: "UpdateSpoolStats w i (request_stats req now) db1 = (u, db2)" by fastforce
  let ?s2 = "s\<lparr>sv_db := db2\<rparr>"
  let ?rest = "broadcast_task c i (if st = 201 then Results req else []) (perform (observeIngest w i st t)
     (statement (TargetsVersion w) (\<lambda>v. Return (writeJSON st (BStatus (case v of Inr x \<Rightarrow> Some x | Inl _ \<Rightarrow> None))))))"
  have rest: "run no_answer ?rest s1 =
      (let s4 = (if st = 201 then broadcastResults c i (Results req) s1 else s1); s5 = observeIngest w i st t s4;
           (v, s6) = on_db (TargetsVersion w) s5
       in (writeJSON st (BStatus (case v of Inr x \<Rightarrow> Some x | Inl _ \<Rightarrow> None)), s6))" if "idle s1" for s1
    using that by (simp add: run_broadcast broadcast_none on_db_def Let_def case_prod_beta)
  have "run no_answer (finish_task w c i req st t) s = run no_answer (ingest_task i req st ?rest) ?s2"
    using assms by (simp add: finish_task_def n u)
  also have "\<dots> = (case record_ingest i req st ?s2 of (False, s3) \<Rightarrow> (no_answer, s3) | (True, s3) \<Rightarrow> run no_answer ?rest s3)"
    by (simp add: ingest_task_def record_ingest_def run_drops split: prod.split bool.split)
  also have "\<dots> = finish_results w c i req st t s"
    using assms idle_record [of i req st ?s2] rest
    by (auto simp: finish_results_def on_db_def n u Let_def split: prod.split bool.split)
  finally show ?thesis .
qed

lemma run_results: "idle s \<Longrightarrow> run no_answer (results_task w c nd r) s = handleResults w c (Some nd) r s"
  by (auto simp: results_task_def handleResults_def run_finish on_db_def Let_def split: sum.split option.split prod.split)

lemma run_bearer:
  assumes "idle s" "\<And>nd s. idle s \<Longrightarrow> run b (t nd) s = nxt (Some nd) r s"
  shows "run b (bearer_task w t r) s = bearerAuth w nxt r s"
  using assms(1)
  by (auto simp: bearer_task_def bearerAuth_def assms(2) on_db_def Let_def split: option.split prod.split sum.split ctl_error.split)

text \<open>The division into steps changes nothing for a request that runs alone: for every kind of request the task
  gives the answer and the state of the handler.\<close>

lemma task_alone_is_handler: "idle s \<Longrightarrow> run no_answer (job_task w c j r) s = job_handler w c j r s"
  by (cases j) (simp_all add: run_create run_patch run_admin_delete run_ui_create run_ui_delete run_ui_toggle
      run_bearer run_targets run_results)

section \<open>Every interleaving ends\<close>

text \<open>\<open>at_most n t\<close>: the task makes at most \<open>n\<close> steps, whatever the state is at each of them.\<close>

primrec at_most :: "nat \<Rightarrow> 'a task \<Rightarrow> bool" where
  "at_most 0 t \<longleftrightarrow> (\<exists>x. t = Return x)"
| "at_most (Suc n) t \<longleftrightarrow> (case t of Return x \<Rightarrow> True | Await g f \<Rightarrow> \<forall>s. at_most n (fst (f s)))"

lemma at_most_Return [simp]: "at_most n (Return x)"
  by (cases n) simp_all

lemma at_most_Suc: "at_most n t \<Longrightarrow> at_most (Suc n) t"
proof (induction n arbitrary: t)
  case (Suc n)
  then show ?case by (cases t) simp_all
qed auto

lemma at_most_mono:
  assumes "at_most n t" "n \<le> m"
  shows "at_most m t"
  using assms(2,1) by (induction rule: dec_induct) (blast intro: at_most_Suc)+

lemma at_most_Await: "at_most n (Await g f) \<longleftrightarrow> (\<exists>m. n = Suc m \<and> (\<forall>s. at_most m (fst (f s))))"
  by (cases n) simp_all

text \<open>A step takes one from the bound of its task.\<close>

lemma pool_step_at_most:
  assumes "pool_step (ts, s) (ts', s')" "list_all2 at_most ns ts"
  obtains ns' where "list_all2 at_most ns' ts'" "sum_list ns = Suc (sum_list ns')"
proof -
  obtain i g f t where st: "ts' = ts[i := t]" "i < length ts" "ts ! i = Await g f" "f s = (t, s')"
    using assms(1) by (rule pool_stepE)
  have len: "i < length ns" using st(2) list_all2_lengthD [OF assms(2)] by simp
  have "at_most (ns ! i) (Await g f)" using list_all2_nthD [OF assms(2) len] st(3) by simp
  then obtain m where m: "ns ! i = Suc m" "at_most m (fst (f s))" by (auto simp: at_most_Await)
  have "list_all2 at_most (ns[i := m]) ts'" using assms(2) m(2) st(1,4) by (simp add: list_all2_update_cong)
  moreover have "sum_list ns = Suc (sum_list (ns[i := m]))"
    using len m(1) elem_le_sum_list [OF len] by (simp add: sum_list_update)
  ultimately show ?thesis by (rule that)
qed

lemma pool_steps_at_most:
  assumes "(pool_step ^^ n) (ts, s) (ts', s')" "list_all2 at_most ns ts"
  shows "n \<le> sum_list ns \<and> length ts' = length ts"
  using assms
proof (induction n arbitrary: ts s ns)
  case (Suc n)
  obtain ts1 s1 where st: "pool_step (ts, s) (ts1, s1)" "(pool_step ^^ n) (ts1, s1) (ts', s')"
    using relpowp_Suc_D2 [OF Suc.prems(1)] by auto
  obtain ns1 where "list_all2 at_most ns1 ts1" "sum_list ns = Suc (sum_list ns1)"
    using pool_step_at_most [OF st(1) Suc.prems(2)] .
  moreover have "length ts1 = length ts" using st(1) by (auto elim: pool_stepE)
  ultimately show ?case using Suc.IH [OF st(2)] by simp
qed simp

text \<open>The bounds of the building blocks, counted down from the bound of the whole.\<close>

named_theorems at_most_intros \<open>bounds on the steps of tasks\<close>

lemma at_most_step: "(\<And>s. at_most (m - 1) (fst (f s))) \<Longrightarrow> 1 \<le> m \<Longrightarrow> at_most m (Await g f)"
  unfolding at_most_Await by (intro exI [of _ "m - 1"]) simp

lemma at_most_single [at_most_intros]:
  "at_most (m - 1) t \<Longrightarrow> 1 \<le> m \<Longrightarrow> at_most m (acquire l t)"
  "at_most (m - 1) t \<Longrightarrow> 1 \<le> m \<Longrightarrow> at_most m (release l t)"
  "at_most (m - 1) t \<Longrightarrow> 1 \<le> m \<Longrightarrow> at_most m (perform u t)"
  unfolding acquire_def release_def perform_def by (rule at_most_step; simp)+

lemma at_most_external [at_most_intros]: "(\<And>x. at_most (m - 1) (k x)) \<Longrightarrow> 1 \<le> m \<Longrightarrow> at_most m (external f k)"
  unfolding external_def by (rule at_most_step) (simp_all split: prod.split)

lemma at_most_statement [at_most_intros]:
  assumes "\<And>x. at_most (m - 3) (k x)" "3 \<le> m"
  shows "at_most m (statement f k)"
  unfolding statement_def using assms
  by (intro at_most_single(1) at_most_step) (auto intro!: at_most_single simp: numeral_3_eq_3 split: prod.split)

lemma at_most_upsert_task [at_most_intros]:
  assumes "\<And>x. at_most (m - 9) (k x)" "9 \<le> m"
  shows "at_most m (upsert_task w nd k)"
proof -
  have "at_most n (k x)" if "m - 9 \<le> n" for n x using at_most_mono [OF assms(1) that] .
  then show ?thesis
    using assms(2) unfolding upsert_task_def Let_def
    by (intro at_most_statement) (auto split: sum.split bool.split option.split intro!: at_most_statement)
qed

lemma at_most_delete_task [at_most_intros]:
  assumes "\<And>x. at_most (m - 10) (k x)" "10 \<le> m"
  shows "at_most m (delete_task w i k)"
proof -
  have "at_most n (k x)" if "m - 10 \<le> n" for n x using at_most_mono [OF assms(1) that] .
  then show ?thesis
    using assms(2) unfolding delete_task_def
    by (intro at_most_statement) (auto split: sum.split option.split intro!: at_most_statement at_most_external, arith+)
qed

lemma at_most_hub_targets_task [at_most_intros]:
  assumes "\<And>x. at_most (m - 6) (k x)" "6 \<le> m"
  shows "at_most m (hub_targets_task w i k)"
proof -
  have "at_most n (k x)" if "m - 6 \<le> n" for n x using at_most_mono [OF assms(1) that] .
  then show ?thesis
    using assms(2) unfolding hub_targets_task_def
    by (intro at_most_statement) (auto split: sum.split prod.split query_stage.split intro!: at_most_statement)
qed

lemma at_most_drops [at_most_intros]:
  "at_most (m - 3) t \<Longrightarrow> 3 \<le> m \<Longrightarrow> at_most m (drops_task i n t)"
  unfolding drops_task_def
  by (intro at_most_single(1) at_most_step) (auto intro!: at_most_single simp: numeral_3_eq_3 split: option.split)

lemma at_most_ingest [at_most_intros]:
  assumes "at_most (m - 5) t" "5 \<le> m"
  shows "at_most m (ingest_task i req st t)"
proof -
  have "at_most n t" if "m - 5 \<le> n" for n using at_most_mono [OF assms(1) that] .
  then show ?thesis
    using assms(2) unfolding ingest_task_def by (intro at_most_step) (auto intro!: at_most_drops at_most_single)
qed

lemma at_most_broadcast [at_most_intros]:
  "at_most (m - 3 * length obs) t \<Longrightarrow> 3 * length obs \<le> m \<Longrightarrow> at_most m (broadcast_task c i obs t)"
proof (induction obs arbitrary: m)
  case (Cons ob obs)
  have "m - 1 - 1 - 1 - 3 * length obs = m - 3 * length (ob # obs)" by simp
  then have "at_most (m - 1 - 1 - 1) (broadcast_task c i obs t)"
    using Cons.prems by (intro Cons.IH) (simp_all only:, simp)
  then show ?case using Cons.prems(2) by (simp only: broadcast_task.simps) (intro at_most_single; simp)
qed simp

text \<open>How many steps a request may make.\<close>

definition observations :: "codec \<Rightarrow> job \<Rightarrow> request \<Rightarrow> nat" where
  "observations c j r = (case (j, json_results c (rq_body r)) of (JResults, Inr req) \<Rightarrow> length (Results req) | _ \<Rightarrow> 0)"

lemma at_most_finish: "at_most (13 + 3 * length (Results req)) (finish_task w c i req st t)"
  unfolding finish_task_def
  by (intro at_most_external at_most_statement at_most_ingest at_most_broadcast at_most_single at_most_Return) auto

lemma at_most_results: "at_most (17 + 3 * observations c JResults r) (results_task w c nd r)"
  unfolding results_task_def Let_def
  by (intro at_most_external)
    (auto split: sum.split option.split intro!: at_most_intros at_most_finish [THEN at_most_mono] simp: observations_def)

lemma at_most_bearer: "(\<And>nd. at_most (m - 3) (t nd)) \<Longrightarrow> 3 \<le> m \<Longrightarrow> at_most m (bearer_task w t r)"
  unfolding bearer_task_def Let_def
  by (auto split: option.split sum.split ctl_error.split intro!: at_most_intros)

lemma at_most_job: "at_most (20 + 3 * observations c j r) (job_task w c j r)"
proof -
  have "at_most 20 (create_task w c rnd r)" for rnd
    unfolding create_task_def Let_def by (auto split: sum.split option.split intro!: at_most_intros)
  moreover have "at_most 20 (patch_task w c r)"
    unfolding patch_task_def Let_def by (auto split: sum.split option.split ctl_error.split intro!: at_most_intros)
  moreover have "at_most 20 (admin_delete_task w r)"
    unfolding admin_delete_task_def Let_def by (auto split: option.split intro!: at_most_intros)
  moreover have "at_most 20 (ui_create_task w rnd r)" for rnd
    unfolding ui_create_task_def Let_def by (auto split: sum.split option.split prod.split intro!: at_most_intros)
  moreover have "at_most 20 (ui_delete_task w r)"
    unfolding ui_delete_task_def by (auto split: option.split intro!: at_most_intros)
  moreover have "at_most 20 (ui_toggle_task w b r)" for b
    unfolding ui_toggle_task_def Let_def by (auto split: sum.split option.split intro!: at_most_intros)
  moreover have "at_most 20 (bearer_task w (targets_task w) r)"
    unfolding targets_task_def [abs_def] by (intro at_most_bearer at_most_intros) (auto split: sum.split prod.split)
  moreover have "at_most (20 + 3 * observations c JResults r) (bearer_task w (\<lambda>nd. results_task w c nd r) r)"
    by (intro at_most_bearer at_most_results [THEN at_most_mono]) simp_all
  ultimately show ?thesis
    by (cases j) (simp_all add: at_most_mono [of 20])
qed

section \<open>No request waits for ever\<close>

definition locks :: "server \<Rightarrow> lock set" where
  "locks s = {l. is_locked l s}"

lemma locks_set_lock [simp]:
  "locks (set_lock l True s) = insert l (locks s)" "locks (set_lock l False s) = locks s - {l}"
proof -
  have "is_locked x (set_lock l b s) = (if x = l then b else is_locked x s)" for x b by (cases x; cases l) simp_all
  then show "locks (set_lock l True s) = insert l (locks s)" "locks (set_lock l False s) = locks s - {l}"
    by (auto simp: locks_def)
qed

lemma locks_cong: "sv_dropsMu s' = sv_dropsMu s \<Longrightarrow> sv_hubMu s' = sv_hubMu s \<Longrightarrow> sv_connBusy s' = sv_connBusy s \<Longrightarrow> locks s' = locks s"
  unfolding locks_def by (rule Collect_cong, case_tac l) simp_all

text \<open>The last reports, as long as no agent has reported a negative total.\<close>

definition counted :: "server \<Rightarrow> bool" where
  "counted s \<longleftrightarrow> (\<forall>i. 0 \<le> sv_lastDrops s i \<and> int64 (sv_lastDrops s i))"

lemma counted_cong: "sv_lastDrops s' = sv_lastDrops s \<Longrightarrow> counted s' = counted s"
  by (simp add: counted_def)

lemma counted_set_lock [simp]: "counted (set_lock l b s) = counted s"
  by (cases l) (simp_all add: counted_def)

text \<open>\<open>orderly h t\<close>: a task that holds the locks \<open>h\<close>. It waits only when it holds none and some lock is held by another, a
  step gives back or takes locks and leaves those of the others alone, and at its end it holds none.\<close>

inductive orderly :: "lock set \<Rightarrow> 'a task \<Rightarrow> bool" where
  finished: "orderly {} (Return x)"
| going_on: "(\<And>s. h \<subseteq> locks s \<Longrightarrow> \<not> g s \<Longrightarrow> h = {} \<and> locks s \<noteq> {}) \<Longrightarrow>
   (\<And>s. counted s \<Longrightarrow> h \<subseteq> locks s \<Longrightarrow> g s \<Longrightarrow>
      counted (snd (f s)) \<and> (\<exists>h'. h' \<inter> (locks s - h) = {} \<and> locks (snd (f s)) = (locks s - h) \<union> h' \<and> orderly h' (fst (f s)))) \<Longrightarrow>
   orderly h (Await g f)"

inductive_simps orderly_Return [simp]: "orderly h (Return x)"
inductive_cases orderly_AwaitE: "orderly h (Await g f)"

named_theorems orderly_intros \<open>orderly tasks\<close>

lemma orderly_acquire [orderly_intros]: "orderly {l} t \<Longrightarrow> orderly {} (acquire l t)"
  unfolding acquire_def
proof (rule orderly.going_on)
  fix s assume "orderly {l} t" "counted s" "\<not> is_locked l s"
  moreover have "l \<notin> locks s" using calculation(3) by (simp add: locks_def)
  ultimately show "counted (snd (t, set_lock l True s)) \<and> (\<exists>h'. h' \<inter> (locks s - {}) = {} \<and>
      locks (snd (t, set_lock l True s)) = (locks s - {}) \<union> h' \<and> orderly h' (fst (t, set_lock l True s)))"
    by (intro conjI exI [of _ "{l}"]) auto
qed (auto simp: locks_def)

lemma orderly_release [orderly_intros]: "orderly {} t \<Longrightarrow> orderly {l} (release l t)"
  unfolding release_def by (rule orderly.going_on) (auto intro!: exI [of _ "{}"])

lemma orderly_atomic:
  assumes "\<And>s. counted s \<Longrightarrow> h \<subseteq> locks s \<Longrightarrow> counted (snd (f s)) \<and> locks (snd (f s)) = locks s \<and> orderly h (fst (f s))"
  shows "orderly h (Atomic f)"
proof (rule orderly.going_on)
  fix s assume s: "counted s" "h \<subseteq> locks s"
  show "counted (snd (f s)) \<and> (\<exists>h'. h' \<inter> (locks s - h) = {} \<and> locks (snd (f s)) = (locks s - h) \<union> h' \<and> orderly h' (fst (f s)))"
    using assms [OF s] s(2) by (intro conjI exI [of _ h]) auto
qed simp

lemma orderly_perform:
  assumes "\<And>s. counted s \<Longrightarrow> counted (f s)" "\<And>s. locks (f s) = locks s" "orderly h t"
  shows "orderly h (perform f t)"
  unfolding perform_def using assms by (intro orderly_atomic) simp

lemma on_db_locks: "locks (s\<lparr>sv_db := d\<rparr>) = locks s" "counted (s\<lparr>sv_db := d\<rparr>) = counted s"
  by (rule locks_cong; simp) (simp add: counted_def)

lemma hub_locks: "locks (s\<lparr>sv_wsHub := h\<rparr>) = locks s" "counted (s\<lparr>sv_wsHub := h\<rparr>) = counted s"
  by (rule locks_cong; simp) (simp add: counted_def)

lemma on_metrics_locks: "locks (on_metrics f s) = locks s" "counted (on_metrics f s) = counted s"
  by (rule locks_cong; simp) (simp add: counted_def on_metrics_def split: option.split)

lemma orderly_external [orderly_intros]: "(\<And>x. orderly h (k x)) \<Longrightarrow> orderly h (external f k)"
  unfolding external_def by (rule orderly_atomic) (simp add: on_db_def case_prod_beta on_db_locks)

lemma orderly_statement [orderly_intros]:
  assumes "\<And>x. orderly {} (k x)"
  shows "orderly {} (statement f k)"
  unfolding statement_def
  by (intro orderly_acquire orderly_atomic) (simp add: on_db_def case_prod_beta on_db_locks orderly_release assms)

lemma orderly_upsert_task [orderly_intros]: "(\<And>x. orderly {} (k x)) \<Longrightarrow> orderly {} (upsert_task w n k)"
  unfolding upsert_task_def Let_def
  by (auto split: sum.split bool.split option.split if_split intro!: orderly_intros)

lemma orderly_delete_task [orderly_intros]: "(\<And>x. orderly {} (k x)) \<Longrightarrow> orderly {} (delete_task w i k)"
  unfolding delete_task_def by (auto split: sum.split option.split if_split intro!: orderly_intros)

text \<open>The section under \<open>dropsMu\<close> does not panic when the reports are not negative.\<close>

lemma drops_section_counted:
  assumes "counted s" "0 \<le> n" "int64 n"
  obtains s1 where "drops_section i n s = Some s1" "counted s1" "locks s1 = locks s"
proof -
  have "0 \<le> sv_lastDrops s i" using assms(1) by (simp add: counted_def)
  then have "drops_delta i n s = n - sv_lastDrops s i" if "sv_lastDrops s i < n"
    using assms(2,3) that by (simp add: drops_delta_def int64_def)
  then have "drops_section i n s \<noteq> None" by (simp add: drops_section_def)
  then obtain s1 where "drops_section i n s = Some s1" by blast
  moreover have "counted s1" using calculation assms by (auto simp: drops_section_def counted_def split: if_splits)
  moreover have "locks s1 = locks s"
    by (rule locks_cong) (use calculation(1) in \<open>auto simp: drops_section_def split: if_splits\<close>)
  ultimately show ?thesis by (rule that)
qed

lemma orderly_drops:
  assumes "0 \<le> n" "int64 n" "orderly {} t"
  shows "orderly {} (drops_task i n t)"
  unfolding drops_task_def
proof (intro orderly_acquire orderly_atomic)
  fix s assume "counted s"
  then obtain s1 where "drops_section i n s = Some s1" "counted s1" "locks s1 = locks s"
    using drops_section_counted [OF _ assms(1,2)] by metis
  then show "counted (snd (case drops_section i n s of None \<Rightarrow> (Return no_answer, s) | Some s1 \<Rightarrow> (release DropsMu t, s1))) \<and>
      locks (snd (case drops_section i n s of None \<Rightarrow> (Return no_answer, s) | Some s1 \<Rightarrow> (release DropsMu t, s1))) = locks s \<and>
      orderly {DropsMu} (fst (case drops_section i n s of None \<Rightarrow> (Return no_answer, s) | Some s1 \<Rightarrow> (release DropsMu t, s1)))"
    using assms(3) by (simp add: orderly_release)
qed

lemma ingest_steps:
  "locks (set_gauges i req s) = locks s" "counted (set_gauges i req s) = counted s"
  "locks (count_results req st s) = locks s" "counted (count_results req st s) = counted s"
  "locks (observeIngest w i st t s) = locks s" "counted (observeIngest w i st t s) = counted s"
  by (simp_all add: set_gauges_def count_results_def observeIngest_def on_db_def case_prod_beta Let_def on_metrics_locks on_db_locks)

lemma orderly_ingest:
  assumes "0 \<le> SpoolDropsTotal (SpoolMetadata req)" "int64 (SpoolDropsTotal (SpoolMetadata req))" "orderly {} t"
  shows "orderly {} (ingest_task i req st t)"
  unfolding ingest_task_def
  by (rule orderly_atomic) (simp add: assms orderly_drops orderly_perform ingest_steps)

lemma orderly_broadcast:
  assumes "orderly {} t"
  shows "orderly {} (broadcast_task c i obs t)"
proof (induction obs)
  case (Cons ob obs)
  then show ?case by (simp add: orderly_intros orderly_perform hub_locks)
qed (simp add: assms)

definition fair_report :: "codec \<Rightarrow> job \<Rightarrow> request \<Rightarrow> bool" where
  "fair_report c j r \<longleftrightarrow>
     (case (j, json_results c (rq_body r)) of
        (JResults, Inr req) \<Rightarrow> 0 \<le> SpoolDropsTotal (SpoolMetadata req) \<and> int64 (SpoolDropsTotal (SpoolMetadata req))
      | _ \<Rightarrow> True)"

lemma orderly_results:
  assumes "fair_report c JResults r"
  shows "orderly {} (results_task w c nd r)"
proof -
  have fin: "orderly {} (finish_task w c i req st t)" if "json_results c (rq_body r) = Inr req" for i req st t
    using assms that unfolding finish_task_def
    by (intro orderly_external orderly_statement orderly_ingest orderly_broadcast orderly_perform)
      (auto simp: fair_report_def ingest_steps)
  show ?thesis
    unfolding results_task_def Let_def
    by (auto split: sum.split option.split intro!: orderly_intros orderly_perform fin simp: ingest_steps)
qed

lemma orderly_bearer: "(\<And>nd. orderly {} (t nd)) \<Longrightarrow> orderly {} (bearer_task w t r)"
  unfolding bearer_task_def Let_def by (auto split: option.split sum.split ctl_error.split intro!: orderly_intros)

lemma orderly_job:
  assumes "fair_report c j r"
  shows "orderly {} (job_task w c j r)"
proof -
  have "orderly {} (create_task w c rnd r)" for rnd
    unfolding create_task_def Let_def by (auto split: sum.split option.split intro!: orderly_intros)
  moreover have "orderly {} (patch_task w c r)"
    unfolding patch_task_def Let_def by (auto split: sum.split option.split ctl_error.split intro!: orderly_intros)
  moreover have "orderly {} (admin_delete_task w r)"
    unfolding admin_delete_task_def Let_def by (auto split: option.split intro!: orderly_intros)
  moreover have "orderly {} (ui_create_task w rnd r)" for rnd
    unfolding ui_create_task_def Let_def by (auto split: sum.split option.split prod.split intro!: orderly_intros)
  moreover have "orderly {} (ui_delete_task w r)"
    unfolding ui_delete_task_def by (auto split: option.split intro!: orderly_intros)
  moreover have "orderly {} (ui_toggle_task w b r)" for b
    unfolding ui_toggle_task_def Let_def by (auto split: sum.split option.split intro!: orderly_intros)
  moreover have "orderly {} (bearer_task w (targets_task w) r)"
    unfolding targets_task_def [abs_def] hub_targets_task_def
    by (auto split: sum.split prod.split query_stage.split intro!: orderly_bearer orderly_intros)
  moreover have "orderly {} (bearer_task w (\<lambda>nd. results_task w c nd r) r)" if "j = JResults"
    using assms that by (intro orderly_bearer orderly_results) simp
  ultimately show ?thesis by (cases j) simp_all
qed

text \<open>The locks that are held in a pool belong to its tasks.\<close>

definition pool_ok :: "'a task list \<Rightarrow> server \<Rightarrow> bool" where
  "pool_ok ts s \<longleftrightarrow> counted s \<and>
     (\<exists>hs. list_all2 orderly hs ts \<and> locks s = \<Union> (set hs) \<and>
        (\<forall>i < length hs. \<forall>j < length hs. i \<noteq> j \<longrightarrow> hs ! i \<inter> hs ! j = {}))"

lemma Union_update:
  assumes "i < length hs" "\<forall>a < length hs. \<forall>b < length hs. a \<noteq> b \<longrightarrow> hs ! a \<inter> hs ! b = {}"
  shows "\<Union> (set (hs[i := h])) = (\<Union> (set hs) - hs ! i) \<union> h"
proof -
  have "\<Union> (set (hs[i := h])) = (\<Union>j < length hs. if j = i then h else hs ! j)"
    by (auto simp: set_conv_nth nth_list_update)
  also have "\<dots> = (\<Union>j \<in> {..<length hs} - {i}. hs ! j) \<union> h" using assms(1) by auto
  also have "(\<Union>j \<in> {..<length hs} - {i}. hs ! j) = \<Union> (set hs) - hs ! i"
    using assms by (auto simp: set_conv_nth)
  finally show ?thesis .
qed

lemma orderly_AwaitD:
  assumes "orderly h (Await g f)" "counted s" "h \<subseteq> locks s" "g s" "f s = (t, s')"
  obtains h' where "counted s'" "h' \<inter> (locks s - h) = {}" "locks s' = (locks s - h) \<union> h'" "orderly h' t"
proof -
  from assms(1) have "counted (snd (f s)) \<and>
      (\<exists>h'. h' \<inter> (locks s - h) = {} \<and> locks (snd (f s)) = (locks s - h) \<union> h' \<and> orderly h' (fst (f s)))"
    by (rule orderly_AwaitE) (use assms(2-4) in blast)
  then show ?thesis using assms(5) that by auto
qed

lemma pool_step_ok:
  assumes "pool_step (ts, s) (ts', s')" "pool_ok ts s"
  shows "pool_ok ts' s'"
proof -
  obtain i g f t where st: "ts' = ts[i := t]" "i < length ts" "ts ! i = Await g f" "g s" "f s = (t, s')"
    using assms(1) by (rule pool_stepE)
  obtain hs where hs: "counted s" "list_all2 orderly hs ts" "locks s = \<Union> (set hs)"
    "\<forall>i < length hs. \<forall>j < length hs. i \<noteq> j \<longrightarrow> hs ! i \<inter> hs ! j = {}"
    using assms(2) by (auto simp: pool_ok_def)
  have len: "i < length hs" using st(2) list_all2_lengthD [OF hs(2)] by simp
  have o: "orderly (hs ! i) (Await g f)" using list_all2_nthD [OF hs(2) len] st(3) by simp
  have "hs ! i \<subseteq> locks s" using hs(3) len by auto
  then obtain h' where h': "counted s'" "h' \<inter> (locks s - hs ! i) = {}" "locks s' = (locks s - hs ! i) \<union> h'" "orderly h' t"
    using orderly_AwaitD [OF o hs(1), where t = t and s' = s'] st(4,5) by metis
  let ?hs = "hs[i := h']"
  have "list_all2 orderly ?hs ts'" using hs(2) h'(4) st(1) by (simp add: list_all2_update_cong)
  moreover have "locks s' = \<Union> (set ?hs)" using Union_update [OF len hs(4)] h'(3) hs(3) by simp
  moreover have "?hs ! a \<inter> ?hs ! b = {}" if ab: "a < length ?hs" "b < length ?hs" "a \<noteq> b" for a b
  proof -
    have other: "hs ! j \<inter> h' = {}" if j: "j < length hs" "j \<noteq> i" for j
    proof -
      have "hs ! j \<subseteq> locks s" using hs(3) nth_mem [OF j(1)] by auto
      moreover have "hs ! j \<inter> hs ! i = {}" using hs(4) len j by blast
      ultimately show ?thesis using h'(2) by blast
    qed
    show ?thesis
    proof (cases "a = i \<or> b = i")
      case True
      then show ?thesis using ab other [of a] other [of b] by auto
    next
      case False
      then show ?thesis using ab hs(4) by simp
    qed
  qed
  ultimately show ?thesis using h'(1) unfolding pool_ok_def by blast
qed

lemma pool_steps_ok:
  assumes "(pool_step ^^ n) (ts, s) (ts', s')" "pool_ok ts s"
  shows "pool_ok ts' s'"
  using assms
proof (induction n arbitrary: ts' s')
  case (Suc n)
  then obtain ts1 s1 where "(pool_step ^^ n) (ts, s) (ts1, s1)" "pool_step (ts1, s1) (ts', s')" by auto
  then show ?case using Suc.IH Suc.prems(2) pool_step_ok by blast
qed simp

text \<open>A pool in which somebody is unanswered can go on: the holder of a lock never waits, and when nobody holds one
  nobody waits.\<close>

lemma pool_progress:
  assumes "pool_ok ts s" "\<nexists>y. pool_step (ts, s) y"
  shows "list_all (\<lambda>t. \<exists>x. t = Return x) ts \<and> locks s = {}"
proof -
  obtain hs where hs: "list_all2 orderly hs ts" "locks s = \<Union> (set hs)" using assms(1) by (auto simp: pool_ok_def)
  have len: "length hs = length ts" using list_all2_lengthD [OF hs(1)] .
  have stuck: "hs ! i = {} \<and> (\<exists>x. ts ! i = Return x \<or> locks s \<noteq> {})" if i: "i < length ts" for i
  proof -
    have o: "orderly (hs ! i) (ts ! i)" using list_all2_nthD [OF hs(1)] i len by simp
    show ?thesis
    proof (cases "ts ! i")
      case (Return x)
      then show ?thesis using o by simp
    next
      case (Await g f)
      have "\<not> g s" using assms(2) pool_step.go_on [OF i Await, of s "fst (f s)" "snd (f s)"] by auto
      moreover have "hs ! i \<subseteq> locks s" using hs(2) i len by auto
      ultimately show ?thesis using o unfolding Await by (elim orderly_AwaitE) blast
    qed
  qed
  have "locks s = {}" using stuck hs(2) len by (auto simp: set_conv_nth)
  then show ?thesis using stuck by (auto simp: list_all_length)
qed

lemma answered_stuck: "list_all (\<lambda>t. \<exists>x. t = Return x) ts \<Longrightarrow> \<nexists>y. pool_step (ts, s) y"
  by (auto simp: list_all_iff elim!: pool_step.cases) (metis nth_mem task.distinct(1))

text \<open>C15: every interleaving of requests ends. A pool of requests makes at most twenty steps for each request and three
  more for each observation it brings, whatever the requests are, in whatever order they go on and whichever
  calls fail. If the mutexes and the connection are free at the beginning and no agent reports or has reported
  a negative number of drops, then no request waits for ever: the pool cannot go on exactly when every request is
  answered, and then the mutexes and the connection are free again.\<close>

theorem interleavings_end:
  assumes "(pool_step ^^ n) (map (\<lambda>(j, r). job_task w c j r) reqs, s) (ts, s')"
  shows "n \<le> sum_list (map (\<lambda>(j, r). 20 + 3 * observations c j r) reqs) \<and> length ts = length reqs \<and>
    (\<not> sv_dropsMu s \<and> \<not> sv_hubMu s \<and> \<not> sv_connBusy s \<and> list_all (\<lambda>(j, r). fair_report c j r) reqs \<and>
     (\<forall>i. 0 \<le> sv_lastDrops s i \<and> int64 (sv_lastDrops s i)) \<longrightarrow>
       ((\<nexists>y. pool_step (ts, s') y) \<longleftrightarrow> list_all (\<lambda>t. \<exists>x. t = Return x) ts) \<and>
       ((\<nexists>y. pool_step (ts, s') y) \<longrightarrow> \<not> sv_dropsMu s' \<and> \<not> sv_hubMu s' \<and> \<not> sv_connBusy s'))"
proof -
  let ?ts = "map (\<lambda>(j, r). job_task w c j r) reqs"
  have "list_all2 at_most (map (\<lambda>(j, r). 20 + 3 * observations c j r) reqs) ?ts"
    by (induction reqs) (auto simp: at_most_job)
  note bound = pool_steps_at_most [OF assms this]
  have free: "locks x = {} \<longleftrightarrow> \<not> sv_dropsMu x \<and> \<not> sv_hubMu x \<and> \<not> sv_connBusy x" for x
    unfolding locks_def by (metis (mono_tags, lifting) Collect_empty_eq is_locked.simps lock.exhaust)
  have "((\<nexists>y. pool_step (ts, s') y) \<longleftrightarrow> list_all (\<lambda>t. \<exists>x. t = Return x) ts) \<and> ((\<nexists>y. pool_step (ts, s') y) \<longrightarrow> locks s' = {})"
    if s: "locks s = {}" "list_all (\<lambda>(j, r). fair_report c j r) reqs" "counted s"
  proof -
    have "list_all2 orderly (map (\<lambda>_. {}) reqs) ?ts" using s(2) by (induction reqs) (auto simp: orderly_job)
    moreover have "\<Union> (set (map (\<lambda>_. {}) reqs)) = {}" by auto
    ultimately have "pool_ok ?ts s"
      unfolding pool_ok_def using s(1,3) by (intro conjI exI [of _ "map (\<lambda>_. {}) reqs"]) auto
    from pool_progress [OF pool_steps_ok [OF assms this]] answered_stuck show ?thesis by blast
  qed
  then show ?thesis using bound unfolding free counted_def by simp
qed

section \<open>Every interleaving keeps the tables consistent\<close>

text \<open>A task is safe when each of its steps, begun in a state where the invariant holds, keeps the invariant
  and guarantees the relation to the others, however the others have changed the state in between.\<close>

inductive safe :: "(server \<Rightarrow> bool) \<Rightarrow> (server \<Rightarrow> server \<Rightarrow> bool) \<Rightarrow> 'a task \<Rightarrow> bool" for I G where
  finished: "safe I G (Return x)"
| atomic: "(\<And>s. I s \<Longrightarrow> I (snd (f s)) \<and> G s (snd (f s)) \<and> safe I G (fst (f s))) \<Longrightarrow> safe I G (Await g f)"

inductive_cases safe_AwaitE: "safe I G (Await g f)"

text \<open>A task ends in a relation \<open>Q\<close> of its answer and the state, when the others keep the guarantee meanwhile.\<close>

inductive ends :: "(server \<Rightarrow> bool) \<Rightarrow> (server \<Rightarrow> server \<Rightarrow> bool) \<Rightarrow> ('a \<Rightarrow> server \<Rightarrow> bool) \<Rightarrow> 'a task \<Rightarrow> server \<Rightarrow> bool"
  for I G Q where
  answered: "Q x s \<Longrightarrow> ends I G Q (Return x) s"
| going_on: "(\<And>s'. I s' \<Longrightarrow> G s s' \<Longrightarrow> ends I G Q (fst (f s')) (snd (f s'))) \<Longrightarrow> ends I G Q (Await g f) s"

inductive_simps ends_Return [simp]: "ends I G Q (Return x) s"
inductive_cases ends_AwaitE: "ends I G Q (Await g f) s"

text \<open>What the guarantee of the single steps gives for all interleavings.\<close>

locale guarantee =
  fixes I :: "server \<Rightarrow> bool" and G :: "server \<Rightarrow> server \<Rightarrow> bool"
  assumes G_refl: "G s s" and G_trans: "G a b \<Longrightarrow> G b c \<Longrightarrow> G a c"
begin

lemma pool_step_safe:
  assumes "pool_step (ts, s) (ts', s')" "\<forall>t \<in> set ts. safe I G t" "I s"
  shows "I s' \<and> G s s' \<and> (\<forall>t \<in> set ts'. safe I G t)"
proof -
  obtain i g f t where st: "ts' = ts[i := t]" "i < length ts" "ts ! i = Await g f" "f s = (t, s')"
    using assms(1) by (rule pool_stepE)
  then have "safe I G (Await g f)" using assms(2) nth_mem by metis
  then have "I (snd (f s)) \<and> G s (snd (f s)) \<and> safe I G (fst (f s))"
    by (rule safe_AwaitE) (use assms(3) in blast)
  then show ?thesis using st assms(2) set_update_subset_insert [of ts i t] by auto
qed

lemma pool_steps_safe:
  assumes "pool_step\<^sup>*\<^sup>* (ts, s) (ts', s')" "\<forall>t \<in> set ts. safe I G t" "I s"
  shows "I s' \<and> G s s' \<and> (\<forall>t \<in> set ts'. safe I G t)"
  using assms(1)
proof (induction rule: rtranclp_induct2)
  case refl
  then show ?case using assms G_refl by blast
next
  case (step ts1 s1 ts2 s2)
  then show ?case using pool_step_safe [of ts1 s1 ts2 s2] G_trans by blast
qed

definition stable :: "(server \<Rightarrow> bool) \<Rightarrow> bool" where
  "stable P \<longleftrightarrow> (\<forall>s s'. P s \<longrightarrow> G s s' \<longrightarrow> P s')"

lemma ends_later:
  assumes "ends I G Q t s" "G s s'" "\<And>x. stable (Q x)"
  shows "ends I G Q t s'"
  using assms(1,2)
proof (cases rule: ends.cases)
  case (answered x)
  then show ?thesis using assms(2,3) by (auto simp: stable_def)
next
  case (going_on f g)
  then show ?thesis using assms(2) G_trans by (auto intro: ends.going_on)
qed

text \<open>A safe task keeps what is stable, and its answer may rest on it.\<close>

lemma safe_ends:
  assumes "safe I G t" "stable P" "P s" "\<And>x s. x \<in> set_task t \<Longrightarrow> P s \<Longrightarrow> Q x s"
  shows "ends I G Q t s"
  using assms(1,3,4)
proof (induction t arbitrary: s rule: safe.induct)
  case (finished x)
  then show ?case by simp
next
  case (atomic f g)
  show ?case
  proof (rule ends.going_on)
    fix s' assume s': "I s'" "G s s'"
    have "P (snd (f s'))" using atomic.IH [OF s'(1)] atomic.prems(1) s'(2) assms(2) by (auto simp: stable_def)
    moreover have "x \<in> set_task (Await g f)" if part: "x \<in> set_task (fst (f s'))" for x
      using part by (auto intro!: bexI [of _ "f s'"] simp: prod_set_defs)
    ultimately show "ends I G Q (fst (f s')) (snd (f s'))"
      using atomic.IH [OF s'(1)] atomic.prems(2) by blast
  qed
qed

lemma pool_step_ends:
  assumes "pool_step (ts, s) (ts', s')" "\<forall>t \<in> set ts. safe I G t" "I s"
    and "\<forall>i < length ts. ends I G (Q i) (ts ! i) s" "\<And>i x. stable (Q i x)"
  shows "length ts' = length ts \<and> (\<forall>i < length ts'. ends I G (Q i) (ts' ! i) s')"
proof -
  obtain i g f t where st: "ts' = ts[i := t]" "i < length ts" "ts ! i = Await g f" "f s = (t, s')"
    using assms(1) by (rule pool_stepE)
  have "ends I G (Q i) (Await g f) s" using assms(4) st(2,3) by metis
  then have "ends I G (Q i) (fst (f s)) (snd (f s))" by (rule ends_AwaitE) (use assms(3) G_refl in blast)
  moreover have "G s s'" using pool_step_safe [OF assms(1-3)] by blast
  ultimately show ?thesis
    using assms(4) ends_later [of "Q j" for j, OF _ _ assms(5)] st by (auto simp: nth_list_update)
qed

lemma pool_steps_ends:
  assumes "pool_step\<^sup>*\<^sup>* (ts, s) (ts', s')" "\<forall>t \<in> set ts. safe I G t" "I s"
    and "\<forall>i < length ts. ends I G (Q i) (ts ! i) s" "\<And>i x. stable (Q i x)"
  shows "length ts' = length ts \<and> (\<forall>i < length ts'. ends I G (Q i) (ts' ! i) s')"
  using assms(1)
proof (induction rule: rtranclp_induct2)
  case refl
  then show ?case using assms by blast
next
  case (step ts1 s1 ts2 s2)
  then show ?case
    using pool_step_ends [of ts1 s1 ts2 s2 Q] pool_steps_safe [OF step(1) assms(2,3)] assms(5) by simp
qed

end

definition consistent :: "server \<Rightarrow> bool" where
  "consistent s \<longleftrightarrow> well (sv_db s)"

definition only_adds :: "string set \<Rightarrow> server \<Rightarrow> server \<Rightarrow> bool" where
  "only_adds S s s' \<longleftrightarrow> keeps S (sv_db s) (sv_db s')"

interpretation tables: guarantee consistent "only_adds S" for S
  by unfold_locales (auto simp: only_adds_def intro: keeps_trans)

lemma set_lock_db [simp]: "sv_db (set_lock l b s) = sv_db s"
  by (cases l) simp_all

lemma safe_step:
  assumes "\<And>s. same_ctl (sv_db s) (sv_db (snd (f s)))" "\<And>s. safe consistent (only_adds S) (fst (f s))"
  shows "safe consistent (only_adds S) (Await g f)"
  using assms keeps_same [OF assms(1)] by (intro safe.atomic) (auto simp: consistent_def only_adds_def keeps_def)

lemma safe_single:
  "safe consistent (only_adds S) t \<Longrightarrow> safe consistent (only_adds S) (acquire l t)"
  "safe consistent (only_adds S) t \<Longrightarrow> safe consistent (only_adds S) (release l t)"
  unfolding acquire_def release_def by (rule safe_step; simp)+

lemma safe_perform:
  "(\<And>s. same_ctl (sv_db s) (sv_db (f s))) \<Longrightarrow> safe consistent (only_adds S) t \<Longrightarrow>
   safe consistent (only_adds S) (perform f t)"
  unfolding perform_def by (rule safe_step) simp_all

lemma safe_external:
  assumes "\<And>db x db'. well db \<Longrightarrow> f db = (x, db') \<Longrightarrow> keeps S db db' \<and> safe consistent (only_adds S) (k x)"
  shows "safe consistent (only_adds S) (external f k)"
  unfolding external_def
proof (rule safe.atomic)
  fix s assume "consistent s"
  moreover obtain x db' where "f (sv_db s) = (x, db')" by fastforce
  ultimately show "consistent (snd (case on_db f s of (x, s1) \<Rightarrow> (k x, s1))) \<and>
      only_adds S s (snd (case on_db f s of (x, s1) \<Rightarrow> (k x, s1))) \<and>
      safe consistent (only_adds S) (fst (case on_db f s of (x, s1) \<Rightarrow> (k x, s1)))"
    using assms [of "sv_db s" x db'] by (auto simp: on_db_def consistent_def only_adds_def keeps_def)
qed

lemma statement_external: "statement f k = acquire DbConn (external f (\<lambda>x. release DbConn (k x)))"
  by (simp add: statement_def external_def)

lemma safe_statement:
  assumes "\<And>db x db'. well db \<Longrightarrow> f db = (x, db') \<Longrightarrow> keeps S db db' \<and> safe consistent (only_adds S) (k x)"
  shows "safe consistent (only_adds S) (statement f k)"
  unfolding statement_external using assms by (intro safe_single(1) safe_external) (auto intro: safe_single)

lemma safe_Return [simp]: "safe I G (Return x)"
  by (rule safe.finished)

text \<open>A hub needs an address.\<close>

definition addressed :: "node \<Rightarrow> bool" where
  "addressed n \<longleftrightarrow> (nd_Role n = RoleHub \<longrightarrow> nd_Address n \<noteq> [])"

lemma keeps_upsert_stmt:
  assumes "upsert_stmt w n db = (r, db')" "addressed n"
  shows "keeps S db db'"
proof -
  have "well db'" if w: "well db"
  proof (cases "r = None")
    case True
    have "hubs_addressed ((registry db)(nd_ID n \<mapsto> n))"
      using w assms(2) by (fastforce simp: well_def hubs_addressed_def ran_def addressed_def split: if_splits)
    then show ?thesis
      using w ctl_inv_upsert_stmt [OF _ assms(1)] upsert_stmt_effect(4) [OF assms(1) True] by (simp add: well_def)
  next
    case False
    then show ?thesis
      using w ctl_inv_upsert_stmt [OF _ assms(1)] registry_nodes [OF upsert_stmt_effect(5) [OF assms(1) False]]
      by (simp add: well_def)
  qed
  then show ?thesis using upsert_stmt_effect(1) [OF assms(1)] by (intro keeps_results) auto
qed

lemma keeps_bump: "bumpTargetsVersion w db = (r, db') \<Longrightarrow> keeps S db db'"
  using ctl_inv_bump [of db w r db'] bumpTargetsVersion_effect [of w db r db'] registry_nodes [of db' db]
  by (intro keeps_results) (auto simp: well_def)

lemma keeps_delete_stmt:
  assumes "delete_node_stmt w i db = (r, db')"
  shows "keeps S db db'"
proof -
  consider "same_ctl db db'"
    | "cd_nodes db' = filter (\<lambda>r. nr_id r \<noteq> i) (cd_nodes db)" "cd_results db' = cd_results db"
      "cd_next_id db' = cd_next_id db" "cd_meta db' = cd_meta db"
      "i \<notin> rr_source ` set (cd_results db) \<or> filter (\<lambda>r. nr_id r = i) (cd_nodes db) = []"
    using assms by (auto simp: delete_node_stmt_def cd_call_def same_ctl_def Let_def split: option.splits if_splits)
  then show ?thesis
  proof cases
    case 2
    have "well db'" if w: "well db"
    proof (cases "i \<in> rr_source ` set (cd_results db)")
      case False
      then show ?thesis
        using w ctl_inv_filter [OF _ False 2(1-4)] registry_filter [OF 2(1)] hubs_addressed_del by (simp add: well_def)
    next
      case True
      then have "cd_nodes db' = cd_nodes db" using 2(1,5) by (auto simp: filter_empty_conv filter_id_conv)
      then have "same_ctl db db'" using 2 by (simp add: same_ctl_def)
      then show ?thesis using w ctl_inv_same registry_same by (simp add: well_def)
    qed
    then show ?thesis using 2(2) by (intro keeps_results) auto
  qed (rule keeps_same)
qed

lemma keeps_spool_stats: "UpdateSpoolStats w i st db = (r, db') \<Longrightarrow> keeps S db db'"
  using ctl_inv_UpdateSpoolStats [of db w i st r db'] UpdateSpoolStats_keeps [of w i st db r db']
    UpdateSpoolStats_effect [of w i st db r db'] by (intro keeps_results) (auto simp: well_def)

lemma keeps_persist:
  assumes "persistResults w req db = (r, db')"
  shows "keeps {SourceID req} db db'"
  using ctl_inv_persistResults [OF _ assms] persistResults_grows [OF assms] by (auto simp: keeps_def well_def)

text \<open>The single statements of the handlers.\<close>

named_theorems safe_intros \<open>statements and tasks that are safe\<close>

lemma safe_read:
  assumes "\<And>db x db'. f db = (x, db') \<Longrightarrow> same_ctl db db'"
    and "\<And>db x db'. well db \<Longrightarrow> f db = (x, db') \<Longrightarrow> safe consistent (only_adds S) (k x)"
  shows "safe consistent (only_adds S) (statement f k)"
  by (rule safe_statement) (metis assms keeps_same)

lemma safe_get [safe_intros]:
  "(\<And>db x db'. well db \<Longrightarrow> node_Get w i db = (x, db') \<Longrightarrow> safe consistent (only_adds S) (k x)) \<Longrightarrow>
   safe consistent (only_adds S) (statement (node_Get w i) k)"
  by (rule safe_read) (rule node_Get_frame)

lemma safe_list [safe_intros]:
  "(\<And>x. safe consistent (only_adds S) (k x)) \<Longrightarrow> safe consistent (only_adds S) (statement (node_List w) k)"
  by (rule safe_read) (rule node_List_frame)

lemma safe_call [safe_intros]:
  "(\<And>x. safe consistent (only_adds S) (k x)) \<Longrightarrow> safe consistent (only_adds S) (external (cd_call w) k)"
  by (rule safe_external) (auto intro: keeps_same cd_call_frame)

lemma safe_now [safe_intros]:
  "(\<And>x. safe consistent (only_adds S) (k x)) \<Longrightarrow> safe consistent (only_adds S) (external (cd_now w) k)"
  by (rule safe_external) (auto intro: keeps_same cd_now_frame)

lemma safe_version [safe_intros]:
  "(\<And>x. safe consistent (only_adds S) (k x)) \<Longrightarrow> safe consistent (only_adds S) (statement (TargetsVersion w) k)"
  by (rule safe_read) (rule TargetsVersion_frame)

lemma safe_hub_query [safe_intros]:
  "(\<And>x. safe consistent (only_adds S) (k x)) \<Longrightarrow>
   safe consistent (only_adds S) (statement (\<lambda>db. cd_query w (hub_rows i db) db) k)"
  by (rule safe_read) (rule cd_query_frame)

lemma safe_upsert_stmt [safe_intros]:
  "addressed n \<Longrightarrow> (\<And>x. safe consistent (only_adds S) (k x)) \<Longrightarrow>
   safe consistent (only_adds S) (statement (upsert_stmt w n) k)"
  by (rule safe_statement) (simp add: keeps_upsert_stmt)

lemma safe_bump [safe_intros]:
  "(\<And>x. safe consistent (only_adds S) (k x)) \<Longrightarrow> safe consistent (only_adds S) (statement (bumpTargetsVersion w) k)"
  by (rule safe_statement) (simp add: keeps_bump)

lemma safe_delete_stmt [safe_intros]:
  "(\<And>x. safe consistent (only_adds S) (k x)) \<Longrightarrow> safe consistent (only_adds S) (statement (delete_node_stmt w i) k)"
  by (rule safe_statement) (simp add: keeps_delete_stmt)

lemma safe_spool_stats [safe_intros]:
  "(\<And>x. safe consistent (only_adds S) (k x)) \<Longrightarrow> safe consistent (only_adds S) (statement (UpdateSpoolStats w i st) k)"
  by (rule safe_statement) (simp add: keeps_spool_stats)

lemma safe_persist [safe_intros]:
  "SourceID req \<in> S \<Longrightarrow> (\<And>x. safe consistent (only_adds S) (k x)) \<Longrightarrow>
   safe consistent (only_adds S) (statement (persistResults w req) k)"
  by (rule safe_statement) (simp add: keeps_mono [OF keeps_persist])

lemma safe_upsert_task [safe_intros]:
  assumes "addressed n" "\<And>x. safe consistent (only_adds S) (k x)"
  shows "safe consistent (only_adds S) (upsert_task w n k)"
  unfolding upsert_task_def Let_def
  by (auto split: sum.split bool.split option.split if_split intro!: safe_intros assms)

lemma safe_delete_task [safe_intros]:
  assumes "\<And>x. safe consistent (only_adds S) (k x)"
  shows "safe consistent (only_adds S) (delete_task w i k)"
  unfolding delete_task_def
  by (auto split: sum.split option.split if_split intro!: safe_intros assms)

lemma valid_fields_addressed:
  "validateAdminNodeFields i (nd_Role n) (nd_Address n) = None \<Longrightarrow> addressed n"
  "validateAdminNodeFields i role address = None \<Longrightarrow>
   addressed \<lparr>nd_ID = j, nd_Role = role, nd_SecretHash = h, nd_Address = address, nd_Disabled = d\<rparr>"
  by (auto simp: validateAdminNodeFields_def addressed_def split: if_splits)

lemma well_get_addressed:
  assumes "well db" "node_Get w i db = (Inr nd, db')"
  shows "addressed (nd\<lparr>nd_Disabled := b\<rparr>)"
  using assms reg.get_found [OF assms(2)] by (auto simp: well_def hubs_addressed_def ran_def addressed_def)

lemma safe_create: "safe consistent (only_adds S) (create_task w c rnd r)"
  unfolding create_task_def Let_def
  by (auto split: sum.split option.split if_split intro!: safe_intros intro: valid_fields_addressed)

lemma safe_patch: "safe consistent (only_adds S) (patch_task w c r)"
  unfolding patch_task_def Let_def
  by (auto split: sum.split option.split ctl_error.split if_split intro!: safe_intros intro: valid_fields_addressed)

lemma safe_admin_delete: "safe consistent (only_adds S) (admin_delete_task w r)"
  unfolding admin_delete_task_def Let_def by (auto split: option.split intro!: safe_intros)

lemma safe_ui_create: "safe consistent (only_adds S) (ui_create_task w rnd r)"
  unfolding ui_create_task_def Let_def
  by (auto split: sum.split option.split prod.split if_split intro!: safe_intros intro: valid_fields_addressed)

lemma safe_ui_delete: "safe consistent (only_adds S) (ui_delete_task w r)"
  unfolding ui_delete_task_def by (auto split: option.split intro!: safe_intros)

lemma safe_ui_toggle: "safe consistent (only_adds S) (ui_toggle_task w b r)"
  unfolding ui_toggle_task_def Let_def
  by (auto split: sum.split option.split intro!: safe_intros intro: well_get_addressed)

lemma safe_targets: "safe consistent (only_adds S) (targets_task w nd)"
  unfolding targets_task_def hub_targets_task_def
  by (auto split: sum.split prod.split query_stage.split intro!: safe_intros)

lemma drops_section_db: "drops_section i n s = Some s1 \<Longrightarrow> sv_db s1 = sv_db s"
  by (auto simp: drops_section_def split: if_splits)

lemma safe_ingest:
  assumes "safe consistent (only_adds S) t"
  shows "safe consistent (only_adds S) (ingest_task i req st t)"
proof -
  have "safe consistent (only_adds S) (drops_task i n (perform (count_results req st) t))" for n
    unfolding drops_task_def
    by (intro safe_single(1) safe_step) (auto simp: drops_section_db assms count_results_def
        intro!: safe_single(2) safe_perform split: option.split)
  then show ?thesis
    unfolding ingest_task_def using assms by (intro safe_step) (auto simp: set_gauges_def Let_def)
qed

lemma safe_broadcast:
  assumes "safe consistent (only_adds S) t"
  shows "safe consistent (only_adds S) (broadcast_task c i obs t)"
  by (induction obs) (auto simp: assms intro!: safe_single safe_perform)

lemma safe_finish: "safe consistent (only_adds S) (finish_task w c i req st t)"
  unfolding finish_task_def
  by (intro safe_intros safe_ingest safe_broadcast safe_perform) (auto simp: observeIngest_db)

lemma safe_results: "nd_ID nd \<in> S \<Longrightarrow> safe consistent (only_adds S) (results_task w c nd r)"
  unfolding results_task_def Let_def
  by (auto split: sum.split option.split intro!: safe_intros safe_perform safe_finish observeIngest_db
      simp: validateResultsRequest_def split: if_splits)

text \<open>The node that \<open>bearerAuth\<close> hands on is the one the header names.\<close>

lemma node_Get_id: "node_Get w i db = (Inr nd, db') \<Longrightarrow> nd_ID nd = i"
  using reg.get_found [of w i db nd db'] find_node_Some by (auto simp: registry_def node_of_def)

lemma safe_bearer:
  assumes "\<And>nd. nd_ID nd = sender r \<Longrightarrow> safe consistent (only_adds S) (t nd)"
  shows "safe consistent (only_adds S) (bearer_task w t r)"
  unfolding bearer_task_def Let_def
  by (auto split: sum.split option.split ctl_error.split intro!: safe_intros assms dest: node_Get_id)

lemma safe_job:
  assumes "j = JResults \<Longrightarrow> sender r \<in> S"
  shows "safe consistent (only_adds S) (job_task w c j r)"
  using assms
  by (cases j) (auto intro: safe_create safe_patch safe_admin_delete safe_ui_create safe_ui_delete safe_ui_toggle
      intro!: safe_bearer safe_targets safe_results)

text \<open>C8: whatever requests run at the same time, in whatever interleaving of their statements and with whatever
  faults of the database, the tables stay consistent at every moment (unique ids, known roles, no result without its
  node, hubs with an address), no stored result is changed or lost, and a new result names as its source a node that
  one of the results requests claims to come from.\<close>

theorem interleaved_consistent:
  assumes "ctl_inv (sv_db s)" and "hubs_addressed (registry (sv_db s))"
    and "pool_step\<^sup>*\<^sup>* (map (\<lambda>(j, r). job_task w c j r) reqs, s) (ts, s')"
  shows "ctl_inv (sv_db s') \<and> hubs_addressed (registry (sv_db s')) \<and>
    (\<exists>rows. cd_results (sv_db s') = cd_results (sv_db s) @ rows \<and>
       rr_source ` set rows \<subseteq> {sender r |r. (JResults, r) \<in> set reqs})"
proof -
  let ?S = "{sender r |r. (JResults, r) \<in> set reqs}"
  have "\<forall>t \<in> set (map (\<lambda>(j, r). job_task w c j r) reqs). safe consistent (only_adds ?S) t"
    by (auto intro!: safe_job)
  from tables.pool_steps_safe [OF assms(3) this] show ?thesis
    using assms(1,2) by (auto simp: consistent_def only_adds_def well_def keeps_def)
qed

section \<open>An acknowledged batch is stored\<close>

text \<open>An answer 201 to a results request stands for the observations of its body in the table, all of them and
  in order, under the id of the sender.\<close>

definition held :: "results_request \<Rightarrow> server \<Rightarrow> bool" where
  "held req s \<longleftrightarrow> (\<exists>pre rows post. stored req rows \<and> cd_results (sv_db s) = pre @ rows @ post)"

definition acknowledged :: "codec \<Rightarrow> job \<Rightarrow> request \<Rightarrow> response \<Rightarrow> server \<Rightarrow> bool" where
  "acknowledged c j r resp s \<longleftrightarrow> (j = JResults \<and> rs_status resp = 201 \<longrightarrow>
     (\<exists>req. json_results c (rq_body r) = Inr req \<and> SourceID req = sender r \<and> held req s))"

lemma held_later: "held req s \<Longrightarrow> only_adds S s s' \<Longrightarrow> held req s'"
  unfolding held_def only_adds_def keeps_def by (metis append.assoc)

lemma stable_acknowledged: "tables.stable S (acknowledged c j r resp)"
  unfolding tables.stable_def acknowledged_def using held_later by blast

lemma ends_single:
  assumes "ends consistent (only_adds S) Q t s" "\<And>x. tables.stable S (Q x)"
  shows "ends consistent (only_adds S) Q (acquire l t) s" "ends consistent (only_adds S) Q (release l t) s"
proof -
  have "ends consistent (only_adds S) Q t (set_lock l b s')" if "only_adds S s s'" for s' b
    using tables.ends_later [OF assms(1) _ assms(2)] that by (simp add: only_adds_def)
  then show "ends consistent (only_adds S) Q (acquire l t) s" "ends consistent (only_adds S) Q (release l t) s"
    unfolding acquire_def release_def by (auto intro!: ends.going_on)
qed

lemma ends_external:
  assumes "\<And>s1 x db'. well (sv_db s1) \<Longrightarrow> f (sv_db s1) = (x, db') \<Longrightarrow>
     ends consistent (only_adds S) Q (k x) (s1\<lparr>sv_db := db'\<rparr>)"
  shows "ends consistent (only_adds S) Q (external f k) s"
  unfolding external_def
  by (rule ends.going_on) (auto simp: on_db_def consistent_def intro: assms split: prod.splits)

lemma ends_statement:
  assumes "\<And>x. tables.stable S (Q x)" "\<And>s1 x db'. well (sv_db s1) \<Longrightarrow> f (sv_db s1) = (x, db') \<Longrightarrow>
     ends consistent (only_adds S) Q (k x) (s1\<lparr>sv_db := db'\<rparr>)"
  shows "ends consistent (only_adds S) Q (statement f k) s"
  unfolding statement_external using assms by (intro ends_single(1) ends_external ends_single(2))

lemma answers_step: "x \<in> set_task (Await g f) \<Longrightarrow> \<exists>s. x \<in> set_task (fst (f s))"
  by (auto simp: prod_set_defs)

lemma answers_single: "set_task (acquire l t) = set_task t" "set_task (release l t) = set_task t" "set_task (perform f t) = set_task t"
  by (auto simp: acquire_def release_def perform_def prod_set_defs)

lemma answers_external: "x \<in> set_task (external f k) \<Longrightarrow> \<exists>y. x \<in> set_task (k y)"
  unfolding external_def by (drule answers_step) (auto simp: on_db_def split: prod.splits)

lemma answers_statement: "x \<in> set_task (statement f k) \<Longrightarrow> \<exists>y. x \<in> set_task (k y)"
  by (auto simp: statement_external answers_single dest!: answers_external)

lemma answers_broadcast: "set_task (broadcast_task c i obs t) = set_task t"
  by (induction obs) (simp_all add: answers_single)

lemma answers_drops: "x \<in> set_task (drops_task i n t) \<Longrightarrow> x = no_answer \<or> x \<in> set_task t"
  unfolding drops_task_def answers_single by (drule answers_step) (auto simp: answers_single split: option.splits)

lemma answers_ingest: "x \<in> set_task (ingest_task i req st t) \<Longrightarrow> x = no_answer \<or> x \<in> set_task t"
  unfolding ingest_task_def
  by (drule answers_step) (auto dest!: answers_drops simp: answers_single split: if_splits)

lemma answers_finish: "x \<in> set_task (finish_task w c i req st t) \<Longrightarrow> x = no_answer \<or> rs_status x = st"
  unfolding finish_task_def
  by (auto dest!: answers_external answers_statement answers_ingest simp: answers_single answers_broadcast writeJSON_def)

lemma ends_finish:
  assumes "st = 201 \<longrightarrow> held req s" "json_results c (rq_body r) = Inr req" "SourceID req = sender r"
  shows "ends consistent (only_adds S) (acknowledged c j r) (finish_task w c i req st t) s"
proof (rule tables.safe_ends [where P = "\<lambda>s. st = 201 \<longrightarrow> held req s", OF safe_finish _ assms(1)])
  show "tables.stable S (\<lambda>s. st = 201 \<longrightarrow> held req s)" unfolding tables.stable_def using held_later by blast
  show "acknowledged c j r x s1" if "x \<in> set_task (finish_task w c i req st t)" "st = 201 \<longrightarrow> held req s1" for x s1
    using that answers_finish assms(2,3) by (fastforce simp: acknowledged_def)
qed

lemma ends_refused: "rs_status resp \<noteq> 201 \<Longrightarrow> ends I G (acknowledged c j r) (perform f (Return resp)) s"
  by (auto simp: perform_def acknowledged_def intro!: ends.going_on)

lemma ends_persist:
  assumes "json_results c (rq_body r) = Inr req" "SourceID req = sender r" "persistResults w req (sv_db s) = (p, db')"
  shows "ends consistent (only_adds S) (acknowledged c j r)
    (case p of Inl e \<Rightarrow> perform (observeIngest w i 500 t) (Return (writeJSONError 500 ''internal error''))
     | Inr st \<Rightarrow> finish_task w c i req st t) (s\<lparr>sv_db := db'\<rparr>)"
proof (cases p)
  case (Inl e)
  then show ?thesis
    by (simp add: ends_refused writeJSONError_def writeJSON_def)
next
  case (Inr st)
  have "st = 201 \<longrightarrow> held req (s\<lparr>sv_db := db'\<rparr>)"
    using assms(3) Inr by (elim persistResults_cases) (auto simp: held_def appends_def, (metis append_Nil2)+)
  then show ?thesis using ends_finish [OF _ assms(1,2)] Inr by simp
qed

lemma ends_results:
  assumes "nd_ID nd = sender r"
  shows "ends consistent (only_adds S) (acknowledged c j r) (results_task w c nd r) s"
proof (cases "json_results c (rq_body r)")
  case (Inl e)
  then show ?thesis
    by (simp add: results_task_def Let_def) (rule ends_external, simp add: ends_refused writeJSONError_def writeJSON_def)
next
  case (Inr req)
  show ?thesis
  proof (cases "validateResultsRequest (nd_ID nd) req")
    case None
    then have "SourceID req = sender r" using assms by (auto simp: validateResultsRequest_def split: if_splits)
    then show ?thesis
      using Inr None by (auto simp: results_task_def Let_def intro!: ends_external ends_statement [OF stable_acknowledged] ends_persist)
  next
    case (Some e)
    then show ?thesis
      using Inr by (simp add: results_task_def Let_def) (rule ends_external, simp add: ends_refused writeJSON_def)
  qed
qed

text \<open>A task with no result to acknowledge.\<close>

lemma ends_other:
  assumes "safe consistent (only_adds S) t" "\<And>x s. x \<in> set_task t \<Longrightarrow> Q x s"
  shows "ends consistent (only_adds S) Q t s"
  by (rule tables.safe_ends [where P = "\<lambda>_. True", OF assms(1)]) (simp_all add: assms(2) tables.stable_def)

lemma ends_job:
  assumes "j = JResults \<Longrightarrow> sender r \<in> S"
  shows "ends consistent (only_adds S) (acknowledged c j r) (job_task w c j r) s"
proof (cases "j = JResults")
  case True
  show ?thesis
    unfolding True job_task.simps bearer_task_def Let_def
    by (auto split: option.split sum.split ctl_error.split simp: acknowledged_def writeJSONError_def writeJSON_def
        intro!: ends_statement [OF stable_acknowledged] ends_results dest: node_Get_id)
next
  case False
  then show ?thesis using ends_other [OF safe_job [of j r S w c]] assms by (simp add: acknowledged_def)
qed

text \<open>C4: an agent that is answered 201 may forget its batch, whatever happens at the same time: in every
  interleaving of requests, as soon as a results request is answered 201 and at every later moment, the table holds
  the observations of its body, all of them and in order, under the id of the sender.\<close>

theorem interleaved_ack_stored:
  assumes "ctl_inv (sv_db s)" and "hubs_addressed (registry (sv_db s))"
    and "pool_step\<^sup>*\<^sup>* (map (\<lambda>(j, r). job_task w c j r) reqs, s) (ts, s')"
    and "i < length reqs" "reqs ! i = (JResults, r)" "ts ! i = Return resp" "rs_status resp = 201"
  shows "\<exists>req pre rows post. json_results c (rq_body r) = Inr req \<and> SourceID req = sender r \<and> stored req rows \<and>
    cd_results (sv_db s') = pre @ rows @ post"
proof -
  let ?ts = "map (\<lambda>(j, r). job_task w c j r) reqs"
  let ?S = "{sender r |r. (JResults, r) \<in> set reqs}"
  let ?Q = "\<lambda>i. acknowledged c (fst (reqs ! i)) (snd (reqs ! i))"
  have source: "sender (snd (reqs ! n)) \<in> ?S" if "n < length reqs" "fst (reqs ! n) = JResults" for n
  proof -
    have "(JResults, snd (reqs ! n)) \<in> set reqs" using nth_mem [OF that(1)] that(2) by (metis prod.collapse)
    then show ?thesis by blast
  qed
  have safe: "\<forall>t \<in> set ?ts. safe consistent (only_adds ?S) t" by (auto intro!: safe_job)
  have ends: "\<forall>n < length ?ts. ends consistent (only_adds ?S) (?Q n) (?ts ! n) s"
  proof (intro allI impI)
    fix n assume "n < length ?ts"
    then have n: "n < length reqs" by simp
    have at: "?ts ! n = job_task w c (fst (reqs ! n)) (snd (reqs ! n))" using n by (simp add: case_prod_beta)
    show "ends consistent (only_adds ?S) (?Q n) (?ts ! n) s" unfolding at by (rule ends_job [OF source [OF n]])
  qed
  have "consistent s" using assms(1,2) by (simp add: consistent_def well_def)
  note all = tables.pool_steps_ends [where Q = ?Q, OF assms(3) safe this ends stable_acknowledged]
  have len: "length ts = length reqs" using all by simp
  have "\<forall>n < length ts. ends consistent (only_adds ?S) (?Q n) (ts ! n) s'" using all by (rule conjunct2)
  then have "ends consistent (only_adds ?S) (?Q i) (Return resp) s'" using assms(4) assms(6) [symmetric] len by simp
  then have "acknowledged c JResults r resp s'" using assms(5) by simp
  then show ?thesis using assms(7) unfolding acknowledged_def held_def by blast
qed

section \<open>Schedules in which the handlers are not atomic\<close>

lemma run_schedule_steps: "pool_step\<^sup>*\<^sup>* (ts, s) (run_schedule is ts s)"
proof (induction "is" ts s rule: run_schedule.induct)
  case (2 i "is" ts s)
  show ?case
  proof (cases "i < length ts")
    case inside: True
    show ?thesis
    proof (cases "ts ! i")
      case (Await g f)
      obtain t s1 where f: "f s = (t, s1)" by fastforce
      show ?thesis
      proof (cases "g s")
        case True
        have "pool_step (ts, s) (ts[i := t], s1)" using inside Await True f by (rule pool_step.go_on)
        then show ?thesis using 2(2) [OF inside Await True f [symmetric]] inside Await True f by simp
      next
        case False
        then show ?thesis using 2(3) [OF inside Await False] inside Await by simp
      qed
    qed (use 2 inside in simp)
  qed (use 2 in simp)
qed simp

lemma run_schedule_reaches: "run_schedule is ts s = (ts', s') \<Longrightarrow> pool_step\<^sup>*\<^sup>* (ts, s) (ts', s')"
  using run_schedule_steps [of ts s "is"] by simp

lemma sample_idle [simp]: "\<not> sv_connBusy sample_server"
  by (simp add: sample_server_def server_New_def NewWithOptions_def)

text \<open>Two administrators: the body of a creation is the secret, the body of a change is the new address or, when it
  is empty, a new secret.\<close>

definition race_codec :: codec where
  "race_codec = sample_codec\<lparr>
     json_create := (\<lambda>b. Inr \<lparr>ac_ID = ''n'', ac_Role = ''spoke'', ac_Address = [], ac_Disabled = False, ac_Secret = b\<rparr>),
     json_patch := (\<lambda>b. Inr (if b = [] then \<lparr>ap_Role = None, ap_Address = None, ap_Disabled = None, ap_Secret = Some ''new''\<rparr>
       else \<lparr>ap_Role = None, ap_Address = Some b, ap_Disabled = None, ap_Secret = None\<rparr>))\<rparr>"

definition race_rq :: "string \<Rightarrow> request" where
  "race_rq b = sample_rq\<lparr>rq_path_id := ''h1'', rq_body := b\<rparr>"

lemmas race_defs = statement_def acquire_def release_def on_db_def race_codec_def race_rq_def sample_codec_def sample_rq_def
  validateAdminNodeFields_def node_Get_def upsert_stmt_def bumpTargetsVersion_def cd_call_def find_node_def
  sample_ctl_def ctl_init_def sample_hub_def hubSetChanged_def zero_node_def RoleSpoke_def RoleHub_def
  RoleListener_def set_node_def fresh_node_row_def node_of_def apply_patch_def Let_def

text \<open>Two creations of one id pass the check for an existing node before either of them writes: both are answered
  with 201, and the secret of the first answer does not authenticate any more.\<close>

lemma concurrent_creates_both_succeed:
  "\<exists>s' n. pool_step\<^sup>*\<^sup>*
     (map (\<lambda>(j, r). job_task sample_world race_codec j r)
        [(JCreate rnd, race_rq ''first''), (JCreate rnd, race_rq ''second'')], sample_server)
     ([Return (writeJSON 201 (BCreated n ''first'')), Return (writeJSON 201 (BCreated n ''second''))], s') \<and>
     map_option nd_SecretHash (registry (sv_db s') ''n'') = Some (HashSecret ''second'')"
proof -
  let ?ts = "[create_task sample_world race_codec rnd (race_rq ''first''),
              create_task sample_world race_codec rnd (race_rq ''second'')]"
  obtain ts s' where run: "run_schedule [0, 0, 0, 1, 1, 1, 0, 0, 0, 0, 0, 0, 1, 1, 1, 1, 1, 1] ?ts sample_server = (ts, s')" by fastforce
  have "\<exists>n. ts = [Return (writeJSON 201 (BCreated n ''first'')), Return (writeJSON 201 (BCreated n ''second''))]"
    and "map_option nd_SecretHash (registry (sv_db s') ''n'') = Some (HashSecret ''second'')"
    using run by (auto simp: create_task_def upsert_task_def race_defs registry_def admin_node_of_def)
  then show ?thesis using run_schedule_reaches [OF run] by auto
qed

text \<open>A change of a hub's secret that read the node before another request moved the hub puts the old address back.
  It compares with what it read, sees no change of the hubs, and does not raise the version: the agents that have
  fetched the new address under this version keep it.\<close>

lemma stale_patch_hides_address:
  "\<exists>ts1 s1 ts2 s2.
     pool_step\<^sup>*\<^sup>* (map (\<lambda>(j, r). job_task sample_world race_codec j r)
        [(JPatch, race_rq ''b:2''), (JPatch, race_rq [])], sample_server) (ts1, s1) \<and>
     pool_step\<^sup>*\<^sup>* (ts1, s1) (ts2, s2) \<and>
     map nd_Address (hub_list ''x'' (sv_db s1)) = [''b:2''] \<and> map nd_Address (hub_list ''x'' (sv_db s2)) = [''a:1''] \<and>
     version (sv_db s2) = version (sv_db s1)"
proof -
  let ?ts = "[patch_task sample_world race_codec (race_rq ''b:2''), patch_task sample_world race_codec (race_rq [])]"
  obtain ts1 s1 where run: "run_schedule [1, 1, 1, 1, 1, 1, 0, 0, 0, 0, 0, 0, 0, 0, 0, 0, 0, 0] ?ts sample_server = (ts1, s1)" by fastforce
  obtain ts2 s2 where run2: "run_schedule [1, 1, 1] ts1 s1 = (ts2, s2)" by fastforce
  have "map nd_Address (hub_list ''x'' (sv_db s1)) = [''b:2'']"
    using run by (auto simp: patch_task_def upsert_task_def race_defs hub_list_def hub_rows_def hub_row_def hub_node_def)
  moreover have "map nd_Address (hub_list ''x'' (sv_db s2)) = [''a:1'']" "version (sv_db s2) = version (sv_db s1)"
    using run run2
    by (auto simp: patch_task_def upsert_task_def race_defs hub_list_def hub_rows_def hub_row_def hub_node_def version_def)
  ultimately show ?thesis
    using run_schedule_reaches [OF run] run_schedule_reaches [OF run2]
    by (intro exI [of _ ts1] exI [of _ s1] exI [of _ ts2] exI [of _ s2]) simp
qed

text \<open>\<open>HubTargetsFor\<close> reads the list and then the version: when a hub moves in between, the answer is the old list
  under the new version, which the agent then keeps as up to date.\<close>

lemma old_targets_new_version:
  "\<exists>v s'. pool_step\<^sup>*\<^sup>*
     ([targets_task sample_world (zero_node\<lparr>nd_ID := ''x''\<rparr>), patch_task sample_world race_codec (race_rq ''b:2'')],
      sample_server)
     ([Return (writeJSON 200 (BTargets [\<lparr>te_ID = ''h1'', te_Address = ''a:1''\<rparr>] v)),
       Return (writeJSON 200 (BNode \<lparr>an_ID = ''h1'', an_Role = ''hub'', an_Address = ''b:2'', an_Disabled = False\<rparr>))], s') \<and>
     version (sv_db s') = v \<and> map nd_Address (hub_list ''x'' (sv_db s')) = [''b:2'']"
proof -
  let ?ts = "[targets_task sample_world (zero_node\<lparr>nd_ID := ''x''\<rparr>), patch_task sample_world race_codec (race_rq ''b:2'')]"
  let ?answers = "\<lambda>v. [Return (writeJSON 200 (BTargets [\<lparr>te_ID = ''h1'', te_Address = ''a:1''\<rparr>] v)),
       Return (writeJSON 200 (BNode \<lparr>an_ID = ''h1'', an_Role = ''hub'', an_Address = ''b:2'', an_Disabled = False\<rparr>))]"
  obtain ts s' where run: "run_schedule [0, 0, 0, 1, 1, 1, 1, 1, 1, 1, 1, 1, 1, 1, 1, 0, 0, 0] ?ts sample_server = (ts, s')" by fastforce
  have "ts = ?answers (version (sv_db s'))" "map nd_Address (hub_list ''x'' (sv_db s')) = [''b:2'']"
    using run by (auto simp: targets_task_def hub_targets_task_def patch_task_def upsert_task_def race_defs cd_query_def
        sql_query_def TargetsVersion_def admin_node_of_def hub_list_def hub_rows_def hub_row_def hub_node_def version_def)
  then show ?thesis
    using run_schedule_reaches [OF run] by (intro exI [of _ "version (sv_db s')"] exI [of _ s']) simp
qed

text \<open>A handler that panics in its section leaves \<open>dropsMu\<close> locked: no other results request gets past it.\<close>

lemma panic_blocks_others:
  assumes "sv_lastDrops s i = - (2 ^ 62)" "\<not> sv_dropsMu s"
  shows "\<exists>s'. pool_step\<^sup>*\<^sup>* ([drops_task i (2 ^ 62) t, drops_task j n t'], s) ([Return no_answer, drops_task j n t'], s') \<and>
    (\<nexists>y. pool_step ([Return no_answer, drops_task j n t'], s') y)"
proof -
  have w: "wrap64 (2 ^ 62 - - (2 ^ 62)) < 0"
    by (simp add: wrap64_def signed_take_bit_eq_take_bit_shift take_bit_eq_mod)
  have "run_schedule [0, 0] [drops_task i (2 ^ 62) t, drops_task j n t'] s =
      ([Return no_answer, drops_task j n t'], set_lock DropsMu True s)"
    using w assms by (simp add: drops_task_def [of i] acquire_def drops_section_def drops_delta_def)
  moreover have "\<nexists>y. pool_step ([Return no_answer, drops_task j n t'], set_lock DropsMu True s) y"
    by (auto simp: drops_task_def acquire_def less_Suc_eq elim!: pool_step.cases)
  ultimately show ?thesis using run_schedule_reaches by blast
qed

text \<open>The two creations at the same time, as an instance of the invariant of all interleavings.\<close>

theorem interleaved_consistent_witness:
  "\<exists>ts s'. pool_step\<^sup>*\<^sup>*
     (map (\<lambda>(j, r). job_task sample_world race_codec j r)
        [(JCreate (Inr []), race_rq ''first''), (JCreate (Inr []), race_rq ''second'')], sample_server) (ts, s') \<and>
     registry (sv_db s') ''n'' \<noteq> None \<and> ctl_inv (sv_db s') \<and> cd_results (sv_db s') = []"
proof -
  let ?reqs = "[(JCreate (Inr []), race_rq ''first''), (JCreate (Inr []), race_rq ''second'')]"
  obtain ts s' where steps: "pool_step\<^sup>*\<^sup>*
      (map (\<lambda>(j, r). job_task sample_world race_codec j r) ?reqs, sample_server) (ts, s')"
    and n: "map_option nd_SecretHash (registry (sv_db s') ''n'') = Some (HashSecret ''second'')"
    using concurrent_creates_both_succeed [of "Inr []"] by blast
  have "ctl_inv (sv_db sample_server)" "hubs_addressed (registry (sv_db sample_server))"
    using sample_ctl_well by (simp_all add: well_def)
  from interleaved_consistent [OF this steps] have "ctl_inv (sv_db s') \<and> cd_results (sv_db s') = []"
    by (simp add: sample_ctl_def ctl_init_def)
  then show ?thesis using steps n by (intro exI [of _ ts] exI [of _ s']) auto
qed

text \<open>A registered hub posts its batch while an administrator's request waits.\<close>

lemma run_first:
  assumes "run b t s = (x, s')" "x \<noteq> b"
  shows "pool_step\<^sup>*\<^sup>* (t # ts, s) (Return x # ts, s')"
  using assms
proof (induction t arbitrary: s)
  case (Await g f)
  obtain t1 s1 where f: "f s = (t1, s1)" by fastforce
  have g: "g s" using Await(2,3) by (auto split: if_splits)
  have "pool_step (Await g f # ts, s) (t1 # ts, s1)"
    using pool_step.go_on [of 0 "Await g f # ts" g f s t1 s1] f g by simp
  moreover have "t1 \<in> Basic_BNFs.fsts (f s)" using f by simp
  then have "pool_step\<^sup>*\<^sup>* (t1 # ts, s1) (Return x # ts, s')"
    using Await(1) [OF rangeI, of t1 s s1] Await(2,3) f g by (simp add: map_prod_def)
  ultimately show ?case by (rule converse_rtranclp_into_rtranclp)
qed simp

definition posting_server :: server where
  "posting_server = sample_server\<lparr>sv_db := ctl_init\<lparr>cd_nodes :=
     [set_node (sample_hub\<lparr>nd_SecretHash := HashSecret ''s''\<rparr>) (fresh_node_row ''9'' ''h1'')]\<rparr>\<rparr>"

definition posting_rq :: request where
  "posting_rq = sample_rq\<lparr>rq_header := (\<lambda>h. if h = ''Authorization'' then ''Bearer s'' else ''h1'')\<rparr>"

lemma answered_not_stuck: "rs_status resp = 201 \<Longrightarrow> resp \<noteq> no_answer"
  by auto

lemma posting_created:
  "\<exists>resp s'. run no_answer (job_task sample_world race_codec JResults posting_rq) posting_server = (resp, s') \<and> rs_status resp = 201"
proof -
  let ?hub = "sample_hub\<lparr>nd_SecretHash := HashSecret ''s''\<rparr>"
  let ?s = "posting_server\<lparr>sv_db := sv_db posting_server\<lparr>cd_calls := 1\<rparr>\<rparr>"
  have "parseBearer ''Bearer s'' = Some ''s''" by code_simp
  moreover have "idle posting_server" by (simp add: idle_def posting_server_def sample_server_def server_New_def NewWithOptions_def)
  ultimately have "run no_answer (job_task sample_world race_codec JResults posting_rq) posting_server =
      handleResults sample_world race_codec (Some ?hub) posting_rq ?s"
    by (simp add: bearer_task_def posting_rq_def posting_server_def Let_def on_db_def node_Get_def cd_call_def
        ctl_init_def find_node_def fresh_node_row_def set_node_def node_of_def sample_hub_def run_results)
  moreover have "\<exists>resp s'. handleResults sample_world race_codec (Some ?hub) posting_rq ?s = (resp, s') \<and> rs_status resp = 201"
    by (rule handleResults_fresh [OF sample_world_faultless, of _ _ sample_request])
      (simp_all add: race_codec_def sample_codec_def posting_rq_def sample_rq_def validateResultsRequest_def
        sample_request_def sample_hub_def time_is_zero_def posting_server_def ctl_init_def fresh_node_row_def
        set_node_def key_taken_def ingest_stuck_def sample_server_def)
  ultimately show ?thesis by simp
qed

theorem interleavings_end_witness:
  "\<exists>n resp s'. (pool_step ^^ n)
     (map (\<lambda>(j, r). job_task sample_world race_codec j r) [(JResults, posting_rq)], posting_server) ([Return resp], s') \<and>
     n \<le> 26 \<and> (\<nexists>y. pool_step ([Return resp], s') y) \<and> \<not> sv_dropsMu s'"
proof -
  let ?reqs = "[(JResults, posting_rq)]"
  obtain resp s' where "run no_answer (job_task sample_world race_codec JResults posting_rq) posting_server = (resp, s')"
    "rs_status resp = 201" using posting_created by blast
  then have "pool_step\<^sup>*\<^sup>* (map (\<lambda>(j, r). job_task sample_world race_codec j r) ?reqs, posting_server) ([Return resp], s')"
    using run_first [OF _ answered_not_stuck] by simp
  then obtain n where n: "(pool_step ^^ n)
      (map (\<lambda>(j, r). job_task sample_world race_codec j r) ?reqs, posting_server) ([Return resp], s')"
    using rtranclp_imp_relpowp by fastforce
  have "json_results race_codec (rq_body posting_rq) = Inr sample_request"
    by (simp add: race_codec_def sample_codec_def posting_rq_def sample_rq_def)
  then have "fair_report race_codec JResults posting_rq" "observations race_codec JResults posting_rq = 2"
    by (simp_all add: fair_report_def observations_def sample_request_def int64_def)
  moreover have "\<not> sv_dropsMu posting_server" "\<not> sv_hubMu posting_server" "\<not> sv_connBusy posting_server"
    "sv_lastDrops posting_server = (\<lambda>_. 0)"
    by (simp_all add: posting_server_def sample_server_def server_New_def NewWithOptions_def)
  ultimately have "n \<le> 26" "(\<nexists>y. pool_step ([Return resp], s') y) \<and> \<not> sv_dropsMu s'"
    using interleavings_end [OF n] by (simp_all add: int64_def)
  then show ?thesis using n by blast
qed

theorem interleaved_ack_stored_witness:
  "\<exists>resp s' rows. pool_step\<^sup>*\<^sup>*
     (map (\<lambda>(j, r). job_task sample_world race_codec j r) [(JResults, posting_rq), (JDelete, race_rq [])], posting_server)
     ([Return resp, admin_delete_task sample_world (race_rq [])], s') \<and> rs_status resp = 201 \<and>
     stored sample_request rows \<and> set rows \<subseteq> set (cd_results (sv_db s'))"
proof -
  let ?reqs = "[(JResults, posting_rq), (JDelete, race_rq [])]"
  obtain resp s' where "run no_answer (job_task sample_world race_codec JResults posting_rq) posting_server = (resp, s')"
    and ok: "rs_status resp = 201" using posting_created by blast
  then have steps: "pool_step\<^sup>*\<^sup>* (map (\<lambda>(j, r). job_task sample_world race_codec j r) ?reqs, posting_server)
      ([Return resp, admin_delete_task sample_world (race_rq [])], s')"
    using run_first [OF _ answered_not_stuck] by simp
  have "well (sv_db posting_server)"
    by (simp add: posting_server_def well_def ctl_inv_def ctl_init_def hubs_addressed_def registry_def find_node_def
        fresh_node_row_def set_node_def sample_hub_def node_of_def ran_def)
  then have "ctl_inv (sv_db posting_server)" "hubs_addressed (registry (sv_db posting_server))"
    by (simp_all add: well_def)
  from interleaved_ack_stored [OF this steps, of 0 posting_rq resp] ok obtain req pre rows post where
    "json_results race_codec (rq_body posting_rq) = Inr req" "stored req rows"
    "cd_results (sv_db s') = pre @ rows @ post" by auto
  moreover have "json_results race_codec (rq_body posting_rq) = Inr sample_request"
    by (simp add: race_codec_def sample_codec_def posting_rq_def sample_rq_def)
  ultimately have "stored sample_request rows" "set rows \<subseteq> set (cd_results (sv_db s'))" by auto
  then show ?thesis using steps ok by blast
qed

end
