(* ===== verification/Spec2Isabelle.thy ===== *)
theory Spec2Isabelle
  imports Spool_Termination Ticket_Props Auth_Props Config_Props Ui_Props Ws_Props Startup End_To_End Templates_Props
    Concurrency_Props
begin

text \<open>
  \<^bold>\<open>NetLatencyMonitor\<close>. Agents on network nodes measure the time of a TCP connect to the hubs of the network
  and report it to one controller. An agent writes every report first into a local SQLite table, the
  \<^emph>\<open>spool\<close>, and sends it from there until the controller acknowledges it. The controller keeps the
  registry of nodes and the table of results in SQLite, answers the agents with the version of the hub list,
  and shows a latency matrix to browsers. This development translates the Go code under \<open>src/\<close> and
  proves what the parts promise and what they achieve together.

  \<^bold>\<open>The foundation\<close>
  \<^item> \<open>NLM_Prelude\<close>: 64-bit integers with their wrap-around, Go times and durations, byte strings
    (\<open>strings.TrimSpace\<close>, \<open>Split\<close>, \<open>ToLower\<close>), the record \<open>world\<close>, rows of a query, shared lemmas.
  \<^item> \<open>Go_Lib\<close>: decimal printing and parsing, the time format of SQLite, \<open>encoding/hex\<close>, SHA-256 and the
    comparison in constant time.

  \<^bold>\<open>The agent\<close>
  \<^item> \<open>Config\<close>, \<open>Config_Props\<close> (\<open>internal/config\<close>): all settings; the round trip of the target list,
    and the exact bounds up to which the derived durations are right.
  \<^item> \<open>Spool\<close> (\<open>internal/spool\<close>): \<open>Open\<close>, \<open>Enqueue\<close>, \<open>Drain\<close> with its send loop and its retention loop,
    \<open>Backoff\<close>, the drain snapshot. \<open>Spool_Props\<close>, \<open>Spool_Drain\<close>, \<open>Spool_Retention\<close>, \<open>Spool_Theorems\<close>:
    the invariant of all reachable states, which rows a drain sends and in which order, that nothing is lost
    without being counted, that retention ends within the bounds, that backoff is the capped power of two.
    \<open>Spool_Delivery\<close>: what a sender has to promise (locale \<open>delivering_sender\<close>) for the rows it accepts to be
    delivered. \<open>Spool_Termination\<close>: a drain returns after a number of calls that is linear in the rows.
  \<^item> \<open>Agent_Client\<close> (\<open>internal/agent/client.go\<close>, \<open>targets.go\<close>): the sender and the cache of the hub list.
  \<^item> \<open>Spoke\<close> (\<open>probe.go\<close>, \<open>spoke.go\<close>, \<open>hub.go\<close>, \<open>listener.go\<close>, \<open>cmd/nlm-agent\<close>): the probes, a cycle,
    the daemon, the listener and the modes. \<open>Agent_Props\<close>: the concurrent probes equal sequential ones, the
    request of a cycle is valid for the controller, the cache follows the version, outages are caught up.

  \<^bold>\<open>The controller\<close> (\<open>internal/controller\<close> unless another package is named)
  \<^item> \<open>Node_Store\<close>, \<open>Node_Props\<close> (\<open>nodes.go\<close>, the migrations): the registry with its constraints; it refines
    a map from ids to nodes, and every change of a hub list raises \<open>targets_version\<close>.
  \<^item> \<open>Litestream\<close> (\<open>internal/litestream\<close>), \<open>Ticket\<close>, \<open>Ticket_Props\<close> (\<open>internal/ticket\<close>): the replication
    tracker and its journal watcher; WebSocket tickets, redeemed at most once and only by a live ticket of the
    right node; the limiter of failed redemptions.
  \<^item> \<open>Server\<close> (\<open>server.go\<close>, \<open>internal/chrony\<close>, \<open>internal/metrics\<close>, \<open>ws_hub.go\<close>): the state shared by the
    handlers, requests and responses, the clock query, the metrics, the hub of browser clients.
  \<^item> \<open>Results\<close>, \<open>Results_Props\<close> (\<open>results.go\<close>): ingest. The transaction stores a whole batch, recognises a
    replay or changes nothing, and the status says which. The section under \<open>dropsMu\<close> is modelled with its panic: a
    handler that panics or waits for ever gives no answer (status 0).
  \<^item> \<open>Auth_Admin\<close>, \<open>Auth_Props\<close> (\<open>auth.go\<close>, \<open>targets.go\<close>, \<open>admin.go\<close>): both middlewares and the handlers
    behind them.
  \<^item> \<open>Websocket\<close>, \<open>Ws_Props\<close> (\<open>ws.go\<close>): issue and redemption of tickets over HTTP, the connection loop.
  \<^item> \<open>Readiness\<close> (\<open>server.go\<close>, \<open>metrics.go\<close>): \<open>/healthz\<close>, \<open>/readyz\<close>, \<open>/metrics\<close>; exactly when the
    controller is ready.
  \<^item> \<open>Ui\<close>, \<open>Ui_Props\<close> (\<open>ui.go\<close>, \<open>probe_matrix.go\<close>, \<open>internal/ui/models.go\<close>, \<open>ws_hub.go\<close>): sessions, pages,
    fragments, the matrix query and the browser socket. Cookies go through the rules of \<open>net/http\<close>, and the
    columns of the matrix through those of \<open>database/sql\<close>; both refuse values that the code hands them.
  \<^item> \<open>Routes\<close>, \<open>Routes_Props\<close> (\<open>server.go\<close>, \<open>db.go\<close>): all routes with their middlewares; every one keeps
    the tables consistent and only appends results.
  \<^item> \<open>Templates\<close>, \<open>Templates_Props\<close> (\<open>internal/ui/*_templ.go\<close>): the HTML of every page and fragment, and the
    dashboard's script. Data cannot inject markup, the buttons of a row reach the handlers of its node, a live message
    gives the cell of its pair the class that the template writes.
  \<^item> \<open>Concurrency\<close>, \<open>Concurrency_Props\<close>: the handlers that change the tables, and that of the targets, as tasks
    whose steps take a lock, work and release it; the locks are the two mutexes and the only connection of the
    database. A task alone is its handler; every interleaving of requests ends within a number of steps that is linear
    in the requests and their observations, leaves no request waiting as long as no report is negative, keeps the
    tables consistent and stores what it acknowledges. Schedules show what is lost because a handler is not one
    transaction, and how a panic makes the later requests wait for ever.
  \<^item> \<open>Startup\<close> (\<open>cmd/nlm-controller\<close>, \<open>cmd/nlm-agent\<close>, \<open>internal/dbmigrate\<close>, \<open>internal/logging\<close>): both
    \<open>main\<close> functions, and the invariant of the controller over its whole life.

  \<^bold>\<open>The system\<close>. \<open>End_To_End\<close> connects an agent and a controller by a network that may lose a request or a
  reply, with other clients active between any two requests. A row that leaves the spool is in the controller's table,
  once, or is counted as dropped; a change of the hubs reaches an agent with its next delivery.

  \<^bold>\<open>Interfaces\<close>. A locale states what one part relies on in another: \<open>outcome_sender\<close> (a sender that
  answers with the three known outcomes) and \<open>delivering_sender\<close> (what it accepts has been delivered and stays
  so) are what the spool needs of its sender, interpreted on the agent's client and on that client over the
  network to the modelled controller; \<open>node_registry\<close> is what the handlers need of the registry, interpreted on
  the node store under any faults; \<open>escaper\<close> is what the pages need of \<open>EscapeString\<close>, interpreted on
  \<open>html.EscapeString\<close>; \<open>guarantee\<close> is the relation that concurrent requests promise each other, interpreted on the
  consistency of the tables and the growth of the results.

  \<^bold>\<open>How the code is read\<close>. A Go struct is a record, an error is a value of a sum or an option, an \<open>int64\<close>
  is an \<open>int\<close> with \<open>wrap64\<close> where the code computes with it, a SQL table is a list of records in rowid order with
  its constraints checked by the statements. External calls are numbered by a counter in the state;
  the record \<open>world\<close> says for each number whether the call fails, what the clock shows and what a file
  measures. The theorems hold for every \<open>world\<close>, so for every placement of faults, unless they name a
  hypothesis on it. In the theories of single handlers an operation under a mutex is one step, but for the section of
  \<open>dropsMu\<close>. Concurrent requests are a pool of tasks (\<open>pool_step\<close>) in which taking a lock is a step that waits for
  it; a transaction holds the connection from its begin to its end, a query until its rows are read. Updates of the
  metrics, which the Prometheus library guards itself, are single steps. Other goroutines are modelled by the order in which their effects
  happen (\<open>pr_finish\<close> for the probes, event lists for daemons, sockets and the controller). There is no fuel: loops
  over data are recursive functions with a termination proof, and an endless loop consumes a list of events,
  all of which are quantified over.

  \<^bold>\<open>Parameters\<close>. Code outside the repository is an argument: \<open>encoding/json\<close> (\<open>codec\<close>), the random
  source, the templ runtime (\<open>render_env\<close>), \<open>strconv.ParseFloat\<close>, \<open>net/http\<close>'s transport, dialling, the gorilla upgrade, \<open>chronyc\<close>,
  \<open>systemctl\<close> and \<open>journalctl\<close>, golang-migrate, the SQLite driver's error texts, rounding of averages and column values.
  What a theorem relies on (a codec that decodes what it encoded, for strings in valid UTF-8; a driver that names a
  violated constraint, or that delivers an undeclared column as text) is a hypothesis with a name, and its witness
  instantiates it.

  \<^bold>\<open>Not modelled\<close>. The embedding declarations (\<open>schema.go\<close>, \<open>static.go\<close>) and the style sheet. The part of the
  dashboard's script that opens the socket again and shows its state; it is rendered as text. Log lines, which no code reads. The mux's redirects for unclean paths. Timeouts
  appear as failures of the call they cut off. Text operations on characters beyond ASCII are those of bytes; so \<open>TrimSpace\<close> trims the
  white space of ASCII only. Requests that only read, other than that for the targets, are not part of the pools of concurrent tasks.
\<close>

end
